theory Spec2Isabelle
  imports Complex_Main
begin

section \<open>Python values shared by both programs\<close>

text \<open>
  Strings are ASCII byte strings. Exceptions of the Python sources are values of
  \<open>error\<close>; a computation that can raise returns \<open>error + 'a\<close>, with \<open>Inl\<close> the
  exception.
\<close>

datatype error =
    AssertionError
  | ValueError
  | IndexError
  | KeyError
  | ZeroDivisionError
  | RuntimeError
  | NotImplementedError

text \<open>\<open>sub in s\<close> on strings: \<open>sub\<close> occurs in \<open>s\<close> as a contiguous run.\<close>

fun py_contains :: "string \<Rightarrow> string \<Rightarrow> bool" where
  "py_contains sub [] = (sub = [])"
| "py_contains sub (c # cs) = (take (length sub) (c # cs) = sub \<or> py_contains sub cs)"

text \<open>
  Indexing a list or a tensor dimension of length \<open>n\<close> with a Python integer: a negative
  index counts from the end, anything outside \<open>[-n, n)\<close> raises \<open>IndexError\<close>.
\<close>

definition py_index :: "nat \<Rightarrow> int \<Rightarrow> error + nat" where
  "py_index n i =
     (let j = (if i < 0 then int n + i else i)
      in if 0 \<le> j \<and> j < int n then Inr (nat j) else Inl IndexError)"

definition py_get :: "'a list \<Rightarrow> int \<Rightarrow> error + 'a" where
  "py_get xs i = (case py_index (length xs) i of Inl e \<Rightarrow> Inl e | Inr j \<Rightarrow> Inr (xs ! j))"

section \<open>extract\_clip/extract.py\<close>

text \<open>
  A state dict is an \<open>OrderedDict\<close> from parameter names to tensors: an association
  list with distinct keys, in insertion order. Tensors are never inspected by the script,
  so their type is a parameter. \<open>od_set\<close> is \<open>d[k] = v\<close>: an existing key keeps
  its place and gets the new value, a new key goes to the end.
\<close>

type_synonym 'v state_dict = "(string \<times> 'v) list"

fun od_set :: "('k \<times> 'v) list \<Rightarrow> 'k \<Rightarrow> 'v \<Rightarrow> ('k \<times> 'v) list" where
  "od_set [] k v = [(k, v)]"
| "od_set ((k', v') # d) k v = (if k' = k then (k, v) # d else (k', v') # od_set d k v)"

definition dropped_keys :: "string list" where
  "dropped_keys = [''proj'', ''ln_post.weight'', ''ln_post.bias'']"

text \<open>
  The loop body of the script, for one item \<open>(k, v)\<close> of \<open>model.state_dict().items()\<close>,
  and the loop itself over the items in order, threading \<open>new_state_dict\<close>.
\<close>

definition extract_item :: "'v state_dict \<Rightarrow> string \<times> 'v \<Rightarrow> 'v state_dict" where
  "extract_item new_state_dict kv =
     (case kv of (k, v) \<Rightarrow>
        if py_contains ''visual.'' k then
          (if drop 7 k \<notin> set dropped_keys then od_set new_state_dict (drop 7 k) v
           else new_state_dict)
        else new_state_dict)"

fun extract_loop :: "'v state_dict \<Rightarrow> 'v state_dict \<Rightarrow> 'v state_dict" where
  "extract_loop new_state_dict [] = new_state_dict"
| "extract_loop new_state_dict (kv # items) = extract_loop (extract_item new_state_dict kv) items"

definition extract_visual :: "'v state_dict \<Rightarrow> 'v state_dict" where
  "extract_visual sd = extract_loop [] sd"

text \<open>
  The module body: three times \<open>clip.load\<close>, the loop, \<open>torch.save\<close>. \<open>clip.load\<close> is
  the external library; \<open>load name\<close> is the state dict of the model it returns. The
  result lists the files written, in order, with their contents.
\<close>

definition clip_models :: "(string \<times> string) list" where
  "clip_models =
     [(''ViT-B/16'', ''vit_b16.pth''),
      (''ViT-L/14'', ''vit_l14.pth''),
      (''ViT-L/14@336px'', ''vit_l14_336.pth'')]"

definition extract_script :: "(string \<Rightarrow> 'v state_dict) \<Rightarrow> (string \<times> 'v state_dict) list" where
  "extract_script load = map (\<lambda>(name, file). (file, extract_visual (load name))) clip_models"

text \<open>The keys the script keeps: those in which \<open>visual.\<close> occurs and whose tail is not dropped.\<close>

definition kept :: "string \<Rightarrow> bool" where
  "kept k = (py_contains ''visual.'' k \<and> drop 7 k \<notin> set dropped_keys)"

text \<open>A small state dict in the shape of a CLIP model's, used to run the script.\<close>

definition example_load :: "string \<Rightarrow> nat state_dict" where
  "example_load name =
     [(''logit_scale'', 1), (''visual.proj'', 2), (''visual.conv1.weight'', 3),
      (''visual.ln_post.bias'', 4), (''transformer.ln.weight'', 5), (''visual.ln_pre.weight'', 6)]"

section \<open>Python builtins used by the dataset loader\<close>

text \<open>
  \<open>s.split(sep)\<close> for a non-empty separator: the occurrences of \<open>sep\<close> are found from
  left to right without overlap, and the pieces between them are returned, empty pieces
  included. An empty separator raises \<open>ValueError\<close>.
\<close>

function split_on :: "string \<Rightarrow> string \<Rightarrow> string list" where
  "split_on sep [] = [[]]"
| "split_on sep (c # cs) =
     (if sep \<noteq> [] \<and> take (length sep) (c # cs) = sep
      then [] # split_on sep (drop (length sep) (c # cs))
      else (case split_on sep cs of [] \<Rightarrow> [[c]] | w # ws \<Rightarrow> (c # w) # ws))"
  by pat_completeness auto
termination
  by (relation "measure (\<lambda>(sep, s). length s)") auto

definition str_split :: "string \<Rightarrow> string \<Rightarrow> error + string list" where
  "str_split s sep = (if sep = [] then Inl ValueError else Inr (split_on sep s))"

text \<open>
  \<open>int(s)\<close> on an ASCII string, base 10: surrounding whitespace is stripped, one sign is
  allowed, then come decimal digits, where single underscores may stand between two
  digits. Everything else raises \<open>ValueError\<close>.
\<close>

definition py_isspace :: "char \<Rightarrow> bool" where
  "py_isspace c = (c \<in> set [CHR 0x09, CHR 0x0A, CHR 0x0B, CHR 0x0C, CHR 0x0D, CHR 0x20])"

definition py_strip :: "string \<Rightarrow> string" where
  "py_strip s = rev (dropWhile py_isspace (rev (dropWhile py_isspace s)))"

definition digit_of :: "char \<Rightarrow> int option" where
  "digit_of c =
     (let n = (of_char c :: nat) in if 48 \<le> n \<and> n \<le> 57 then Some (int n - 48) else None)"

fun digits_value :: "bool \<Rightarrow> int \<Rightarrow> string \<Rightarrow> int option" where
  "digits_value prev_digit acc [] = (if prev_digit then Some acc else None)"
| "digits_value prev_digit acc (c # cs) =
     (case digit_of c of
        Some d \<Rightarrow> digits_value True (acc * 10 + d) cs
      | None \<Rightarrow> if c = CHR ''_'' \<and> prev_digit then digits_value False acc cs else None)"

definition py_int :: "string \<Rightarrow> error + int" where
  "py_int s =
     (let t = py_strip s;
          r = (case t of
                 [] \<Rightarrow> None
               | c # cs \<Rightarrow>
                   if c = CHR ''+'' then digits_value False 0 cs
                   else if c = CHR ''-'' then map_option uminus (digits_value False 0 cs)
                   else digits_value False 0 t)
      in case r of None \<Rightarrow> Inl ValueError | Some n \<Rightarrow> Inr n)"

text \<open>\<open>list(map(int, strs))\<close>: the first string that is no integer raises.\<close>

fun map_int :: "string list \<Rightarrow> error + int list" where
  "map_int [] = Inr []"
| "map_int (s # ss) =
     (case py_int s of
        Inl e \<Rightarrow> Inl e
      | Inr n \<Rightarrow> (case map_int ss of Inl e \<Rightarrow> Inl e | Inr ns \<Rightarrow> Inr (n # ns)))"

text \<open>\<open>os.path.join(a, p)\<close> on POSIX, two arguments.\<close>

definition path_join :: "string \<Rightarrow> string \<Rightarrow> string" where
  "path_join a p =
     (if p \<noteq> [] \<and> hd p = CHR ''/'' then p
      else if a = [] \<or> last a = CHR ''/'' then a @ p
      else a @ ''/'' @ p)"

text \<open>
  \<open>round(x)\<close> of a float: the nearest integer, a tie going to the even one. A finite
  float is the real number it stands for; what floating-point arithmetic adds is the
  rounding of each result to a representable number, the function \<open>fl\<close> of the
  environment below.
\<close>

definition py_round :: "real \<Rightarrow> int" where
  "py_round x =
     (let f = \<lfloor>x\<rfloor>; d = x - of_int f
      in if d < 1 / 2 then f else if 1 / 2 < d then f + 1 else if even f then f else f + 1)"

section \<open>slowfast/datasets/hvu.py: data\<close>

text \<open>
  The configuration node, flattened: \<open>cfg.TEST.NUM_SPATIAL_CROPS\<close> is the field
  \<open>TEST_NUM_SPATIAL_CROPS\<close>. Only the fields that the loader itself reads or writes
  are named; every other field of the node lives in the extension of the record, so
  that a statement about \<open>'a cfg_scheme\<close> is a statement about the whole node.
\<close>

record cfg =
  DATA_PATH_TO_DATA_DIR :: string
  DATA_PATH_LABEL_SEPARATOR :: string
  DATA_PATH_PREFIX :: string
  DATA_TRAIN_JITTER_SCALES :: "int list"
  DATA_TRAIN_CROP_SIZE :: int
  DATA_TEST_CROP_SIZE :: int
  DATA_TRAIN_JITTER_SCALES_RELATIVE :: "real list"
  DATA_TRAIN_JITTER_ASPECT_RELATIVE :: "real list"
  DATA_TRAIN_JITTER_MOTION_SHIFT :: bool
  MODEL_NUM_CLASSES :: int
  TEST_NUM_ENSEMBLE_VIEWS :: int
  TEST_NUM_SPATIAL_CROPS :: int
  AUG_ENABLE :: bool
  AUG_RE_PROB :: real
  AUG_NUM_SAMPLE :: int
  MULTIGRID_SHORT_CYCLE_FACTORS :: "real list"
  MULTIGRID_DEFAULT_S :: int

text \<open>
  The attributes of an \<open>Hvu\<close> object. \<open>self.cfg\<close> is not among them: it is the
  caller's configuration object itself, not a copy, so every operation takes the current
  state of that object as an argument. \<open>_video_meta\<close> is a dict from sample index to
  a dict of decoder metadata; dicts are association lists in insertion order.
\<close>

type_synonym meta = "(string \<times> real) list"

record hvu =
  mode :: string
  video_meta :: "(int \<times> meta) list"
  num_retries :: int
  num_clips :: int
  path_to_videos :: "string list"
  labels :: "real list list"
  spatial_temporal_idx :: "int list"
  aug :: bool
  rand_erase :: bool

text \<open>The file system as \<open>g_pathmgr\<close> shows it: a path is absent or holds lines of text.\<close>

type_synonym files = "string \<Rightarrow> string list option"

text \<open>
  The libraries the loader calls. Each call that can draw random numbers, or whose
  result can change from one call to the next, takes the number of the attempt or of
  the sample as its first argument. Library calls take the configuration as a whole:
  the fields the source hands them one by one are fields of it. Of type \<open>'c\<close> are video
  containers, of type \<open>'f\<close> tensors of frames, of type \<open>'i\<close> PIL images.
  \<^item> \<open>fl\<close> rounds a real number to a float.
  \<^item> \<open>get_video_container i cfg path\<close> is \<open>None\<close> when the library returns \<open>None\<close> or raises.
  \<^item> \<open>decode i cfg container sampling_rate temporal_sample_index max_spatial_scale meta\<close>
    gives the frames, or \<open>None\<close>, and the metadata dict as the decoder leaves it.
  \<^item> \<open>randint i a b\<close> is \<open>random.randint(a, b)\<close> for \<open>a \<le> b\<close>.
  \<^item> \<open>spatial_sampling k cfg spatial_idx min_scale max_scale crop_size aspect_ratio scale
    motion_shift frames\<close>; the flags for flipping and inverse uniform sampling are fields
    of \<open>cfg\<close>.
  \<^item> \<open>create_random_augment k cfg frames\<close> is the transform on lists of images that
    \<open>create_random_augment\<close> builds for the size of \<open>frames\<close>.
  \<^item> \<open>random_erasing k cfg\<close> is the \<open>RandomErasing\<close> transform built from \<open>cfg.AUG\<close>.
  \<^item> \<open>unbind frames\<close> lists \<open>frames[i]\<close> for \<open>i\<close> in \<open>range(frames.size(0))\<close>;
    \<open>stack\<close> is \<open>torch.stack\<close>, \<open>to_pil_image\<close> and \<open>to_tensor\<close> are the
    torchvision transforms.
\<close>

record ('a, 'c, 'f, 'i) env =
  fl :: "real \<Rightarrow> real"
  get_random_sampling_rate :: "'a cfg_scheme \<Rightarrow> int"
  get_video_container :: "nat \<Rightarrow> 'a cfg_scheme \<Rightarrow> string \<Rightarrow> 'c option"
  decode :: "nat \<Rightarrow> 'a cfg_scheme \<Rightarrow> 'c \<Rightarrow> int \<Rightarrow> int \<Rightarrow> int \<Rightarrow> meta \<Rightarrow> 'f option \<times> meta"
  randint :: "nat \<Rightarrow> int \<Rightarrow> int \<Rightarrow> int"
  tensor_normalize :: "'a cfg_scheme \<Rightarrow> 'f \<Rightarrow> 'f"
  permute :: "nat list \<Rightarrow> 'f \<Rightarrow> 'f"
  spatial_sampling ::
    "nat \<Rightarrow> 'a cfg_scheme \<Rightarrow> int \<Rightarrow> int \<Rightarrow> int \<Rightarrow> int \<Rightarrow> real list option \<Rightarrow> real list option \<Rightarrow> bool \<Rightarrow> 'f \<Rightarrow> 'f"
  create_random_augment :: "nat \<Rightarrow> 'a cfg_scheme \<Rightarrow> 'f \<Rightarrow> 'i list \<Rightarrow> 'i list"
  random_erasing :: "nat \<Rightarrow> 'a cfg_scheme \<Rightarrow> 'f \<Rightarrow> 'f"
  unbind :: "'f \<Rightarrow> 'f list"
  stack :: "'f list \<Rightarrow> 'f"
  to_pil_image :: "'f \<Rightarrow> 'i"
  to_tensor :: "'i \<Rightarrow> 'f"
  pack_pathway_output :: "'a cfg_scheme \<Rightarrow> 'f \<Rightarrow> 'f list"

text \<open>
  What \<open>__getitem__\<close> returns is a Python tuple, a list of values: tensors of frames
  (one per pathway), a label vector, an integer, the empty dict, or a list of values.
\<close>

datatype 'f pyval =
    PyTensors "'f list"
  | PyLabels "real list"
  | PyInt int
  | PyEmptyDict
  | PyList "'f pyval list"

text \<open>The argument of \<open>__getitem__\<close>: an index, or a pair of an index and a short-cycle index.\<close>

datatype getitem_arg = Idx int | IdxCycle int int

text \<open>The local variables that lines 103 to 119 of \<open>__getitem__\<close> set.\<close>

record scales =
  temporal_sample_index :: int
  spatial_sample_index :: int
  min_scale :: int
  max_scale :: int
  crop_size :: int

section \<open>slowfast/datasets/hvu.py: construction\<close>

text \<open>
  \<open>torch.zeros(n, dtype=torch.float32)\<close>, and the loop \<open>for label in labels:
  one_hot_labels[label] = 1\<close>. The entries written are the floats 0 and 1. The
  number of classes and the labels are integers of 64 bits, as torch takes them; for
  greater ones torch raises other exceptions than the ones here.
\<close>

definition torch_zeros :: "int \<Rightarrow> error + real list" where
  "torch_zeros n = (if n < 0 then Inl RuntimeError else Inr (replicate (nat n) 0))"

fun set_labels :: "real list \<Rightarrow> int list \<Rightarrow> error + real list" where
  "set_labels one_hot_labels [] = Inr one_hot_labels"
| "set_labels one_hot_labels (label # ls) =
     (case py_index (length one_hot_labels) label of
        Inl e \<Rightarrow> Inl e
      | Inr j \<Rightarrow> set_labels (one_hot_labels[j := 1]) ls)"

text \<open>
  Lines 71 to 78, for one line of the file: the path, the list of labels, and the label
  vector. A line that does not split in two, a label that is no integer, a negative
  number of classes and a label out of range raise.
\<close>

definition parse_line :: "'a cfg_scheme \<Rightarrow> string \<Rightarrow> error + (string \<times> int list \<times> real list)" where
  "parse_line cfg path_label =
     (case str_split path_label (DATA_PATH_LABEL_SEPARATOR cfg) of
        Inl e \<Rightarrow> Inl e
      | Inr parts \<Rightarrow>
          (case parts of
             [path, label_str] \<Rightarrow>
               (case str_split label_str ''|'' of
                  Inl e \<Rightarrow> Inl e
                | Inr strs \<Rightarrow>
                    (case map_int strs of
                       Inl e \<Rightarrow> Inl e
                     | Inr ls \<Rightarrow>
                         (case torch_zeros (MODEL_NUM_CLASSES cfg) of
                            Inl e \<Rightarrow> Inl e
                          | Inr zeros \<Rightarrow>
                              (case set_labels zeros ls of
                                 Inl e \<Rightarrow> Inl e
                               | Inr one_hot_labels \<Rightarrow> Inr (path, ls, one_hot_labels)))))
           | _ \<Rightarrow> Inl ValueError))"

text \<open>Lines 80 to 84: the loop \<open>for idx in range(self._num_clips)\<close>.\<close>

fun clip_loop :: "'a cfg_scheme \<Rightarrow> string \<Rightarrow> real list \<Rightarrow> nat \<Rightarrow> nat list \<Rightarrow> hvu \<Rightarrow> hvu" where
  "clip_loop cfg path one_hot_labels clip_idx [] self = self"
| "clip_loop cfg path one_hot_labels clip_idx (idx # idxs) self =
     clip_loop cfg path one_hot_labels clip_idx idxs
       (self\<lparr>path_to_videos := path_to_videos self @ [path_join (DATA_PATH_PREFIX cfg) path],
             labels := labels self @ [one_hot_labels],
             spatial_temporal_idx := spatial_temporal_idx self @ [int idx],
             video_meta :=
               od_set (video_meta self) (int clip_idx * num_clips self + int idx) []\<rparr>)"

text \<open>Lines 70 to 84: the loop over the enumerated lines of the file.\<close>

fun line_loop :: "'a cfg_scheme \<Rightarrow> (nat \<times> string) list \<Rightarrow> hvu \<Rightarrow> error + hvu" where
  "line_loop cfg [] self = Inr self"
| "line_loop cfg ((clip_idx, path_label) # rest) self =
     (case parse_line cfg path_label of
        Inl e \<Rightarrow> Inl e
      | Inr (path, ls, one_hot_labels) \<Rightarrow>
          line_loop cfg rest
            (clip_loop cfg path one_hot_labels clip_idx [0..<nat (num_clips self)] self))"

definition construct_loader :: "files \<Rightarrow> 'a cfg_scheme \<Rightarrow> hvu \<Rightarrow> error + hvu" where
  "construct_loader fs cfg self =
     (let path_to_file = path_join (DATA_PATH_TO_DATA_DIR cfg) (mode self @ ''.csv'')
      in case fs path_to_file of
           None \<Rightarrow> Inl AssertionError
         | Some file_lines \<Rightarrow>
             (case line_loop cfg (enumerate 0 file_lines)
                     (self\<lparr>path_to_videos := [], labels := [], spatial_temporal_idx := []\<rparr>) of
                Inl e \<Rightarrow> Inl e
              | Inr self' \<Rightarrow>
                  if length (path_to_videos self') > 0 then Inr self' else Inl AssertionError))"

text \<open>
  \<open>Hvu.__init__\<close>. The configuration object is the caller's; the first component of
  the result is its state after the call, whether the constructor returns or raises.
  Attributes that Python has not yet assigned hold empty values until they are. The
  assertion of line 34 leaves the \<open>elif\<close> of line 46 no other case.
\<close>

definition Hvu_init :: "files \<Rightarrow> 'a cfg_scheme \<Rightarrow> string \<Rightarrow> int \<Rightarrow> 'a cfg_scheme \<times> (error + hvu)" where
  "Hvu_init fs cfg md retries =
     (if md \<notin> set [''train'', ''val'', ''test''] then (cfg, Inl AssertionError)
      else
        let self0 = \<lparr>mode = md, video_meta = [], num_retries = retries, num_clips = 0,
                     path_to_videos = [], labels = [], spatial_temporal_idx = [],
                     aug = False, rand_erase = False\<rparr>;
            (cfg1, self1) =
              (if md \<in> set [''train'', ''val''] then
                 (cfg\<lparr>TEST_NUM_ENSEMBLE_VIEWS := 1, TEST_NUM_SPATIAL_CROPS := 1\<rparr>,
                  self0\<lparr>num_clips := 1\<rparr>)
               else if md \<in> set [''test''] then
                 (cfg, self0\<lparr>num_clips := TEST_NUM_ENSEMBLE_VIEWS cfg * TEST_NUM_SPATIAL_CROPS cfg\<rparr>)
               else (cfg, self0))
        in case construct_loader fs cfg1 self1 of
             Inl e \<Rightarrow> (cfg1, Inl e)
           | Inr self2 \<Rightarrow>
               let self3 = self2\<lparr>aug := False, rand_erase := False\<rparr>;
                   self4 =
                     (if md = ''train'' \<and> AUG_ENABLE cfg1 then
                        (if AUG_RE_PROB cfg1 > 0 then self3\<lparr>aug := True, rand_erase := True\<rparr>
                         else self3\<lparr>aug := True\<rparr>)
                      else self3)
               in (cfg1, Inr self4))"

definition Hvu_len :: "hvu \<Rightarrow> int" where
  "Hvu_len self = int (length (path_to_videos self))"

definition num_videos :: "hvu \<Rightarrow> int" where
  "num_videos self = int (length (path_to_videos self))"

section \<open>slowfast/datasets/hvu.py: \_\_getitem\_\_\<close>

text \<open>
  Lines 103 to 119. In floating point, \<open>a * b\<close> and \<open>a / b\<close> are the exact result
  rounded by \<open>fl\<close>, and an integer operand is first converted, again by \<open>fl\<close>.
  \<open>//\<close> and \<open>%\<close> on Python integers are \<open>div\<close> and \<open>mod\<close> on \<open>int\<close>; a zero
  divisor raises.
\<close>

definition float_of_int :: "('a, 'c, 'f, 'i) env \<Rightarrow> int \<Rightarrow> real" where
  "float_of_int env n = fl env (of_int n)"

definition fmul :: "('a, 'c, 'f, 'i) env \<Rightarrow> real \<Rightarrow> real \<Rightarrow> real" where
  "fmul env x y = fl env (x * y)"

definition fdiv :: "('a, 'c, 'f, 'i) env \<Rightarrow> real \<Rightarrow> real \<Rightarrow> real" where
  "fdiv env x y = fl env (x / y)"

definition sample_scales ::
  "('a, 'c, 'f, 'i) env \<Rightarrow> 'a cfg_scheme \<Rightarrow> hvu \<Rightarrow> int \<Rightarrow> int option \<Rightarrow> error + scales" where
  "sample_scales env cfg self index short_cycle_idx =
     (if mode self \<in> set [''train''] then
        (case py_get (DATA_TRAIN_JITTER_SCALES cfg) 0 of
           Inl e \<Rightarrow> Inl e
         | Inr min_scale0 \<Rightarrow>
        (case py_get (DATA_TRAIN_JITTER_SCALES cfg) 1 of
           Inl e \<Rightarrow> Inl e
         | Inr max_scale0 \<Rightarrow>
        (case (if short_cycle_idx \<in> set [Some 0, Some 1] then
                 (case py_get (MULTIGRID_SHORT_CYCLE_FACTORS cfg) (the short_cycle_idx) of
                    Inl e \<Rightarrow> Inl e
                  | Inr factor \<Rightarrow>
                      Inr (py_round (fmul env factor (float_of_int env (MULTIGRID_DEFAULT_S cfg)))))
               else Inr (DATA_TRAIN_CROP_SIZE cfg)) of
           Inl e \<Rightarrow> Inl e
         | Inr crop_size0 \<Rightarrow>
             Inr \<lparr>temporal_sample_index = - 1, spatial_sample_index = - 1,
                  min_scale =
                    (if MULTIGRID_DEFAULT_S cfg > 0 then
                       py_round (fdiv env
                         (fmul env (float_of_int env min_scale0) (float_of_int env crop_size0))
                         (float_of_int env (MULTIGRID_DEFAULT_S cfg)))
                     else min_scale0),
                  max_scale = max_scale0, crop_size = crop_size0\<rparr>)))
      else if mode self \<in> set [''val'', ''test''] then
        (case py_get (spatial_temporal_idx self) index of
           Inl e \<Rightarrow> Inl e
         | Inr sti \<Rightarrow>
             if TEST_NUM_SPATIAL_CROPS cfg = 0 then Inl ZeroDivisionError
             else
               Inr \<lparr>temporal_sample_index = sti div TEST_NUM_SPATIAL_CROPS cfg,
                    spatial_sample_index =
                      (if TEST_NUM_SPATIAL_CROPS cfg > 1 then sti mod TEST_NUM_SPATIAL_CROPS cfg
                       else 1),
                    min_scale = DATA_TEST_CROP_SIZE cfg, max_scale = DATA_TEST_CROP_SIZE cfg,
                    crop_size = DATA_TEST_CROP_SIZE cfg\<rparr>)
      else Inl NotImplementedError)"

text \<open>The methods \<open>_frame_to_list_img\<close>, \<open>_list_img_to_frames\<close> and \<open>_aug_frame\<close>.\<close>

definition frame_to_list_img :: "('a, 'c, 'f, 'i) env \<Rightarrow> 'f \<Rightarrow> 'i list" where
  "frame_to_list_img env frames = map (to_pil_image env) (unbind env frames)"

definition list_img_to_frames :: "('a, 'c, 'f, 'i) env \<Rightarrow> 'i list \<Rightarrow> 'f" where
  "list_img_to_frames env img_list = stack env (map (to_tensor env) img_list)"

definition aug_frame ::
  "('a, 'c, 'f, 'i) env \<Rightarrow> 'a cfg_scheme \<Rightarrow> hvu \<Rightarrow> nat \<Rightarrow> 'f \<Rightarrow> int \<Rightarrow> int \<Rightarrow> int \<Rightarrow> int \<Rightarrow> 'f" where
  "aug_frame env cfg self k frames spatial_idx min_sc max_sc crop =
     (let aug_transform = create_random_augment env k cfg frames;
          frames1 = permute env [0, 3, 1, 2] frames;
          list_img = aug_transform (frame_to_list_img env frames1);
          frames2 = permute env [0, 2, 3, 1] (list_img_to_frames env list_img);
          frames3 = permute env [3, 0, 1, 2] (tensor_normalize env cfg frames2);
          scl = DATA_TRAIN_JITTER_SCALES_RELATIVE cfg;
          asp = DATA_TRAIN_JITTER_ASPECT_RELATIVE cfg;
          relative_scales =
            (if mode self \<notin> set [''train''] \<or> length scl = 0 then None else Some scl);
          relative_aspect =
            (if mode self \<notin> set [''train''] \<or> length asp = 0 then None else Some asp);
          frames4 = spatial_sampling env k cfg spatial_idx min_sc max_sc crop
                      relative_aspect relative_scales
                      (if mode self \<in> set [''train''] then DATA_TRAIN_JITTER_MOTION_SHIFT cfg
                       else False)
                      frames3
      in if rand_erase self then
           permute env [1, 0, 2, 3] (random_erasing env k cfg (permute env [1, 0, 2, 3] frames4))
         else frames4)"

text \<open>
  Lines 174 to 186: the loop \<open>for _ in range(self.cfg.AUG.NUM_SAMPLE)\<close>, threading the
  three lists. It raises if \<open>self._labels[index]\<close> does.
\<close>

fun sample_loop ::
  "('a, 'c, 'f, 'i) env \<Rightarrow> 'a cfg_scheme \<Rightarrow> hvu \<Rightarrow> scales \<Rightarrow> 'f \<Rightarrow> int \<Rightarrow> nat list \<Rightarrow>
   'f pyval list \<times> 'f pyval list \<times> 'f pyval list \<Rightarrow>
   error + 'f pyval list \<times> 'f pyval list \<times> 'f pyval list" where
  "sample_loop env cfg self sc frames index [] acc = Inr acc"
| "sample_loop env cfg self sc frames index (k # ks) (frame_list, label_list, index_list) =
     (let new_frames = aug_frame env cfg self k frames (spatial_sample_index sc)
                         (min_scale sc) (max_scale sc) (crop_size sc)
      in case py_get (labels self) index of
           Inl e \<Rightarrow> Inl e
         | Inr lbls \<Rightarrow>
             sample_loop env cfg self sc frames index ks
               (frame_list @ [PyTensors (pack_pathway_output env cfg new_frames)],
                label_list @ [PyLabels lbls],
                index_list @ [PyInt index]))"

text \<open>Lines 171 to 207: what is done with frames that were decoded.\<close>

definition finish ::
  "('a, 'c, 'f, 'i) env \<Rightarrow> 'a cfg_scheme \<Rightarrow> hvu \<Rightarrow> scales \<Rightarrow> 'f \<Rightarrow> int \<Rightarrow> error + 'f pyval list" where
  "finish env cfg self sc frames index =
     (if aug self \<and> AUG_NUM_SAMPLE cfg > 1 then
        (case sample_loop env cfg self sc frames index [0..<nat (AUG_NUM_SAMPLE cfg)] ([], [], []) of
           Inl e \<Rightarrow> Inl e
         | Inr (frame_list, label_list, index_list) \<Rightarrow>
             Inr [PyList frame_list, PyList label_list, PyList index_list, PyEmptyDict])
      else
        (let frames1 =
               (if aug self then
                  aug_frame env cfg self 0 frames (spatial_sample_index sc)
                    (min_scale sc) (max_scale sc) (crop_size sc)
                else
                  spatial_sampling env 0 cfg (spatial_sample_index sc)
                    (min_scale sc) (max_scale sc) (crop_size sc) None None False
                    (permute env [3, 0, 1, 2] (tensor_normalize env cfg frames)))
         in case py_get (labels self) index of
              Inl e \<Rightarrow> Inl e
            | Inr lbls \<Rightarrow>
                Inr [PyTensors (pack_pathway_output env cfg frames1), PyLabels lbls, PyInt index,
                     PyEmptyDict]))"

text \<open>\<open>random.randint(a, b)\<close> raises on an empty range.\<close>

definition py_randint :: "('a, 'c, 'f, 'i) env \<Rightarrow> nat \<Rightarrow> int \<Rightarrow> int \<Rightarrow> error + int" where
  "py_randint env i a b = (if b < a then Inl ValueError else Inr (randint env i a b))"

text \<open>
  Lines 123 to 209: the loop \<open>for i_try in range(self._num_retries)\<close> over the attempts
  that remain, and the \<open>raise\<close> after it. The local variable \<open>index\<close> and the object
  are threaded. \<open>get_video_container\<close> gives \<open>None\<close> both when the library returns
  \<open>None\<close> and when it raises, which line 129 catches. An \<open>index\<close> that is out of range
  for \<open>self._path_to_videos\<close> raises \<open>IndexError\<close> at line 126 and, once that is
  caught, again at line 130, from which it leaves the function. The decoder may write
  to the metadata dict it is given.
\<close>

fun retry_loop ::
  "('a, 'c, 'f, 'i) env \<Rightarrow> 'a cfg_scheme \<Rightarrow> scales \<Rightarrow> int \<Rightarrow> nat list \<Rightarrow> hvu \<Rightarrow> int \<Rightarrow>
   (error + 'f pyval list) \<times> hvu" where
  "retry_loop env cfg sc sampling_rate [] self index =
     (case py_get (path_to_videos self) index of
        Inl e \<Rightarrow> (Inl e, self)
      | Inr path \<Rightarrow> (Inl RuntimeError, self))"
| "retry_loop env cfg sc sampling_rate (i_try # tries) self index =
     (case py_get (path_to_videos self) index of
        Inl e \<Rightarrow> (Inl e, self)
      | Inr path \<Rightarrow>
          (case get_video_container env i_try cfg path of
             None \<Rightarrow>
               if mode self \<notin> set [''test''] \<and> int i_try > num_retries self div 2 then
                 (case py_randint env i_try 0 (int (length (path_to_videos self)) - 1) of
                    Inl e \<Rightarrow> (Inl e, self)
                  | Inr j \<Rightarrow> retry_loop env cfg sc sampling_rate tries self j)
               else if mode self \<in> set [''test''] \<and> int i_try > num_retries self div 2 then
                 retry_loop env cfg sc sampling_rate tries self (index - 1)
               else retry_loop env cfg sc sampling_rate tries self index
           | Some video_container \<Rightarrow>
               (case map_of (video_meta self) index of
                  None \<Rightarrow> (Inl KeyError, self)
                | Some m \<Rightarrow>
                    (case decode env i_try cfg video_container sampling_rate
                            (temporal_sample_index sc) (min_scale sc) m of
                       (None, m') \<Rightarrow>
                         if mode self \<notin> set [''test''] \<and> int i_try > num_retries self div 2 then
                           (case py_randint env i_try 0 (int (length (path_to_videos self)) - 1) of
                              Inl e \<Rightarrow> (Inl e, self\<lparr>video_meta := od_set (video_meta self) index m'\<rparr>)
                            | Inr j \<Rightarrow>
                                retry_loop env cfg sc sampling_rate tries
                                  (self\<lparr>video_meta := od_set (video_meta self) index m'\<rparr>) j)
                         else
                           retry_loop env cfg sc sampling_rate tries
                             (self\<lparr>video_meta := od_set (video_meta self) index m'\<rparr>) index
                     | (Some frames, m') \<Rightarrow>
                         (finish env cfg (self\<lparr>video_meta := od_set (video_meta self) index m'\<rparr>)
                            sc frames index,
                          self\<lparr>video_meta := od_set (video_meta self) index m'\<rparr>)))))"

text \<open>\<open>Hvu.__getitem__\<close>: the result or the exception, and the object afterwards.\<close>

definition getitem ::
  "('a, 'c, 'f, 'i) env \<Rightarrow> 'a cfg_scheme \<Rightarrow> hvu \<Rightarrow> getitem_arg \<Rightarrow> (error + 'f pyval list) \<times> hvu" where
  "getitem env cfg self arg =
     (let (index, short_cycle_idx) =
            (case arg of Idx i \<Rightarrow> (i, None) | IdxCycle i s \<Rightarrow> (i, Some s))
      in case sample_scales env cfg self index short_cycle_idx of
           Inl e \<Rightarrow> (Inl e, self)
         | Inr sc \<Rightarrow>
             retry_loop env cfg sc (get_random_sampling_rate env cfg)
               [0..<nat (num_retries self)] self index)"

section \<open>Concrete inputs\<close>

text \<open>
  A configuration with four classes, two ensemble views and three spatial crops, and its
  variants; a file system with one split file; libraries whose tensors record the
  operations applied to them.
\<close>

definition cfg0 :: cfg where
  "cfg0 =
     \<lparr>DATA_PATH_TO_DATA_DIR = ''/d'', DATA_PATH_LABEL_SEPARATOR = '' '',
      DATA_PATH_PREFIX = ''/v'',
      DATA_TRAIN_JITTER_SCALES = [256, 320], DATA_TRAIN_CROP_SIZE = 224,
      DATA_TEST_CROP_SIZE = 224,
      DATA_TRAIN_JITTER_SCALES_RELATIVE = [], DATA_TRAIN_JITTER_ASPECT_RELATIVE = [],
      DATA_TRAIN_JITTER_MOTION_SHIFT = False,
      MODEL_NUM_CLASSES = 4, TEST_NUM_ENSEMBLE_VIEWS = 2, TEST_NUM_SPATIAL_CROPS = 3,
      AUG_ENABLE = False, AUG_RE_PROB = 0, AUG_NUM_SAMPLE = 1,
      MULTIGRID_SHORT_CYCLE_FACTORS = [1 / 2, 3 / 4], MULTIGRID_DEFAULT_S = 0\<rparr>"

definition cfg_single :: cfg where
  "cfg_single = cfg0\<lparr>TEST_NUM_ENSEMBLE_VIEWS := 1, TEST_NUM_SPATIAL_CROPS := 1\<rparr>"

definition cfg_multigrid :: cfg where
  "cfg_multigrid = cfg0\<lparr>MULTIGRID_DEFAULT_S := 224\<rparr>"

definition files_of :: "string \<Rightarrow> string list \<Rightarrow> files" where
  "files_of name file_lines = (\<lambda>p. if p = name then Some file_lines else None)"

definition two_videos :: "string list" where
  "two_videos = [''a.mp4 0|2'', ''b.mp4 1'']"

definition one_video :: "string list" where
  "one_video = [''a.mp4 0|2'']"

text \<open>
  \<open>env_from ok\<close>: the container of a path is the path, and it opens at attempt \<open>i\<close>
  if \<open>ok i\<close>; decoding always succeeds; the random index is the lower bound; floating
  point is exact.
\<close>

definition env_from :: "(nat \<Rightarrow> bool) \<Rightarrow> (unit, string, string list, string list) env" where
  "env_from ok =
     \<lparr>fl = (\<lambda>x. x),
      get_random_sampling_rate = (\<lambda>cfg. 8),
      get_video_container = (\<lambda>i cfg path. if ok i then Some path else None),
      decode = (\<lambda>i cfg c rate t s m. (Some [''decoded '' @ c], m)),
      randint = (\<lambda>i a b. a),
      tensor_normalize = (\<lambda>cfg f. f @ [''normalize'']),
      permute = (\<lambda>dims f. f @ [''permute'']),
      spatial_sampling = (\<lambda>k cfg i a b c asp scl ms f. f @ [''spatial_sampling'']),
      create_random_augment = (\<lambda>k cfg f imgs. map (\<lambda>img. img @ [''augment'']) imgs),
      random_erasing = (\<lambda>k cfg f. f @ [''erase'']),
      unbind = (\<lambda>f. [f]),
      stack = concat,
      to_pil_image = (\<lambda>f. f),
      to_tensor = (\<lambda>img. img),
      pack_pathway_output = (\<lambda>cfg f. [f])\<rparr>"

text \<open>The object that the constructor builds from \<open>two_videos\<close> in mode test, one clip per video.\<close>

definition hvu_two :: hvu where
  "hvu_two =
     \<lparr>mode = ''test'', video_meta = [(0, []), (1, [])], num_retries = 10, num_clips = 1,
      path_to_videos = [''/v/a.mp4'', ''/v/b.mp4''],
      labels = [[1, 0, 1, 0], [0, 1, 0, 0]], spatial_temporal_idx = [0, 0],
      aug = False, rand_erase = False\<rparr>"

text \<open>
  The object that the constructor builds from \<open>two_videos\<close> in mode test under
  \<open>cfg0\<close>: two ensemble views times three spatial crops, six clips per video.
\<close>

definition hvu_grid :: hvu where
  "hvu_grid =
     \<lparr>mode = ''test'', video_meta = map (\<lambda>k. (int k, [])) [0..<12], num_retries = 10,
      num_clips = 6,
      path_to_videos = replicate 6 ''/v/a.mp4'' @ replicate 6 ''/v/b.mp4'',
      labels = replicate 6 [1, 0, 1, 0] @ replicate 6 [0, 1, 0, 0],
      spatial_temporal_idx = map int ([0..<6] @ [0..<6]),
      aug = False, rand_erase = False\<rparr>"

definition files_test :: files where
  "files_test = files_of ''/d/test.csv'' two_videos"

text \<open>The object that the constructor builds from \<open>two_videos\<close> in mode train.\<close>

definition hvu_train :: hvu where
  "hvu_train =
     \<lparr>mode = ''train'', video_meta = [(0, []), (1, [])], num_retries = 10, num_clips = 1,
      path_to_videos = [''/v/a.mp4'', ''/v/b.mp4''],
      labels = [[1, 0, 1, 0], [0, 1, 0, 0]], spatial_temporal_idx = [0, 0],
      aug = False, rand_erase = False\<rparr>"

definition files_train :: files where
  "files_train = files_of ''/d/train.csv'' two_videos"

text \<open>Libraries that open every container, and the parameters of sample 8 of \<open>hvu_grid\<close>.\<close>

definition env_ok :: "(unit, string, string list, string list) env" where
  "env_ok = env_from (\<lambda>i. True)"

definition scales8 :: scales where
  "scales8 =
     \<lparr>temporal_sample_index = 0, spatial_sample_index = 2,
      min_scale = 224, max_scale = 224, crop_size = 224\<rparr>"

text \<open>
  A configuration with augmentation, relative jitter, motion shift, random erasing and
  two samples per clip, and the object that the constructor builds from \<open>two_videos\<close>
  in mode train under it; the object built from
  \<open>one_video\<close> in mode test, one clip per video; libraries that open no container,
  and libraries that open one from the eighth attempt on.
\<close>

definition cfg_aug :: cfg where
  "cfg_aug =
     cfg_single\<lparr>DATA_TRAIN_JITTER_SCALES_RELATIVE := [2 / 25, 1],
                DATA_TRAIN_JITTER_ASPECT_RELATIVE := [3 / 4, 4 / 3],
                DATA_TRAIN_JITTER_MOTION_SHIFT := True,
                AUG_ENABLE := True, AUG_RE_PROB := 1 / 4, AUG_NUM_SAMPLE := 2\<rparr>"

definition hvu_aug :: hvu where
  "hvu_aug = hvu_train\<lparr>aug := True, rand_erase := True\<rparr>"

definition hvu_one :: hvu where
  "hvu_one =
     \<lparr>mode = ''test'', video_meta = [(0, [])], num_retries = 10, num_clips = 1,
      path_to_videos = [''/v/a.mp4''], labels = [[1, 0, 1, 0]], spatial_temporal_idx = [0],
      aug = False, rand_erase = False\<rparr>"

definition env_never :: "(unit, string, string list, string list) env" where
  "env_never = env_from (\<lambda>i. False)"

definition env_late :: "(unit, string, string list, string list) env" where
  "env_late = env_from (\<lambda>i. 7 \<le> i)"

definition scales_single :: scales where
  "scales_single =
     \<lparr>temporal_sample_index = 0, spatial_sample_index = 1,
      min_scale = 224, max_scale = 224, crop_size = 224\<rparr>"

definition scales_train :: scales where
  "scales_train =
     \<lparr>temporal_sample_index = - 1, spatial_sample_index = - 1,
      min_scale = 256, max_scale = 320, crop_size = 224\<rparr>"

text \<open>
  Libraries whose tensors record every operation with its arguments. They open a
  container from the third attempt on, and their decoder caches the frame rate in the
  metadata dict of the sample. With them: the objects \<open>hvu_grid\<close> and \<open>hvu_aug\<close> after
  one call for sample 8 and for sample 1.
\<close>

datatype trace =
    Decoded string
  | Permuted "nat list"
  | Normalized
  | Sampled nat int int int int "real list option" "real list option" bool
  | Augmented nat
  | Erased nat
  | AsImage
  | AsTensor

definition env_trace :: "(unit, string, trace list, trace list) env" where
  "env_trace =
     \<lparr>fl = (\<lambda>x. x),
      get_random_sampling_rate = (\<lambda>cfg. 8),
      get_video_container = (\<lambda>i cfg path. if 2 \<le> i then Some path else None),
      decode = (\<lambda>i cfg c rate t s m. (Some [Decoded c], od_set m ''fps'' 30)),
      randint = (\<lambda>i a b. a),
      tensor_normalize = (\<lambda>cfg f. f @ [Normalized]),
      permute = (\<lambda>dims f. f @ [Permuted dims]),
      spatial_sampling = (\<lambda>k cfg i a b c asp scl ms f. f @ [Sampled k i a b c asp scl ms]),
      create_random_augment = (\<lambda>k cfg f imgs. map (\<lambda>img. img @ [Augmented k]) imgs),
      random_erasing = (\<lambda>k cfg f. f @ [Erased k]),
      unbind = (\<lambda>f. [f]),
      stack = concat,
      to_pil_image = (\<lambda>f. f @ [AsImage]),
      to_tensor = (\<lambda>img. img @ [AsTensor]),
      pack_pathway_output = (\<lambda>cfg f. [f])\<rparr>"

definition hvu_grid_used :: hvu where
  "hvu_grid_used = hvu_grid\<lparr>video_meta := od_set (video_meta hvu_grid) 8 [(''fps'', 30)]\<rparr>"

definition hvu_aug_used :: hvu where
  "hvu_aug_used = hvu_aug\<lparr>video_meta := od_set (video_meta hvu_aug) 1 [(''fps'', 30)]\<rparr>"

text \<open>The frames that \<open>env_trace\<close> records for sample number \<open>k\<close> of an augmenting object.\<close>

definition aug_trace :: "nat \<Rightarrow> trace list" where
  "aug_trace k =
     [Decoded ''/v/b.mp4'', Permuted [0, 3, 1, 2], AsImage, Augmented k, AsTensor,
      Permuted [0, 2, 3, 1], Normalized, Permuted [3, 0, 1, 2],
      Sampled k (- 1) 256 320 224 (Some [3 / 4, 4 / 3]) (Some [2 / 25, 1]) True,
      Permuted [1, 0, 2, 3], Erased k, Permuted [1, 0, 2, 3]]"

section \<open>What the loops compute, stated on lists\<close>

text \<open>
  The lines of a file parsed in order, up to the first one that raises. The loader's
  loop over the lines is compared with it below.
\<close>

fun parse_all :: "'a cfg_scheme \<Rightarrow> string list \<Rightarrow> error + (string \<times> int list \<times> real list) list" where
  "parse_all cfg [] = Inr []"
| "parse_all cfg (l # ls) =
     (case parse_line cfg l of
        Inl e \<Rightarrow> Inl e
      | Inr r \<Rightarrow> (case parse_all cfg ls of Inl e \<Rightarrow> Inl e | Inr rs \<Rightarrow> Inr (r # rs)))"

text \<open>The path of the split file that the constructor opens.\<close>

definition split_file :: "'a cfg_scheme \<Rightarrow> string \<Rightarrow> string" where
  "split_file cfg md = path_join (DATA_PATH_TO_DATA_DIR cfg) (md @ ''.csv'')"

text \<open>
  The configuration that the constructor leaves behind, and the number of clips per
  video that it computes, for a supported mode (lines 42 to 47).
\<close>

definition init_cfg :: "'a cfg_scheme \<Rightarrow> string \<Rightarrow> 'a cfg_scheme" where
  "init_cfg cfg md =
     (if md \<in> set [''train'', ''val'']
      then cfg\<lparr>TEST_NUM_ENSEMBLE_VIEWS := 1, TEST_NUM_SPATIAL_CROPS := 1\<rparr> else cfg)"

definition init_clips :: "'a cfg_scheme \<Rightarrow> string \<Rightarrow> int" where
  "init_clips cfg md =
     (if md \<in> set [''train'', ''val''] then 1
      else TEST_NUM_ENSEMBLE_VIEWS cfg * TEST_NUM_SPATIAL_CROPS cfg)"

definition init_self :: "'a cfg_scheme \<Rightarrow> string \<Rightarrow> int \<Rightarrow> hvu" where
  "init_self cfg md retries =
     \<lparr>mode = md, video_meta = [], num_retries = retries, num_clips = init_clips cfg md,
      path_to_videos = [], labels = [], spatial_temporal_idx = [],
      aug = False, rand_erase = False\<rparr>"

text \<open>
  What \<open>__getitem__\<close> may change of an object: the metadata dicts that the decoder
  writes to, and nothing else; the keys of \<open>_video_meta\<close> stay.
\<close>

definition same_dataset :: "hvu \<Rightarrow> hvu \<Rightarrow> bool" where
  "same_dataset self self' =
     (mode self' = mode self \<and> num_retries self' = num_retries self \<and>
      num_clips self' = num_clips self \<and> path_to_videos self' = path_to_videos self \<and>
      labels self' = labels self \<and> spatial_temporal_idx self' = spatial_temporal_idx self \<and>
      aug self' = aug self \<and> rand_erase self' = rand_erase self \<and>
      map fst (video_meta self') = map fst (video_meta self))"

text \<open>A sequence of calls of \<open>__getitem__\<close> on an object, each with the configuration of its time.\<close>

fun getitems ::
  "('a, 'c, 'f, 'i) env \<Rightarrow> ('a cfg_scheme \<times> getitem_arg) list \<Rightarrow> hvu \<Rightarrow> hvu" where
  "getitems env [] self = self"
| "getitems env ((cfg, arg) # calls) self = getitems env calls (snd (getitem env cfg self arg))"

text \<open>
  What \<open>__getitem__\<close> returns for frames \<open>frames\<close> decoded for the sample \<open>index\<close>
  whose label vector is \<open>lbls\<close>: the frames of sample number \<open>k\<close> after augmentation
  or normalisation and spatial sampling, and the tuple built from them.
\<close>

definition processed ::
  "('a, 'c, 'f, 'i) env \<Rightarrow> 'a cfg_scheme \<Rightarrow> hvu \<Rightarrow> scales \<Rightarrow> nat \<Rightarrow> 'f \<Rightarrow> 'f" where
  "processed env cfg self sc k frames =
     (if aug self then
        aug_frame env cfg self k frames (spatial_sample_index sc)
          (min_scale sc) (max_scale sc) (crop_size sc)
      else
        spatial_sampling env 0 cfg (spatial_sample_index sc)
          (min_scale sc) (max_scale sc) (crop_size sc) None None False
          (permute env [3, 0, 1, 2] (tensor_normalize env cfg frames)))"

definition returned ::
  "('a, 'c, 'f, 'i) env \<Rightarrow> 'a cfg_scheme \<Rightarrow> hvu \<Rightarrow> scales \<Rightarrow> 'f \<Rightarrow> int \<Rightarrow> real list \<Rightarrow> 'f pyval list" where
  "returned env cfg self sc frames index lbls =
     (if aug self \<and> AUG_NUM_SAMPLE cfg > 1 then
        [PyList (map (\<lambda>k. PyTensors (pack_pathway_output env cfg (processed env cfg self sc k frames)))
                   [0..<nat (AUG_NUM_SAMPLE cfg)]),
         PyList (replicate (nat (AUG_NUM_SAMPLE cfg)) (PyLabels lbls)),
         PyList (replicate (nat (AUG_NUM_SAMPLE cfg)) (PyInt index)),
         PyEmptyDict]
      else
        [PyTensors (pack_pathway_output env cfg (processed env cfg self sc 0 frames)),
         PyLabels lbls, PyInt index, PyEmptyDict])"

text \<open>\<open>random.randint(a, b)\<close> returns an integer between its bounds.\<close>

definition randint_ok :: "('a, 'c, 'f, 'i) env \<Rightarrow> bool" where
  "randint_ok env = (\<forall>i a b. a \<le> b \<longrightarrow> a \<le> randint env i a b \<and> randint env i a b \<le> b)"

text \<open>The two parts of the argument of \<open>__getitem__\<close>, as lines 99 to 101 take it apart.\<close>

definition arg_index :: "getitem_arg \<Rightarrow> int" where
  "arg_index arg = (case arg of Idx i \<Rightarrow> i | IdxCycle i s \<Rightarrow> i)"

definition arg_cycle :: "getitem_arg \<Rightarrow> int option" where
  "arg_cycle arg = (case arg of Idx i \<Rightarrow> None | IdxCycle i s \<Rightarrow> Some s)"

section \<open>Properties of the extraction script\<close>

lemma od_set_keys: "fst ` set (od_set d k v) = insert k (fst ` set d)"
  by (induction d k v rule: od_set.induct) auto

lemma od_set_values: "snd ` set (od_set d k v) \<subseteq> insert v (snd ` set d)"
  by (induction d k v rule: od_set.induct) auto

lemma od_set_distinct: "distinct (map fst d) \<Longrightarrow> distinct (map fst (od_set d k v))"
proof (induction d)
  case Nil
  then show ?case by simp
next
  case (Cons a d)
  obtain k' v' where a: "a = (k', v')" by (cases a)
  have "k' \<notin> fst ` set d" using Cons.prems a by simp
  then have "k' \<noteq> k \<Longrightarrow> k' \<notin> fst ` set (od_set d k v)"
    by (simp add: od_set_keys)
  then show ?case using Cons a by auto
qed

lemma od_set_lookup: "map_of (od_set d k v) = (map_of d)(k \<mapsto> v)"
  by (induction d k v rule: od_set.induct) (auto simp: fun_eq_iff)

lemma extract_item_keys:
  "fst ` set (extract_item d (k, v)) = (if kept k then insert (drop 7 k) (fst ` set d) else fst ` set d)"
  by (simp add: extract_item_def kept_def od_set_keys)

lemma extract_loop_keys:
  "fst ` set (extract_loop d items) = fst ` set d \<union> drop 7 ` {k \<in> fst ` set items. kept k}"
proof (induction items arbitrary: d)
  case Nil
  then show ?case by simp
next
  case (Cons kv items)
  obtain k v where kv: "kv = (k, v)" by (cases kv)
  show ?case
    unfolding kv extract_loop.simps Cons.IH extract_item_keys by auto
qed

lemma extract_loop_values:
  "snd ` set (extract_loop d items) \<subseteq> snd ` set d \<union> snd ` set items"
proof (induction items arbitrary: d)
  case Nil
  then show ?case by simp
next
  case (Cons kv items)
  obtain k v where kv: "kv = (k, v)" by (cases kv)
  have step: "snd ` set (extract_item d (k, v)) \<subseteq> insert v (snd ` set d)"
    using od_set_values [of d "drop 7 k" v] by (auto simp: extract_item_def)
  have "snd ` set (extract_loop (extract_item d (k, v)) items)
          \<subseteq> snd ` set (extract_item d (k, v)) \<union> snd ` set items"
    by (rule Cons.IH)
  also have "\<dots> \<subseteq> snd ` set d \<union> snd ` set ((k, v) # items)"
    using step by auto
  finally show ?case by (simp add: kv)
qed

lemma extract_loop_distinct:
  "distinct (map fst d) \<Longrightarrow> distinct (map fst (extract_loop d items))"
proof (induction items arbitrary: d)
  case Nil
  then show ?case by simp
next
  case (Cons kv items)
  have "distinct (map fst (extract_item d kv))"
    using Cons.prems by (cases kv) (simp add: extract_item_def od_set_distinct)
  then show ?case using Cons.IH by simp
qed

text \<open>A key that no later kept item writes again keeps the value it has.\<close>

lemma extract_loop_untouched:
  "\<forall>k' \<in> fst ` set items. kept k' \<longrightarrow> drop 7 k' \<noteq> key \<Longrightarrow>
   map_of (extract_loop d items) key = map_of d key"
proof (induction items arbitrary: d)
  case Nil
  then show ?case by simp
next
  case (Cons kv items)
  obtain k v where kv: "kv = (k, v)" by (cases kv)
  have "map_of (extract_item d (k, v)) key = map_of d key"
    using Cons.prems kv by (auto simp: extract_item_def kept_def od_set_lookup)
  then show ?case using Cons kv by simp
qed

lemma extract_loop_lookup:
  assumes "distinct (map fst items)"
    and "inj_on (drop 7) {k \<in> fst ` set items. kept k}"
    and "(k, v) \<in> set items" and "kept k"
  shows "map_of (extract_loop d items) (drop 7 k) = Some v"
  using assms
proof (induction items arbitrary: d)
  case Nil
  then show ?case by simp
next
  case (Cons kv items)
  obtain k0 v0 where kv: "kv = (k0, v0)" by (cases kv)
  have inj': "inj_on (drop 7) {k \<in> fst ` set items. kept k}"
    by (rule inj_on_subset [OF Cons.prems(2)]) auto
  show ?case
  proof (cases "(k, v) = kv")
    case True
    then have eq: "k0 = k" "v0 = v" using kv by simp_all
    have "\<forall>k' \<in> fst ` set items. kept k' \<longrightarrow> drop 7 k' \<noteq> drop 7 k"
    proof (intro ballI impI)
      fix k' assume k': "k' \<in> fst ` set items" "kept k'"
      then have "k' \<noteq> k" using Cons.prems(1) kv eq by auto
      moreover have "k' \<in> {k \<in> fst ` set (kv # items). kept k}" using k' by auto
      moreover have "k \<in> {k \<in> fst ` set (kv # items). kept k}"
        using Cons.prems(4) kv eq by auto
      ultimately show "drop 7 k' \<noteq> drop 7 k"
        using Cons.prems(2) by (meson inj_onD)
    qed
    then have "map_of (extract_loop (extract_item d kv) items) (drop 7 k)
                 = map_of (extract_item d kv) (drop 7 k)"
      by (rule extract_loop_untouched)
    also have "\<dots> = Some v"
      using Cons.prems(4) by (simp add: kv eq extract_item_def kept_def od_set_lookup)
    finally show ?thesis by simp
  next
    case False
    then have "(k, v) \<in> set items" using Cons.prems(3) by simp
    then show ?thesis
      using Cons.IH [OF _ inj' _ Cons.prems(4)] Cons.prems(1) by simp
  qed
qed

text \<open>
  C2. The script writes exactly three files, one for each of the three models it loads,
  and the state dict saved for a model is a filter-and-rename of the model's state
  dict: it is again a dict (distinct keys), its keys are exactly the tails \<open>k[7:]\<close> of
  the kept keys \<open>k\<close>, its values are values of the model's state dict, and, when the
  kept keys have distinct tails (as they do when every key containing \<open>visual.\<close> starts
  with it), \<open>k[7:]\<close> is mapped to the value of \<open>k\<close>.
\<close>

theorem extract_script_filter_rename:
  "extract_script load =
     [(''vit_b16.pth'', extract_visual (load ''ViT-B/16'')),
      (''vit_l14.pth'', extract_visual (load ''ViT-L/14'')),
      (''vit_l14_336.pth'', extract_visual (load ''ViT-L/14@336px''))] \<and>
   (\<forall>name.
      distinct (map fst (extract_visual (load name))) \<and>
      fst ` set (extract_visual (load name)) =
        {drop 7 k | k. k \<in> fst ` set (load name) \<and> py_contains ''visual.'' k
                       \<and> drop 7 k \<notin> set [''proj'', ''ln_post.weight'', ''ln_post.bias'']} \<and>
      snd ` set (extract_visual (load name)) \<subseteq> snd ` set (load name) \<and>
      (distinct (map fst (load name)) \<and> inj_on (drop 7) {k \<in> fst ` set (load name). kept k} \<longrightarrow>
         (\<forall>(k, v) \<in> set (load name). kept k \<longrightarrow>
            map_of (extract_visual (load name)) (drop 7 k) = Some v)))"
proof -
  have s: "extract_script load =
     [(''vit_b16.pth'', extract_visual (load ''ViT-B/16'')),
      (''vit_l14.pth'', extract_visual (load ''ViT-L/14'')),
      (''vit_l14_336.pth'', extract_visual (load ''ViT-L/14@336px''))]"
    by (simp add: extract_script_def clip_models_def)
  have p: "distinct (map fst (extract_visual (load name))) \<and>
      fst ` set (extract_visual (load name)) =
        {drop 7 k | k. k \<in> fst ` set (load name) \<and> py_contains ''visual.'' k
                       \<and> drop 7 k \<notin> set [''proj'', ''ln_post.weight'', ''ln_post.bias'']} \<and>
      snd ` set (extract_visual (load name)) \<subseteq> snd ` set (load name) \<and>
      (distinct (map fst (load name)) \<and> inj_on (drop 7) {k \<in> fst ` set (load name). kept k} \<longrightarrow>
         (\<forall>(k, v) \<in> set (load name). kept k \<longrightarrow>
            map_of (extract_visual (load name)) (drop 7 k) = Some v))" for name
  proof -
    let ?saved = "extract_visual (load name)"
    have d: "distinct (map fst ?saved)"
      unfolding extract_visual_def by (rule extract_loop_distinct) simp
    have k: "fst ` set ?saved = {drop 7 k | k. k \<in> fst ` set (load name) \<and> py_contains ''visual.'' k
                           \<and> drop 7 k \<notin> set [''proj'', ''ln_post.weight'', ''ln_post.bias'']}"
      unfolding extract_visual_def extract_loop_keys
      by (auto simp: kept_def dropped_keys_def)
    have v: "snd ` set ?saved \<subseteq> snd ` set (load name)"
      unfolding extract_visual_def using extract_loop_values [of "[]" "load name"] by simp
    have l: "distinct (map fst (load name)) \<and> inj_on (drop 7) {k \<in> fst ` set (load name). kept k} \<longrightarrow>
        (\<forall>(k, v) \<in> set (load name). kept k \<longrightarrow> map_of ?saved (drop 7 k) = Some v)"
      unfolding extract_visual_def by (auto intro: extract_loop_lookup)
    from d k v l show ?thesis by (intro conjI)
  qed
  show ?thesis by (rule conjI [OF s allI [OF p]])
qed

theorem extract_script_filter_rename_witness:
  "extract_script example_load =
     [(''vit_b16.pth'', [(''conv1.weight'', 3), (''ln_pre.weight'', 6)]),
      (''vit_l14.pth'', [(''conv1.weight'', 3), (''ln_pre.weight'', 6)]),
      (''vit_l14_336.pth'', [(''conv1.weight'', 3), (''ln_pre.weight'', 6)])] \<and>
   distinct (map fst (example_load ''ViT-L/14'')) \<and>
   inj_on (drop 7) {k \<in> fst ` set (example_load ''ViT-L/14''). kept k} \<and>
   (''visual.conv1.weight'', 3) \<in> set (example_load ''ViT-L/14'') \<and> kept ''visual.conv1.weight'' \<and>
   map_of (extract_visual (example_load ''ViT-L/14'')) (drop 7 ''visual.conv1.weight'') = Some 3"
proof -
  note t = extract_script_filter_rename [of example_load]
  have e: "extract_visual (example_load name) = [(''conv1.weight'', 3), (''ln_pre.weight'', 6)]"
    for name
    by (simp add: extract_visual_def example_load_def extract_item_def dropped_keys_def)
  have s: "extract_script example_load =
     [(''vit_b16.pth'', [(''conv1.weight'', 3), (''ln_pre.weight'', 6)]),
      (''vit_l14.pth'', [(''conv1.weight'', 3), (''ln_pre.weight'', 6)]),
      (''vit_l14_336.pth'', [(''conv1.weight'', 3), (''ln_pre.weight'', 6)])]"
    using t [THEN conjunct1] unfolding e .
  have d: "distinct (map fst (example_load ''ViT-L/14''))"
    by code_simp
  have i: "inj_on (drop 7) {k \<in> fst ` set (example_load ''ViT-L/14''). kept k}"
    by code_simp
  have m: "(''visual.conv1.weight'', 3) \<in> set (example_load ''ViT-L/14'')" "kept ''visual.conv1.weight''"
    by code_simp+
  have l: "distinct (map fst (example_load ''ViT-L/14'')) \<and>
      inj_on (drop 7) {k \<in> fst ` set (example_load ''ViT-L/14''). kept k} \<longrightarrow>
        (\<forall>(k, v) \<in> set (example_load ''ViT-L/14''). kept k \<longrightarrow>
           map_of (extract_visual (example_load ''ViT-L/14'')) (drop 7 k) = Some v)"
    using t [THEN conjunct2, THEN spec, of "''ViT-L/14''"] by (elim conjE)
  have di: "distinct (map fst (example_load ''ViT-L/14'')) \<and>
      inj_on (drop 7) {k \<in> fst ` set (example_load ''ViT-L/14''). kept k}"
    using d i by (intro conjI)
  have a: "\<forall>(k, v) \<in> set (example_load ''ViT-L/14''). kept k \<longrightarrow>
           map_of (extract_visual (example_load ''ViT-L/14'')) (drop 7 k) = Some v"
    using l di by (rule mp)
  have r: "map_of (extract_visual (example_load ''ViT-L/14'')) (drop 7 ''visual.conv1.weight'') = Some 3"
    using bspec [OF a m(1)] m(2) by simp
  show ?thesis using s d i m r by (intro conjI)
qed

section \<open>Construction: the lists that the loops build\<close>

lemma clip_loop_fixed:
  "mode (clip_loop cfg p oh ci ks self) = mode self \<and>
   num_retries (clip_loop cfg p oh ci ks self) = num_retries self \<and>
   num_clips (clip_loop cfg p oh ci ks self) = num_clips self \<and>
   aug (clip_loop cfg p oh ci ks self) = aug self \<and>
   rand_erase (clip_loop cfg p oh ci ks self) = rand_erase self"
  by (induction ks arbitrary: self) simp_all

lemma clip_loop_paths:
  "path_to_videos (clip_loop cfg p oh ci ks self) =
     path_to_videos self @ replicate (length ks) (path_join (DATA_PATH_PREFIX cfg) p)"
  by (induction ks arbitrary: self) (simp_all add: replicate_app_Cons_same)

lemma clip_loop_labels:
  "labels (clip_loop cfg p oh ci ks self) = labels self @ replicate (length ks) oh"
  by (induction ks arbitrary: self) (simp_all add: replicate_app_Cons_same)

lemma clip_loop_sti:
  "spatial_temporal_idx (clip_loop cfg p oh ci ks self) = spatial_temporal_idx self @ map int ks"
  by (induction ks arbitrary: self) simp_all

lemma clip_loop_meta_keys:
  "fst ` set (video_meta (clip_loop cfg p oh ci ks self)) =
     fst ` set (video_meta self) \<union> (\<lambda>k. int ci * num_clips self + int k) ` set ks"
proof (induction ks arbitrary: self)
  case Nil
  then show ?case by simp
next
  case (Cons k ks)
  show ?case
    unfolding clip_loop.simps Cons.IH by (simp add: od_set_keys)
qed

lemma line_loop_error:
  "parse_all cfg (map snd els) = Inl e \<Longrightarrow> line_loop cfg els self = Inl e"
proof (induction els arbitrary: self)
  case Nil
  then show ?case by simp
next
  case (Cons el els)
  obtain ci l where el: "el = (ci, l)" by (cases el)
  show ?case
  proof (cases "parse_line cfg l")
    case (Inl e')
    then show ?thesis using Cons.prems el by simp
  next
    case (Inr r)
    then have "parse_all cfg (map snd els) = Inl e"
      using Cons.prems el by (simp split: sum.splits)
    then show ?thesis using Cons.IH Inr el by (simp split: prod.splits)
  qed
qed

lemma line_loop_ok:
  assumes "parse_all cfg (map snd els) = Inr rs"
  shows "\<exists>self'. line_loop cfg els self = Inr self' \<and>
     path_to_videos self' = path_to_videos self @
        concat (map (\<lambda>r. replicate (nat (num_clips self)) (path_join (DATA_PATH_PREFIX cfg) (fst r))) rs) \<and>
     labels self' = labels self @
        concat (map (\<lambda>r. replicate (nat (num_clips self)) (snd (snd r))) rs) \<and>
     spatial_temporal_idx self' = spatial_temporal_idx self @
        concat (map (\<lambda>r. map int [0..<nat (num_clips self)]) rs) \<and>
     mode self' = mode self \<and> num_retries self' = num_retries self \<and>
     num_clips self' = num_clips self \<and> aug self' = aug self \<and> rand_erase self' = rand_erase self"
  using assms
proof (induction els arbitrary: self rs)
  case Nil
  then show ?case by simp
next
  case (Cons el els)
  obtain ci l where el: "el = (ci, l)" by (cases el)
  from Cons.prems el obtain r rs' where r: "parse_line cfg l = Inr r"
    and rs': "parse_all cfg (map snd els) = Inr rs'" and rs: "rs = r # rs'"
    by (auto split: sum.splits)
  obtain p ls oh where rr: "r = (p, ls, oh)" by (cases r)
  let ?s = "clip_loop cfg p oh ci [0..<nat (num_clips self)] self"
  from Cons.IH [OF rs', of ?s] obtain self' where
    a: "line_loop cfg els ?s = Inr self'"
    and b: "path_to_videos self' = path_to_videos ?s @
        concat (map (\<lambda>r. replicate (nat (num_clips ?s)) (path_join (DATA_PATH_PREFIX cfg) (fst r))) rs')"
    and c: "labels self' = labels ?s @
        concat (map (\<lambda>r. replicate (nat (num_clips ?s)) (snd (snd r))) rs')"
    and d: "spatial_temporal_idx self' = spatial_temporal_idx ?s @
        concat (map (\<lambda>r. map int [0..<nat (num_clips ?s)]) rs')"
    and f: "mode self' = mode ?s" "num_retries self' = num_retries ?s"
       "num_clips self' = num_clips ?s" "aug self' = aug ?s" "rand_erase self' = rand_erase ?s"
    by blast
  have "line_loop cfg (el # els) self = Inr self'"
    using a r by (simp add: el rr)
  moreover have "path_to_videos self' = path_to_videos self @
        concat (map (\<lambda>r. replicate (nat (num_clips self)) (path_join (DATA_PATH_PREFIX cfg) (fst r))) rs)"
    using b by (simp add: rs rr clip_loop_paths clip_loop_fixed)
  moreover have "labels self' = labels self @
        concat (map (\<lambda>r. replicate (nat (num_clips self)) (snd (snd r))) rs)"
    using c by (simp add: rs rr clip_loop_labels clip_loop_fixed)
  moreover have "spatial_temporal_idx self' = spatial_temporal_idx self @
        concat (map (\<lambda>r. map int [0..<nat (num_clips self)]) rs)"
    using d by (simp add: rs rr clip_loop_sti clip_loop_fixed)
  ultimately show ?case using f by (simp add: clip_loop_fixed)
qed

lemma clip_keys_range:
  assumes "0 \<le> (n::int)"
  shows "(\<lambda>k. int ci * n + int k) ` set [0..<nat n] = {int ci * n ..< (int ci + 1) * n}"
proof (intro set_eqI iffI)
  fix x assume "x \<in> (\<lambda>k. int ci * n + int k) ` set [0..<nat n]"
  then obtain k where "k < nat n" "x = int ci * n + int k" by auto
  then show "x \<in> {int ci * n ..< (int ci + 1) * n}"
    using assms by (simp add: algebra_simps)
next
  fix x assume x: "x \<in> {int ci * n ..< (int ci + 1) * n}"
  then have "nat (x - int ci * n) < nat n" "x = int ci * n + int (nat (x - int ci * n))"
    by (simp_all add: algebra_simps)
  then show "x \<in> (\<lambda>k. int ci * n + int k) ` set [0..<nat n]"
    by (metis atLeast0LessThan imageI lessThan_iff set_upt)
qed

lemma line_loop_meta_keys:
  assumes "line_loop cfg (enumerate c ls) self = Inr self'" and "0 \<le> num_clips self"
  shows "fst ` set (video_meta self') =
     fst ` set (video_meta self) \<union> {int c * num_clips self ..< (int c + int (length ls)) * num_clips self}"
  using assms
proof (induction ls arbitrary: c self)
  case Nil
  then show ?case by simp
next
  case (Cons l ls)
  from Cons.prems(1) obtain p lbls oh where r: "parse_line cfg l = Inr (p, lbls, oh)"
    by (auto split: sum.splits)
  let ?s = "clip_loop cfg p oh c [0..<nat (num_clips self)] self"
  have a: "line_loop cfg (enumerate (Suc c) ls) ?s = Inr self'"
    using Cons.prems(1) r by simp
  have n: "num_clips ?s = num_clips self" by (simp add: clip_loop_fixed)
  have "fst ` set (video_meta self') =
     fst ` set (video_meta ?s) \<union> {int (Suc c) * num_clips self ..< (int (Suc c) + int (length ls)) * num_clips self}"
    using Cons.IH [OF a] Cons.prems(2) n by simp
  also have "fst ` set (video_meta ?s) =
     fst ` set (video_meta self) \<union> {int c * num_clips self ..< (int c + 1) * num_clips self}"
    unfolding clip_loop_meta_keys clip_keys_range [OF Cons.prems(2)] by simp
  also have "fst ` set (video_meta self) \<union> {int c * num_clips self ..< (int c + 1) * num_clips self}
      \<union> {int (Suc c) * num_clips self ..< (int (Suc c) + int (length ls)) * num_clips self}
     = fst ` set (video_meta self) \<union> {int c * num_clips self ..< (int c + int (length (l # ls))) * num_clips self}"
  proof -
    have "{int c * num_clips self ..< (int c + 1) * num_clips self}
      \<union> {int (Suc c) * num_clips self ..< (int (Suc c) + int (length ls)) * num_clips self}
      = {int c * num_clips self ..< (int c + int (length (l # ls))) * num_clips self}"
    proof -
      have le1: "int c * num_clips self \<le> (int c + 1) * num_clips self"
        using Cons.prems(2) by (simp add: algebra_simps)
      have le2: "(int c + 1) * num_clips self \<le> (int c + 1 + int (length ls)) * num_clips self"
        using Cons.prems(2) by (simp add: algebra_simps)
      have "{int c * num_clips self ..< (int c + 1) * num_clips self}
          \<union> {(int c + 1) * num_clips self ..< (int c + 1 + int (length ls)) * num_clips self}
          = {int c * num_clips self ..< (int c + 1 + int (length ls)) * num_clips self}"
        using le1 le2 by (rule ivl_disj_un_two(3))
      then show ?thesis by (simp add: add.commute add.left_commute)
    qed
    then show ?thesis by (simp add: Un_assoc)
  qed
  finally show ?case .
qed

lemma parse_all_length: "parse_all cfg ls = Inr rs \<Longrightarrow> length rs = length ls"
  by (induction ls arbitrary: rs) (auto split: sum.splits)

lemma parse_all_nth:
  "parse_all cfg ls = Inr rs \<Longrightarrow> j < length ls \<Longrightarrow> parse_line cfg (ls ! j) = Inr (rs ! j)"
proof (induction ls arbitrary: rs j)
  case Nil
  then show ?case by simp
next
  case (Cons l ls)
  then show ?case by (cases j) (auto split: sum.splits)
qed

lemma parse_line_views:
  "parse_line (cfg\<lparr>TEST_NUM_ENSEMBLE_VIEWS := a, TEST_NUM_SPATIAL_CROPS := b\<rparr>) l = parse_line cfg l"
  by (simp add: parse_line_def split: sum.splits list.splits)

lemma parse_all_views:
  "parse_all (cfg\<lparr>TEST_NUM_ENSEMBLE_VIEWS := a, TEST_NUM_SPATIAL_CROPS := b\<rparr>) ls = parse_all cfg ls"
  by (induction ls) (simp_all add: parse_line_views split: sum.splits)

lemma split_file_views:
  "split_file (cfg\<lparr>TEST_NUM_ENSEMBLE_VIEWS := a, TEST_NUM_SPATIAL_CROPS := b\<rparr>) md = split_file cfg md"
  by (simp add: split_file_def)

lemma concat_replicate_empty:
  "concat (map (\<lambda>r. replicate n (f r)) rs) = [] \<longleftrightarrow> n = 0 \<or> rs = []"
  by (induction rs) auto

lemma length_concat_replicate:
  "length (concat (map (\<lambda>r. replicate n (f r)) rs)) = length rs * n"
  by (induction rs) auto

lemma length_concat_const:
  "length (concat (map (\<lambda>r. xs) rs)) = length rs * length xs"
  by (induction rs) auto

text \<open>What \<open>_construct_loader\<close> returns when it returns.\<close>

lemma construct_loader_Inr:
  assumes "construct_loader fs cfg self = Inr self'" and "video_meta self = []"
  shows "\<exists>ls rs. fs (split_file cfg (mode self)) = Some ls \<and> parse_all cfg ls = Inr rs \<and>
     rs \<noteq> [] \<and> 0 < num_clips self \<and>
     path_to_videos self' =
        concat (map (\<lambda>r. replicate (nat (num_clips self)) (path_join (DATA_PATH_PREFIX cfg) (fst r))) rs) \<and>
     labels self' = concat (map (\<lambda>r. replicate (nat (num_clips self)) (snd (snd r))) rs) \<and>
     spatial_temporal_idx self' = concat (map (\<lambda>r. map int [0..<nat (num_clips self)]) rs) \<and>
     fst ` set (video_meta self') = {0 ..< int (length ls) * num_clips self} \<and>
     mode self' = mode self \<and> num_retries self' = num_retries self \<and>
     num_clips self' = num_clips self \<and> aug self' = aug self \<and> rand_erase self' = rand_erase self"
proof -
  let ?s = "self\<lparr>path_to_videos := [], labels := [], spatial_temporal_idx := []\<rparr>"
  from assms(1) obtain ls where ls: "fs (split_file cfg (mode self)) = Some ls"
    and ll: "line_loop cfg (enumerate 0 ls) ?s = Inr self'"
    and ne: "path_to_videos self' \<noteq> []"
    by (auto simp: construct_loader_def split_file_def Let_def split: option.splits sum.splits if_splits)
  have ms: "map snd (enumerate 0 ls) = ls" by (simp add: map_snd_enumerate)
  obtain rs where rs: "parse_all cfg ls = Inr rs"
  proof (cases "parse_all cfg ls")
    case (Inl e)
    then have "line_loop cfg (enumerate 0 ls) ?s = Inl e"
      using line_loop_error [of cfg "enumerate 0 ls" e ?s] ms by simp
    then show ?thesis using ll by simp
  next
    case (Inr rs)
    then show ?thesis using that by simp
  qed
  from line_loop_ok [of cfg "enumerate 0 ls" rs ?s] rs ms ll
  have p: "path_to_videos self' =
        concat (map (\<lambda>r. replicate (nat (num_clips self)) (path_join (DATA_PATH_PREFIX cfg) (fst r))) rs)"
    and l: "labels self' = concat (map (\<lambda>r. replicate (nat (num_clips self)) (snd (snd r))) rs)"
    and s: "spatial_temporal_idx self' = concat (map (\<lambda>r. map int [0..<nat (num_clips self)]) rs)"
    and f: "mode self' = mode self" "num_retries self' = num_retries self"
       "num_clips self' = num_clips self" "aug self' = aug self" "rand_erase self' = rand_erase self"
    by auto
  from ne p have pos: "rs \<noteq> []" "0 < num_clips self"
    by (auto simp: concat_replicate_empty)
  have "fst ` set (video_meta self') =
     fst ` set (video_meta ?s) \<union> {int 0 * num_clips ?s ..< (int 0 + int (length ls)) * num_clips ?s}"
    by (rule line_loop_meta_keys [OF ll]) (use pos in simp)
  then have k: "fst ` set (video_meta self') = {0 ..< int (length ls) * num_clips self}"
    using assms(2) by simp
  from ls rs pos p l s k f show ?thesis by blast
qed

text \<open>When \<open>_construct_loader\<close> raises, and what.\<close>

lemma construct_loader_missing:
  "fs (split_file cfg (mode self)) = None \<Longrightarrow> construct_loader fs cfg self = Inl AssertionError"
  by (simp add: construct_loader_def split_file_def)

lemma construct_loader_parse_error:
  assumes "fs (split_file cfg (mode self)) = Some ls" and "parse_all cfg ls = Inl e"
  shows "construct_loader fs cfg self = Inl e"
proof -
  have "line_loop cfg (enumerate 0 ls)
          (self\<lparr>path_to_videos := [], labels := [], spatial_temporal_idx := []\<rparr>) = Inl e"
    by (rule line_loop_error) (simp add: map_snd_enumerate assms(2))
  then show ?thesis using assms(1) by (simp add: construct_loader_def split_file_def)
qed

lemma construct_loader_no_entry:
  assumes "fs (split_file cfg (mode self)) = Some ls" and "parse_all cfg ls = Inr rs"
    and "rs = [] \<or> num_clips self \<le> 0"
  shows "construct_loader fs cfg self = Inl AssertionError"
proof -
  let ?s = "self\<lparr>path_to_videos := [], labels := [], spatial_temporal_idx := []\<rparr>"
  have "parse_all cfg (map snd (enumerate 0 ls)) = Inr rs"
    by (simp add: map_snd_enumerate assms(2))
  from line_loop_ok [OF this, of ?s] obtain self' where
    a: "line_loop cfg (enumerate 0 ls) ?s = Inr self'"
    and p: "path_to_videos self' =
        concat (map (\<lambda>r. replicate (nat (num_clips self)) (path_join (DATA_PATH_PREFIX cfg) (fst r))) rs)"
    by auto
  have "path_to_videos self' = []"
    unfolding p concat_replicate_empty using assms(3) by auto
  then show ?thesis using assms(1) a by (simp add: construct_loader_def split_file_def)
qed

lemma construct_loader_entries:
  assumes "fs (split_file cfg (mode self)) = Some ls" and "parse_all cfg ls = Inr rs"
    and "rs \<noteq> []" and "0 < num_clips self"
  shows "\<exists>self'. construct_loader fs cfg self = Inr self'"
proof -
  let ?s = "self\<lparr>path_to_videos := [], labels := [], spatial_temporal_idx := []\<rparr>"
  have "parse_all cfg (map snd (enumerate 0 ls)) = Inr rs"
    by (simp add: map_snd_enumerate assms(2))
  from line_loop_ok [OF this, of ?s] obtain self' where
    a: "line_loop cfg (enumerate 0 ls) ?s = Inr self'"
    and p: "path_to_videos self' =
        concat (map (\<lambda>r. replicate (nat (num_clips self)) (path_join (DATA_PATH_PREFIX cfg) (fst r))) rs)"
    by auto
  have "path_to_videos self' \<noteq> []"
    unfolding p concat_replicate_empty using assms(3,4) by auto
  then show ?thesis using assms(1) a by (simp add: construct_loader_def split_file_def)
qed

section \<open>Construction: the constructor\<close>

lemma Hvu_init_bad_mode:
  "md \<notin> set [''train'', ''val'', ''test''] \<Longrightarrow> Hvu_init fs cfg md n = (cfg, Inl AssertionError)"
  by (simp add: Hvu_init_def)

lemma Hvu_init_unfold:
  assumes "md \<in> set [''train'', ''val'', ''test'']"
  shows "Hvu_init fs cfg md n =
     (init_cfg cfg md,
      case construct_loader fs (init_cfg cfg md) (init_self cfg md n) of
        Inl e \<Rightarrow> Inl e
      | Inr self2 \<Rightarrow>
          Inr (self2\<lparr>aug := (md = ''train'' \<and> AUG_ENABLE cfg),
                     rand_erase := (md = ''train'' \<and> AUG_ENABLE cfg \<and> AUG_RE_PROB cfg > 0)\<rparr>))"
proof -
  consider "md = ''train''" | "md = ''val''" | "md = ''test''" using assms by auto
  then show ?thesis
  proof cases
    case 1
    then show ?thesis
      by (auto simp: Hvu_init_def init_cfg_def init_self_def init_clips_def Let_def split: sum.splits)
  next
    case 2
    then show ?thesis
      by (auto simp: Hvu_init_def init_cfg_def init_self_def init_clips_def Let_def split: sum.splits)
  next
    case 3
    then show ?thesis
      by (auto simp: Hvu_init_def init_cfg_def init_self_def init_clips_def Let_def split: sum.splits)
  qed
qed

lemma init_cfg_reads:
  "parse_all (init_cfg cfg md) ls = parse_all cfg ls"
  "split_file (init_cfg cfg md) md' = split_file cfg md'"
  "DATA_PATH_PREFIX (init_cfg cfg md) = DATA_PATH_PREFIX cfg"
  by (simp_all add: init_cfg_def parse_all_views split_file_views)

text \<open>What the constructor returns when it returns.\<close>

lemma Hvu_init_Inr:
  assumes "Hvu_init fs cfg md n = (cfg', Inr self)"
  obtains ls rs where
    "md \<in> set [''train'', ''val'', ''test'']" and "cfg' = init_cfg cfg md"
    and "fs (split_file cfg md) = Some ls" and "parse_all cfg ls = Inr rs" and "rs \<noteq> []"
    and "length rs = length ls"
    and "mode self = md" and "num_retries self = n" and "num_clips self = init_clips cfg md"
    and "0 < num_clips self"
    and "path_to_videos self =
         concat (map (\<lambda>r. replicate (nat (num_clips self)) (path_join (DATA_PATH_PREFIX cfg) (fst r))) rs)"
    and "labels self = concat (map (\<lambda>r. replicate (nat (num_clips self)) (snd (snd r))) rs)"
    and "spatial_temporal_idx self = concat (map (\<lambda>r. map int [0..<nat (num_clips self)]) rs)"
    and "fst ` set (video_meta self) = {0 ..< int (length ls) * num_clips self}"
    and "aug self = (md = ''train'' \<and> AUG_ENABLE cfg)"
    and "rand_erase self = (md = ''train'' \<and> AUG_ENABLE cfg \<and> AUG_RE_PROB cfg > 0)"
proof -
  have md: "md \<in> set [''train'', ''val'', ''test'']"
    using assms Hvu_init_bad_mode [of md fs cfg n] by auto
  from assms Hvu_init_unfold [OF md, of fs cfg n] obtain self2 where
    c: "cfg' = init_cfg cfg md"
    and l: "construct_loader fs (init_cfg cfg md) (init_self cfg md n) = Inr self2"
    and s: "self = self2\<lparr>aug := (md = ''train'' \<and> AUG_ENABLE cfg),
                     rand_erase := (md = ''train'' \<and> AUG_ENABLE cfg \<and> AUG_RE_PROB cfg > 0)\<rparr>"
    by (auto split: sum.splits)
  have "video_meta (init_self cfg md n) = []" by (simp add: init_self_def)
  from construct_loader_Inr [OF l this] obtain ls rs where
    f: "fs (split_file cfg md) = Some ls" "parse_all cfg ls = Inr rs" "rs \<noteq> []"
      "0 < init_clips cfg md"
      "path_to_videos self2 =
        concat (map (\<lambda>r. replicate (nat (init_clips cfg md)) (path_join (DATA_PATH_PREFIX cfg) (fst r))) rs)"
      "labels self2 = concat (map (\<lambda>r. replicate (nat (init_clips cfg md)) (snd (snd r))) rs)"
      "spatial_temporal_idx self2 = concat (map (\<lambda>r. map int [0..<nat (init_clips cfg md)]) rs)"
      "fst ` set (video_meta self2) = {0 ..< int (length ls) * init_clips cfg md}"
      "mode self2 = md" "num_retries self2 = n" "num_clips self2 = init_clips cfg md"
    by (auto simp: init_cfg_reads init_self_def)
  have len: "length rs = length ls" using f(2) by (rule parse_all_length)
  show ?thesis
    by (rule that [of ls rs]) (use md c f len in \<open>simp_all add: s\<close>)
qed

text \<open>When the constructor raises, and what.\<close>

lemma Hvu_init_missing:
  assumes "md \<in> set [''train'', ''val'', ''test'']" and "fs (split_file cfg md) = None"
  shows "snd (Hvu_init fs cfg md n) = Inl AssertionError"
proof -
  have "construct_loader fs (init_cfg cfg md) (init_self cfg md n) = Inl AssertionError"
    by (rule construct_loader_missing) (simp add: init_cfg_reads init_self_def assms(2))
  then show ?thesis by (simp add: Hvu_init_unfold [OF assms(1)])
qed

lemma Hvu_init_parse_error:
  assumes "md \<in> set [''train'', ''val'', ''test'']" and "fs (split_file cfg md) = Some ls"
    and "parse_all cfg ls = Inl e"
  shows "snd (Hvu_init fs cfg md n) = Inl e"
proof -
  have "construct_loader fs (init_cfg cfg md) (init_self cfg md n) = Inl e"
    by (rule construct_loader_parse_error [where ls = ls])
       (simp_all add: init_cfg_reads init_self_def assms)
  then show ?thesis by (simp add: Hvu_init_unfold [OF assms(1)])
qed

lemma Hvu_init_no_entry:
  assumes "md \<in> set [''train'', ''val'', ''test'']" and "fs (split_file cfg md) = Some ls"
    and "parse_all cfg ls = Inr rs" and "ls = [] \<or> init_clips cfg md \<le> 0"
  shows "snd (Hvu_init fs cfg md n) = Inl AssertionError"
proof -
  have "rs = [] \<or> init_clips cfg md \<le> 0"
    using assms(3,4) parse_all_length [OF assms(3)] by auto
  then have "construct_loader fs (init_cfg cfg md) (init_self cfg md n) = Inl AssertionError"
    by (intro construct_loader_no_entry [where ls = ls and rs = rs])
       (simp_all add: init_cfg_reads init_self_def assms)
  then show ?thesis by (simp add: Hvu_init_unfold [OF assms(1)])
qed

lemma Hvu_init_entries:
  assumes "md \<in> set [''train'', ''val'', ''test'']" and "fs (split_file cfg md) = Some ls"
    and "parse_all cfg ls = Inr rs" and "ls \<noteq> []" and "0 < init_clips cfg md"
  shows "\<exists>self. snd (Hvu_init fs cfg md n) = Inr self"
proof -
  have "rs \<noteq> []" using assms(4) parse_all_length [OF assms(3)] by auto
  then have "\<exists>self'. construct_loader fs (init_cfg cfg md) (init_self cfg md n) = Inr self'"
    by (intro construct_loader_entries [where ls = ls and rs = rs])
       (simp_all add: init_cfg_reads init_self_def assms)
  then show ?thesis by (auto simp: Hvu_init_unfold [OF assms(1)])
qed

lemma map_int_error: "map_int strs = Inl e \<Longrightarrow> e = ValueError"
  by (induction strs arbitrary: e) (auto simp: py_int_def Let_def split: sum.splits option.splits)

lemma set_labels_error: "set_labels v ls = Inl e \<Longrightarrow> e = IndexError"
  by (induction ls arbitrary: v) (auto simp: py_index_def Let_def split: sum.splits if_splits)

lemma parse_line_error:
  assumes "parse_line cfg l = Inl e"
  shows "e \<in> {ValueError, IndexError, RuntimeError}"
proof -
  have "e = ValueError \<or> e = RuntimeError \<or> e = IndexError"
    using assms map_int_error set_labels_error
    by (fastforce simp: parse_line_def str_split_def torch_zeros_def
        split: sum.splits list.splits if_splits)
  then show ?thesis by auto
qed

lemma parse_all_error:
  "parse_all cfg ls = Inl e \<Longrightarrow> e \<in> {ValueError, IndexError, RuntimeError}"
proof (induction ls)
  case Nil
  then show ?case by simp
next
  case (Cons l ls)
  show ?case
  proof (cases "parse_line cfg l")
    case (Inl e')
    then show ?thesis using Cons.prems parse_line_error [of cfg l e'] by simp
  next
    case (Inr r)
    then show ?thesis using Cons by (simp split: sum.splits)
  qed
qed

section \<open>\_\_getitem\_\_: what it leaves alone\<close>

lemma od_set_same_keys:
  "map_of d k = Some m \<Longrightarrow> map fst (od_set d k v) = map fst d"
  by (induction d k v rule: od_set.induct) (auto split: if_splits)

lemma same_dataset_refl: "same_dataset self self"
  by (simp add: same_dataset_def)

lemma same_dataset_trans:
  "same_dataset a b \<Longrightarrow> same_dataset b c \<Longrightarrow> same_dataset a c"
  by (simp add: same_dataset_def)

lemma same_dataset_meta:
  "map_of (video_meta self) k = Some m \<Longrightarrow>
   same_dataset self (self\<lparr>video_meta := od_set (video_meta self) k v\<rparr>)"
  by (simp add: same_dataset_def od_set_same_keys)

lemma retry_loop_same:
  "same_dataset self (snd (retry_loop env cfg sc sr tries self index))"
proof (induction tries arbitrary: self index)
  case Nil
  show ?case by (simp add: same_dataset_refl split: sum.splits)
next
  case (Cons i_try tries)
  show ?case
  proof (cases "py_get (path_to_videos self) index")
    case (Inl e)
    then show ?thesis by (simp add: same_dataset_refl)
  next
    case (Inr path)
    show ?thesis
    proof (cases "get_video_container env i_try cfg path")
      case None
      then show ?thesis
        using Inr Cons.IH [of self] by (simp add: same_dataset_refl split: sum.splits)
    next
      case (Some vc)
      show ?thesis
      proof (cases "map_of (video_meta self) index")
        case None
        then show ?thesis using Inr Some by (simp add: same_dataset_refl)
      next
        case m: (Some m)
        obtain fr m' where d: "decode env i_try cfg vc sr (temporal_sample_index sc) (min_scale sc) m = (fr, m')"
          by (cases "decode env i_try cfg vc sr (temporal_sample_index sc) (min_scale sc) m")
        let ?s = "self\<lparr>video_meta := od_set (video_meta self) index m'\<rparr>"
        have s: "same_dataset self ?s" using m by (rule same_dataset_meta)
        have ih: "\<And>j. same_dataset self (snd (retry_loop env cfg sc sr tries ?s j))"
          using same_dataset_trans [OF s Cons.IH [of ?s]] .
        show ?thesis
          using Inr Some m d s ih by (cases fr) (simp_all split: sum.splits)
      qed
    qed
  qed
qed

lemma getitem_same: "same_dataset self (snd (getitem env cfg self arg))"
  by (cases arg) (simp_all add: getitem_def same_dataset_refl retry_loop_same split: sum.splits)

lemma getitems_same: "same_dataset self (getitems env calls self)"
proof (induction calls arbitrary: self)
  case Nil
  show ?case by (simp add: same_dataset_refl)
next
  case (Cons call calls)
  obtain cfg arg where c: "call = (cfg, arg)" by (cases call)
  show ?case
    unfolding c getitems.simps
    by (rule same_dataset_trans [OF getitem_same Cons.IH])
qed

section \<open>Lists of repeated blocks\<close>

lemma concat_const_nth:
  "i < length rs * length xs \<Longrightarrow> concat (map (\<lambda>r. xs) rs) ! i = xs ! (i mod length xs)"
proof (induction rs arbitrary: i)
  case Nil
  then show ?case by simp
next
  case (Cons r rs)
  show ?case
  proof (cases "i < length xs")
    case True
    then show ?thesis by (simp add: nth_append)
  next
    case False
    then have "i - length xs < length rs * length xs" using Cons.prems by simp
    then have "concat (map (\<lambda>r. xs) rs) ! (i - length xs) = xs ! ((i - length xs) mod length xs)"
      by (rule Cons.IH)
    moreover have "(i - length xs) mod length xs = i mod length xs"
      using False by (simp add: le_mod_geq)
    ultimately show ?thesis using False by (simp add: nth_append)
  qed
qed

lemma concat_replicate_nth:
  "j < length rs \<Longrightarrow> k < n \<Longrightarrow> concat (map (\<lambda>r. replicate n (f r)) rs) ! (j * n + k) = f (rs ! j)"
proof (induction rs arbitrary: j)
  case Nil
  then show ?case by simp
next
  case (Cons r rs)
  show ?case
  proof (cases j)
    case 0
    then show ?thesis using Cons.prems by (simp add: nth_append)
  next
    case (Suc j')
    then have "concat (map (\<lambda>r. replicate n (f r)) rs) ! (j' * n + k) = f (rs ! j')"
      using Cons.prems Cons.IH [of j'] by simp
    moreover have "Suc j' * n + k - n = j' * n + k" by simp
    ultimately show ?thesis using Suc by (simp add: nth_append)
  qed
qed

section \<open>Integer division\<close>

lemma int_div_less:
  fixes a b c :: int
  assumes "0 < c" and "a < b * c"
  shows "a div c < b"
proof (rule ccontr)
  assume "\<not> a div c < b"
  then have "b \<le> a div c" by simp
  then have "b * c \<le> a div c * c" using assms(1) by (simp add: mult_right_mono)
  moreover have "a = a div c * c + a mod c" by simp
  moreover have "0 \<le> a mod c" using assms(1) by simp
  ultimately show False using assms(2) by linarith
qed

lemma int_div_nonneg:
  fixes a c :: int
  shows "0 < c \<Longrightarrow> 0 \<le> a \<Longrightarrow> 0 \<le> a div c"
  by (simp add: pos_imp_zdiv_nonneg_iff)

lemma int_divmod_unique:
  fixes S s t :: int
  assumes "0 < S" and "0 \<le> s" and "s < S"
  shows "(t * S + s) div S = t" and "(t * S + s) mod S = s"
  using assms by simp_all

lemma py_get_nth: "i < length xs \<Longrightarrow> py_get xs (int i) = Inr (xs ! i)"
  by (simp add: py_get_def py_index_def)

lemma sample_scales_test:
  assumes "mode self = ''test''" and "i < length (spatial_temporal_idx self)"
    and "TEST_NUM_SPATIAL_CROPS cfg \<noteq> 0"
  shows "sample_scales env cfg self (int i) short_cycle_idx =
     Inr \<lparr>temporal_sample_index = spatial_temporal_idx self ! i div TEST_NUM_SPATIAL_CROPS cfg,
          spatial_sample_index =
            (if TEST_NUM_SPATIAL_CROPS cfg > 1
             then spatial_temporal_idx self ! i mod TEST_NUM_SPATIAL_CROPS cfg else 1),
          min_scale = DATA_TEST_CROP_SIZE cfg, max_scale = DATA_TEST_CROP_SIZE cfg,
          crop_size = DATA_TEST_CROP_SIZE cfg\<rparr>"
  using assms by (simp add: sample_scales_def py_get_nth)

section \<open>\_\_getitem\_\_: what it returns\<close>

lemma sample_loop_result:
  assumes "py_get (labels self) index = Inr lbl" and "aug self"
  shows "sample_loop env cfg self sc frames index ks (fs0, ls0, is0) =
     Inr (fs0 @ map (\<lambda>k. PyTensors (pack_pathway_output env cfg (processed env cfg self sc k frames))) ks,
          ls0 @ replicate (length ks) (PyLabels lbl),
          is0 @ replicate (length ks) (PyInt index))"
  using assms
  by (induction ks arbitrary: fs0 ls0 is0)
     (simp_all add: processed_def Let_def replicate_app_Cons_same)

lemma sample_loop_error:
  assumes "py_get (labels self) index = Inl e" and "ks \<noteq> []"
  shows "sample_loop env cfg self sc frames index ks acc = Inl e"
  using assms by (cases ks; cases acc) (simp_all add: Let_def)

lemma finish_result:
  assumes "py_get (labels self) index = Inr lbl"
  shows "finish env cfg self sc frames index = Inr (returned env cfg self sc frames index lbl)"
proof (cases "aug self \<and> AUG_NUM_SAMPLE cfg > 1")
  case True
  then show ?thesis
    using sample_loop_result [OF assms, of env cfg sc frames _ "[]" "[]" "[]"]
    by (simp add: finish_def returned_def)
next
  case False
  then show ?thesis
    using assms by (auto simp: finish_def returned_def processed_def Let_def)
qed

lemma finish_error:
  assumes "py_get (labels self) index = Inl e"
  shows "finish env cfg self sc frames index = Inl e"
proof (cases "aug self \<and> AUG_NUM_SAMPLE cfg > 1")
  case True
  then have "[0..<nat (AUG_NUM_SAMPLE cfg)] \<noteq> []" by simp
  from sample_loop_error [OF assms this, of env cfg sc frames "([], [], [])"] show ?thesis
    using True by (simp add: finish_def)
next
  case False
  then show ?thesis using assms by (auto simp: finish_def Let_def)
qed

lemma finish_Inr:
  assumes "finish env cfg self sc frames index = Inr r"
  obtains lbl where "py_get (labels self) index = Inr lbl"
    and "r = returned env cfg self sc frames index lbl"
proof (cases "py_get (labels self) index")
  case (Inl e)
  then show ?thesis using finish_error [OF Inl, of env cfg sc frames] assms by simp
next
  case (Inr lbl)
  then show ?thesis using finish_result [OF Inr, of env cfg sc frames] assms that by simp
qed

lemma aug_frame_same:
  "same_dataset a b \<Longrightarrow> aug_frame env cfg b k frames i x y z = aug_frame env cfg a k frames i x y z"
  by (simp add: aug_frame_def same_dataset_def)

lemma returned_same:
  "same_dataset a b \<Longrightarrow> returned env cfg b sc frames index lbl = returned env cfg a sc frames index lbl"
  by (simp add: returned_def processed_def aug_frame_same) (simp add: same_dataset_def)

text \<open>
  If the loop returns a value, some attempt opened a container for some sample and decoded
  frames from it, and the value is built from these frames, the label vector of that
  sample and its index.
\<close>

lemma retry_loop_Inr:
  assumes "retry_loop env cfg sc sr tries self index = (Inr r, self')"
  obtains i_try idx path vc m m' fr lbl where
    "i_try \<in> set tries" and "py_get (path_to_videos self) idx = Inr path"
    and "get_video_container env i_try cfg path = Some vc"
    and "idx \<in> set (map fst (video_meta self))"
    and "decode env i_try cfg vc sr (temporal_sample_index sc) (min_scale sc) m = (Some fr, m')"
    and "py_get (labels self) idx = Inr lbl"
    and "r = returned env cfg self sc fr idx lbl"
  using assms
proof (induction tries arbitrary: self index thesis)
  case Nil
  then show ?case by (simp split: sum.splits)
next
  case (Cons i_try tries)
  note prem = Cons.prems(2)
  have rec: thesis
    if r: "retry_loop env cfg sc sr tries s j = (Inr r, self')" and s: "same_dataset self s"
    for s j
  proof (rule Cons.IH [OF _ r])
    fix i idx path vc m m' fr lbl
    assume a: "i \<in> set tries" "py_get (path_to_videos s) idx = Inr path"
      "get_video_container env i cfg path = Some vc"
      "idx \<in> set (map fst (video_meta s))"
      "decode env i cfg vc sr (temporal_sample_index sc) (min_scale sc) m = (Some fr, m')"
      "py_get (labels s) idx = Inr lbl" "r = returned env cfg s sc fr idx lbl"
    show thesis
    proof (rule Cons.prems(1) [of i idx path vc m fr m' lbl])
      show "i \<in> set (i_try # tries)" using a(1) by simp
      show "py_get (path_to_videos self) idx = Inr path"
        using a(2) s by (simp add: same_dataset_def)
      show "get_video_container env i cfg path = Some vc" by (rule a(3))
      have e: "map fst (video_meta s) = map fst (video_meta self)"
        using s by (simp add: same_dataset_def)
      show "idx \<in> set (map fst (video_meta self))"
        using a(4) unfolding e .
      show "decode env i cfg vc sr (temporal_sample_index sc) (min_scale sc) m = (Some fr, m')"
        by (rule a(5))
      show "py_get (labels self) idx = Inr lbl" using a(6) s by (simp add: same_dataset_def)
      show "r = returned env cfg self sc fr idx lbl"
        using a(7) returned_same [OF s] by simp
    qed
  qed
  show ?case
  proof (cases "py_get (path_to_videos self) index")
    case (Inl e)
    then show ?thesis using prem by simp
  next
    case (Inr path)
    show ?thesis
    proof (cases "get_video_container env i_try cfg path")
      case None
      then show ?thesis
        using prem Inr rec [OF _ same_dataset_refl]
        by (simp split: sum.splits if_splits)
    next
      case (Some vc)
      show ?thesis
      proof (cases "map_of (video_meta self) index")
        case None
        then show ?thesis using prem Inr Some by simp
      next
        case m: (Some m)
        obtain fr m' where d: "decode env i_try cfg vc sr (temporal_sample_index sc) (min_scale sc) m = (fr, m')"
          by (cases "decode env i_try cfg vc sr (temporal_sample_index sc) (min_scale sc) m")
        let ?s = "self\<lparr>video_meta := od_set (video_meta self) index m'\<rparr>"
        have s: "same_dataset self ?s" using m by (rule same_dataset_meta)
        show ?thesis
        proof (cases fr)
          case None
          then show ?thesis
            using prem Inr Some m d rec [OF _ s]
            by (simp split: sum.splits if_splits)
        next
          case fr: (Some frames)
          have fin: "finish env cfg ?s sc frames index = Inr r"
            using prem Inr Some m d fr by auto
          from fin obtain lbl where l: "py_get (labels ?s) index = Inr lbl"
            and r: "r = returned env cfg ?s sc frames index lbl"
            by (rule finish_Inr)
          show ?thesis
          proof (rule Cons.prems(1) [of i_try index path vc m frames m' lbl])
            show "i_try \<in> set (i_try # tries)" by simp
            show "py_get (path_to_videos self) index = Inr path" by (rule Inr)
            show "get_video_container env i_try cfg path = Some vc" by (rule Some)
            show "index \<in> set (map fst (video_meta self))"
              using map_of_SomeD [OF m] by (simp add: rev_image_eqI)
            show "decode env i_try cfg vc sr (temporal_sample_index sc) (min_scale sc) m = (Some frames, m')"
              using d fr by simp
            show "py_get (labels self) index = Inr lbl" using l by simp
            show "r = returned env cfg self sc frames index lbl"
              using r returned_same [OF s] by simp
          qed
        qed
      qed
    qed
  qed
qed

text \<open>If the first attempt opens the container and decodes frames, its value is returned.\<close>

lemma retry_loop_first:
  assumes "py_get (path_to_videos self) index = Inr path"
    and "get_video_container env i_try cfg path = Some vc"
    and "map_of (video_meta self) index = Some m"
    and "decode env i_try cfg vc sr (temporal_sample_index sc) (min_scale sc) m = (Some fr, m')"
    and "py_get (labels self) index = Inr lbl"
  shows "retry_loop env cfg sc sr (i_try # tries) self index =
     (Inr (returned env cfg self sc fr index lbl),
      self\<lparr>video_meta := od_set (video_meta self) index m'\<rparr>)"
proof -
  let ?s = "self\<lparr>video_meta := od_set (video_meta self) index m'\<rparr>"
  have s: "same_dataset self ?s" using assms(3) by (rule same_dataset_meta)
  have "py_get (labels ?s) index = Inr lbl" using assms(5) by simp
  then have "finish env cfg ?s sc fr index = Inr (returned env cfg ?s sc fr index lbl)"
    by (rule finish_result)
  then have "finish env cfg ?s sc fr index = Inr (returned env cfg self sc fr index lbl)"
    using returned_same [OF s] by simp
  then show ?thesis using assms by simp
qed

lemma getitem_unfold:
  "getitem env cfg self arg =
     (case sample_scales env cfg self (arg_index arg) (arg_cycle arg) of
        Inl e \<Rightarrow> (Inl e, self)
      | Inr sc \<Rightarrow>
          retry_loop env cfg sc (get_random_sampling_rate env cfg)
            [0..<nat (num_retries self)] self (arg_index arg))"
  by (cases arg) (auto simp: getitem_def arg_index_def arg_cycle_def split: sum.splits)

lemma returned_inject:
  assumes "returned env cfg self sc fr idx lbl = returned env cfg self sc' fr' idx' lbl'"
  shows "idx = idx' \<and> lbl = lbl'"
proof (cases "aug self \<and> AUG_NUM_SAMPLE cfg > 1")
  case True
  then obtain n where n: "nat (AUG_NUM_SAMPLE cfg) = Suc n"
    by (cases "nat (AUG_NUM_SAMPLE cfg)") auto
  from assms True show ?thesis by (simp add: returned_def n)
next
  case False
  with assms show ?thesis by (auto simp: returned_def)
qed

text \<open>The metadata dicts of a constructed object are empty.\<close>

lemma clip_loop_meta_values:
  "snd ` set (video_meta self) \<subseteq> {[]} \<Longrightarrow>
   snd ` set (video_meta (clip_loop cfg p oh ci ks self)) \<subseteq> {[]}"
proof (induction ks arbitrary: self)
  case Nil
  then show ?case by simp
next
  case (Cons k ks)
  have "snd ` set (od_set (video_meta self) (int ci * num_clips self + int k) []) \<subseteq> {[]}"
    using od_set_values [of "video_meta self" "int ci * num_clips self + int k" "[]"] Cons.prems
    by auto
  then show ?case by (simp add: Cons.IH)
qed

lemma line_loop_meta_values:
  "line_loop cfg els self = Inr self' \<Longrightarrow> snd ` set (video_meta self) \<subseteq> {[]} \<Longrightarrow>
   snd ` set (video_meta self') \<subseteq> {[]}"
proof (induction els arbitrary: self)
  case Nil
  then show ?case by simp
next
  case (Cons el els)
  obtain ci l where el: "el = (ci, l)" by (cases el)
  from Cons.prems(1) obtain p lbls oh where r: "parse_line cfg l = Inr (p, lbls, oh)"
    by (auto simp: el split: sum.splits)
  let ?s = "clip_loop cfg p oh ci [0..<nat (num_clips self)] self"
  have "line_loop cfg els ?s = Inr self'" using Cons.prems(1) r by (simp add: el)
  moreover have "snd ` set (video_meta ?s) \<subseteq> {[]}"
    by (rule clip_loop_meta_values [OF Cons.prems(2)])
  ultimately show ?case by (rule Cons.IH)
qed

lemma Hvu_init_meta_values:
  assumes "Hvu_init fs cfg md n = (cfg', Inr self)"
  shows "snd ` set (video_meta self) \<subseteq> {[]}"
proof -
  have md: "md \<in> set [''train'', ''val'', ''test'']"
    using assms Hvu_init_bad_mode [of md fs cfg n] by auto
  from assms Hvu_init_unfold [OF md, of fs cfg n] obtain self2 where
    l: "construct_loader fs (init_cfg cfg md) (init_self cfg md n) = Inr self2"
    and s: "video_meta self = video_meta self2"
    by (auto split: sum.splits)
  from l obtain ls where
    "line_loop (init_cfg cfg md) (enumerate 0 ls)
       ((init_self cfg md n)\<lparr>path_to_videos := [], labels := [], spatial_temporal_idx := []\<rparr>) = Inr self2"
    by (auto simp: construct_loader_def Let_def split: option.splits sum.splits if_splits)
  then have "snd ` set (video_meta self2) \<subseteq> {[]}"
    by (rule line_loop_meta_values) (simp add: init_self_def)
  then show ?thesis by (simp add: s)
qed

text \<open>
  A constructed object: its samples are numbered from 0, each has a label vector and
  an empty metadata dict.
\<close>

lemma Hvu_init_samples:
  assumes "Hvu_init fs cfg md n = (cfg', Inr self)"
  shows "length (labels self) = length (path_to_videos self)"
    and "set (map fst (video_meta self)) = {0 ..< int (length (path_to_videos self))}"
    and "i < length (path_to_videos self) \<Longrightarrow> map_of (video_meta self) (int i) = Some []"
proof -
  have v: "snd ` set (video_meta self) \<subseteq> {[]}" by (rule Hvu_init_meta_values [OF assms])
  show a: "length (labels self) = length (path_to_videos self)"
    and b: "set (map fst (video_meta self)) = {0 ..< int (length (path_to_videos self))}"
  proof (atomize (full), rule Hvu_init_Inr [OF assms])
    fix ls rs
    assume f: "length rs = length ls" "0 < num_clips self"
      and p: "path_to_videos self =
         concat (map (\<lambda>r. replicate (nat (num_clips self)) (path_join (DATA_PATH_PREFIX cfg) (fst r))) rs)"
      and l: "labels self = concat (map (\<lambda>r. replicate (nat (num_clips self)) (snd (snd r))) rs)"
      and k: "fst ` set (video_meta self) = {0 ..< int (length ls) * num_clips self}"
    have lp: "length (path_to_videos self) = length ls * nat (num_clips self)"
      by (simp add: p length_concat_replicate f(1))
    have ll: "length (labels self) = length ls * nat (num_clips self)"
      by (simp add: l length_concat_replicate f(1))
    have "int (nat (num_clips self)) = num_clips self" using f(2) by simp
    then have e: "int (length (path_to_videos self)) = int (length ls) * num_clips self"
      unfolding lp of_nat_mult by simp
    have 1: "length (labels self) = length (path_to_videos self)" by (simp only: lp ll)
    have 2: "set (map fst (video_meta self)) = {0 ..< int (length (path_to_videos self))}"
      unfolding set_map k e ..
    show "length (labels self) = length (path_to_videos self) \<and>
        set (map fst (video_meta self)) = {0 ..< int (length (path_to_videos self))}"
      using 1 2 by (intro conjI)
  qed
  show "map_of (video_meta self) (int i) = Some []" if "i < length (path_to_videos self)"
  proof -
    have "int i \<in> set (map fst (video_meta self))" using that b by simp
    then obtain m where m: "map_of (video_meta self) (int i) = Some m"
      by (metis map_of_eq_None_iff not_Some_eq set_map)
    then have "m \<in> snd ` set (video_meta self)"
      by (metis map_of_SomeD image_eqI snd_conv)
    then show ?thesis using v m by auto
  qed
qed

text \<open>
  An object that calls of \<open>__getitem__\<close> have used is the constructed one up to the
  contents of its metadata dicts: its samples are numbered from 0, and each has a label
  vector and a metadata dict.
\<close>

lemma used_samples:
  assumes "Hvu_init fs icfg md n = (icfg', Inr self0)" and "same_dataset self0 self"
  shows "length (labels self) = length (path_to_videos self)"
    and "set (map fst (video_meta self)) = {0 ..< int (length (path_to_videos self))}"
    and "i < length (path_to_videos self) \<Longrightarrow> \<exists>m. map_of (video_meta self) (int i) = Some m"
    and "mode self = md"
    and "aug self = (md = ''train'' \<and> AUG_ENABLE icfg)"
    and "rand_erase self = (md = ''train'' \<and> AUG_ENABLE icfg \<and> AUG_RE_PROB icfg > 0)"
proof -
  have e: "path_to_videos self = path_to_videos self0" "labels self = labels self0"
    "map fst (video_meta self) = map fst (video_meta self0)" "mode self = mode self0"
    "aug self = aug self0" "rand_erase self = rand_erase self0"
    using assms(2) by (simp_all add: same_dataset_def)
  show "length (labels self) = length (path_to_videos self)"
    unfolding e by (rule Hvu_init_samples(1) [OF assms(1)])
  show k: "set (map fst (video_meta self)) = {0 ..< int (length (path_to_videos self))}"
    unfolding e by (rule Hvu_init_samples(2) [OF assms(1)])
  show "\<exists>m. map_of (video_meta self) (int i) = Some m" if "i < length (path_to_videos self)"
  proof -
    have "int i \<in> set (map fst (video_meta self))" using that k by simp
    then show ?thesis by (metis map_of_eq_None_iff not_Some_eq set_map)
  qed
  show "mode self = md" unfolding e by (rule Hvu_init_Inr [OF assms(1)])
  show "aug self = (md = ''train'' \<and> AUG_ENABLE icfg)"
    unfolding e by (rule Hvu_init_Inr [OF assms(1)])
  show "rand_erase self = (md = ''train'' \<and> AUG_ENABLE icfg \<and> AUG_RE_PROB icfg > 0)"
    unfolding e by (rule Hvu_init_Inr [OF assms(1)])
qed

text \<open>
  If \<open>__getitem__\<close> returns a value on such an object, the value is built from frames
  that some attempt decoded for a sample of the object, from the label vector of that
  sample and from its index.
\<close>

lemma getitem_Inr:
  assumes "Hvu_init fs icfg md n = (icfg', Inr self0)" and "same_dataset self0 self"
    and "getitem env cfg self arg = (Inr r, self')"
  obtains sc i_try idx vc m m' fr where
    "sample_scales env cfg self (arg_index arg) (arg_cycle arg) = Inr sc"
    and "i_try < nat (num_retries self)" and "idx < length (path_to_videos self)"
    and "get_video_container env i_try cfg (path_to_videos self ! idx) = Some vc"
    and "decode env i_try cfg vc (get_random_sampling_rate env cfg)
           (temporal_sample_index sc) (min_scale sc) m = (Some fr, m')"
    and "r = returned env cfg self sc fr (int idx) (labels self ! idx)"
proof -
  from assms(3) obtain sc where sc: "sample_scales env cfg self (arg_index arg) (arg_cycle arg) = Inr sc"
    and rl: "retry_loop env cfg sc (get_random_sampling_rate env cfg)
            [0..<nat (num_retries self)] self (arg_index arg) = (Inr r, self')"
    by (auto simp: getitem_unfold split: sum.splits)
  from rl show ?thesis
  proof (rule retry_loop_Inr)
    fix i_try idx path vc m m' fr lbl
    assume a: "i_try \<in> set [0..<nat (num_retries self)]"
      "py_get (path_to_videos self) idx = Inr path"
      "get_video_container env i_try cfg path = Some vc"
      "idx \<in> set (map fst (video_meta self))"
      "decode env i_try cfg vc (get_random_sampling_rate env cfg)
           (temporal_sample_index sc) (min_scale sc) m = (Some fr, m')"
      "py_get (labels self) idx = Inr lbl"
      "r = returned env cfg self sc fr idx lbl"
    have rng: "0 \<le> idx" "idx < int (length (path_to_videos self))"
      using a(4) used_samples(2) [OF assms(1,2)] by simp_all
    then have i: "nat idx < length (path_to_videos self)" "int (nat idx) = idx" by simp_all
    have p: "path = path_to_videos self ! nat idx"
      using a(2) py_get_nth [OF i(1)] i(2) by simp
    have "nat idx < length (labels self)" using i(1) used_samples(1) [OF assms(1,2)] by simp
    from py_get_nth [OF this] have l: "lbl = labels self ! nat idx"
      using a(6) i(2) by simp
    show ?thesis
    proof (rule that [of sc i_try "nat idx" vc m fr m'])
      show "sample_scales env cfg self (arg_index arg) (arg_cycle arg) = Inr sc" by (rule sc)
      show "i_try < nat (num_retries self)" using a(1) by simp
      show "nat idx < length (path_to_videos self)" by (rule i(1))
      show "get_video_container env i_try cfg (path_to_videos self ! nat idx) = Some vc"
        using a(3) p by simp
      show "decode env i_try cfg vc (get_random_sampling_rate env cfg)
           (temporal_sample_index sc) (min_scale sc) m = (Some fr, m')" by (rule a(5))
      show "r = returned env cfg self sc fr (int (nat idx)) (labels self ! nat idx)"
        using a(7) l i(2) by simp
    qed
  qed
qed

text \<open>
  Attempts that open no container and come no later than half of the retries leave the
  index and the object as they are.
\<close>

lemma retry_loop_skip:
  assumes "py_get (path_to_videos self) index = Inr path"
    and "\<forall>i \<in> set pre. get_video_container env i cfg path = None \<and> int i \<le> num_retries self div 2"
  shows "retry_loop env cfg sc sr (pre @ rest) self index = retry_loop env cfg sc sr rest self index"
  using assms(2)
proof (induction pre)
  case Nil
  show ?case by simp
next
  case (Cons i pre)
  have n: "get_video_container env i cfg path = None" "\<not> int i > num_retries self div 2"
    using Cons.prems by simp_all
  have "retry_loop env cfg sc sr (pre @ rest) self index = retry_loop env cfg sc sr rest self index"
    by (rule Cons.IH) (use Cons.prems in simp)
  then show ?case using assms(1) n by simp
qed

text \<open>
  On such an object, let the attempts before attempt \<open>t\<close> open no container, none of
  them later than half of the retries, and let attempt \<open>t\<close> open the container of the
  requested sample and decode frames from it, given the metadata dict of the sample.
  Then \<open>__getitem__\<close> returns the value built from these frames.
\<close>

lemma getitem_attempt:
  assumes "Hvu_init fs icfg md n = (icfg', Inr self0)" and "same_dataset self0 self"
    and "arg_index arg = int i" and "i < length (path_to_videos self)"
    and "t < nat (num_retries self)"
    and "\<forall>j < t. get_video_container env j cfg (path_to_videos self ! i) = None \<and>
           int j \<le> num_retries self div 2"
    and "sample_scales env cfg self (int i) (arg_cycle arg) = Inr sc"
    and "get_video_container env t cfg (path_to_videos self ! i) = Some vc"
    and "map_of (video_meta self) (int i) = Some m"
    and "decode env t cfg vc (get_random_sampling_rate env cfg)
           (temporal_sample_index sc) (min_scale sc) m = (Some fr, m')"
  shows "getitem env cfg self arg =
     (Inr (returned env cfg self sc fr (int i) (labels self ! i)),
      self\<lparr>video_meta := od_set (video_meta self) (int i) m'\<rparr>)"
proof -
  let ?n = "nat (num_retries self)"
  have "[0..<?n] = [0..<t] @ [t..<?n]"
    using assms(5) upt_add_eq_append [of 0 t "?n - t"] by simp
  also have "[t..<?n] = t # [Suc t..<?n]" using assms(5) by (simp add: upt_conv_Cons)
  finally have tries: "[0..<?n] = [0..<t] @ t # [Suc t..<?n]" .
  have "i < length (labels self)" using assms(4) used_samples(1) [OF assms(1,2)] by simp
  then have l: "py_get (labels self) (int i) = Inr (labels self ! i)" by (rule py_get_nth)
  have p: "py_get (path_to_videos self) (int i) = Inr (path_to_videos self ! i)"
    using assms(4) by (rule py_get_nth)
  have pre: "\<forall>j \<in> set [0..<t]. get_video_container env j cfg (path_to_videos self ! i) = None \<and>
           int j \<le> num_retries self div 2"
    using assms(6) by simp
  show ?thesis
    unfolding getitem_unfold assms(3) assms(7) sum.case tries
      retry_loop_skip [OF p pre]
    by (rule retry_loop_first [OF p assms(8) assms(9) assms(10) l])
qed

text \<open>The frames of an augmenting object of mode train, step by step as \<open>_aug_frame\<close> takes them.\<close>

lemma processed_chain:
  assumes "aug self \<longrightarrow> mode self = ''train''"
  shows "processed env cfg self sc k fr =
     (if aug self then
        (let imgs = create_random_augment env k cfg fr
                      (map (to_pil_image env) (unbind env (permute env [0, 3, 1, 2] fr)));
             normalized =
               permute env [3, 0, 1, 2]
                 (tensor_normalize env cfg
                    (permute env [0, 2, 3, 1] (stack env (map (to_tensor env) imgs))));
             sampled =
               spatial_sampling env k cfg (spatial_sample_index sc)
                 (min_scale sc) (max_scale sc) (crop_size sc)
                 (if length (DATA_TRAIN_JITTER_ASPECT_RELATIVE cfg) = 0 then None
                  else Some (DATA_TRAIN_JITTER_ASPECT_RELATIVE cfg))
                 (if length (DATA_TRAIN_JITTER_SCALES_RELATIVE cfg) = 0 then None
                  else Some (DATA_TRAIN_JITTER_SCALES_RELATIVE cfg))
                 (DATA_TRAIN_JITTER_MOTION_SHIFT cfg) normalized
         in if rand_erase self
            then permute env [1, 0, 2, 3] (random_erasing env k cfg (permute env [1, 0, 2, 3] sampled))
            else sampled)
      else
        spatial_sampling env 0 cfg (spatial_sample_index sc)
          (min_scale sc) (max_scale sc) (crop_size sc) None None False
          (permute env [3, 0, 1, 2] (tensor_normalize env cfg fr)))"
proof (cases "aug self")
  case True
  then have "mode self = ''train''" using assms by simp
  then show ?thesis
    using True
    by (simp add: processed_def aug_frame_def frame_to_list_img_def list_img_to_frames_def Let_def)
next
  case False
  then show ?thesis by (simp add: processed_def)
qed

section \<open>The retry loop outside mode test\<close>

text \<open>
  In the modes train and val the index stays a sample of the object, so the loop either
  returns a value or ends in the \<open>RuntimeError\<close> of line 209.
\<close>

lemma retry_loop_not_test:
  assumes "mode self \<noteq> ''test''" and "randint_ok env"
    and "set (map fst (video_meta self)) = {0 ..< int (length (path_to_videos self))}"
    and "length (labels self) = length (path_to_videos self)"
    and "0 \<le> index" and "index < int (length (path_to_videos self))"
  shows "(\<exists>r. fst (retry_loop env cfg sc sr tries self index) = Inr r) \<or>
     fst (retry_loop env cfg sc sr tries self index) = Inl RuntimeError"
  using assms
proof (induction tries arbitrary: self index)
  case Nil
  have "py_get (path_to_videos self) index = Inr (path_to_videos self ! nat index)"
    using py_get_nth [of "nat index" "path_to_videos self"] Nil.prems(5,6) by simp
  then show ?case by simp
next
  case (Cons i_try tries)
  let ?len = "length (path_to_videos self)"
  have p: "py_get (path_to_videos self) index = Inr (path_to_videos self ! nat index)"
    using py_get_nth [of "nat index" "path_to_videos self"] Cons.prems(5,6) by simp
  have pos: "0 \<le> int ?len - 1" using Cons.prems(5,6) by linarith
  let ?j = "randint env i_try 0 (int ?len - 1)"
  have rj: "py_randint env i_try 0 (int ?len - 1) = Inr ?j" using pos by (simp add: py_randint_def)
  have "0 \<le> ?j \<and> ?j \<le> int ?len - 1"
    using Cons.prems(2) pos unfolding randint_ok_def by (elim allE impE)
  then have j: "0 \<le> ?j" "?j < int ?len" by linarith+
  have step: "(\<exists>r. fst (retry_loop env cfg sc sr tries s i) = Inr r) \<or>
     fst (retry_loop env cfg sc sr tries s i) = Inl RuntimeError"
    if "same_dataset self s" and "0 \<le> i" and "i < int ?len" for s i
  proof (rule Cons.IH)
    show "mode s \<noteq> ''test''" using that(1) Cons.prems(1) by (simp add: same_dataset_def)
    show "randint_ok env" by (rule Cons.prems(2))
    have e: "map fst (video_meta s) = map fst (video_meta self)"
      "path_to_videos s = path_to_videos self" "labels s = labels self"
      using that(1) by (simp_all add: same_dataset_def)
    show "set (map fst (video_meta s)) = {0 ..< int (length (path_to_videos s))}"
      unfolding e by (rule Cons.prems(3))
    show "length (labels s) = length (path_to_videos s)"
      unfolding e by (rule Cons.prems(4))
    show "0 \<le> i" by (rule that(2))
    show "i < int (length (path_to_videos s))" unfolding e by (rule that(3))
  qed
  show ?case
  proof (cases "get_video_container env i_try cfg (path_to_videos self ! nat index)")
    case None
    show ?thesis
      using p None rj Cons.prems(1) step [OF same_dataset_refl j]
        step [OF same_dataset_refl Cons.prems(5,6)]
      by simp
  next
    case (Some vc)
    have "index \<in> set (map fst (video_meta self))"
      unfolding Cons.prems(3) using Cons.prems(5,6) by simp
    then obtain m where m: "map_of (video_meta self) index = Some m"
      by (metis map_of_eq_None_iff not_Some_eq set_map)
    obtain fr m' where d: "decode env i_try cfg vc sr (temporal_sample_index sc) (min_scale sc) m = (fr, m')"
      by (cases "decode env i_try cfg vc sr (temporal_sample_index sc) (min_scale sc) m")
    let ?s = "self\<lparr>video_meta := od_set (video_meta self) index m'\<rparr>"
    have s: "same_dataset self ?s" using m by (rule same_dataset_meta)
    show ?thesis
    proof (cases fr)
      case None
      show ?thesis
        using p Some m d None rj Cons.prems(1) step [OF s j] step [OF s Cons.prems(5,6)]
        by simp
    next
      case fr: (Some frames)
      have "nat index < length (labels ?s)" using Cons.prems(4,5,6) by simp
      from py_get_nth [OF this] have "py_get (labels ?s) index = Inr (labels ?s ! nat index)"
        using Cons.prems(5) by simp
      from finish_result [OF this, of env cfg sc frames]
      show ?thesis using p Some m d fr by simp
    qed
  qed
qed

lemma getitem_not_test:
  assumes "Hvu_init fs icfg md n = (icfg', Inr self)" and "md \<noteq> ''test''"
    and "randint_ok env"
    and "0 \<le> arg_index arg" and "arg_index arg < Hvu_len self"
    and "sample_scales env cfg self (arg_index arg) (arg_cycle arg) = Inr sc"
  shows "(\<exists>r. fst (getitem env cfg self arg) = Inr r) \<or>
     fst (getitem env cfg self arg) = Inl RuntimeError"
proof -
  have m: "mode self \<noteq> ''test''"
    using assms(2) by (rule_tac Hvu_init_Inr [OF assms(1)]) simp
  show ?thesis
    unfolding getitem_unfold assms(6) sum.case
    by (rule retry_loop_not_test [OF m assms(3) Hvu_init_samples(2) [OF assms(1)]
          Hvu_init_samples(1) [OF assms(1)] assms(4) assms(5) [unfolded Hvu_len_def]])
qed

section \<open>The concrete objects are the constructor's\<close>

lemma init_grid: "Hvu_init files_test cfg0 ''test'' 10 = (cfg0, Inr hvu_grid)"
  by code_simp

lemma init_two: "Hvu_init files_test cfg_single ''test'' 10 = (cfg_single, Inr hvu_two)"
  by code_simp

lemma init_train: "Hvu_init files_train cfg_multigrid ''train'' 10 = (cfg_single\<lparr>MULTIGRID_DEFAULT_S := 224\<rparr>, Inr hvu_train)"
  by code_simp

lemma init_aug: "Hvu_init files_train cfg_aug ''train'' 10 = (cfg_aug, Inr hvu_aug)"
  by code_simp

section \<open>Claims about the constructor\<close>

text \<open>
  C8. Constructing \<open>Hvu\<close> in mode train or val overwrites
  \<open>cfg.TEST.NUM_ENSEMBLE_VIEWS\<close> and \<open>cfg.TEST.NUM_SPATIAL_CROPS\<close> of the caller's
  configuration with 1; construction in mode test, and a construction refused for its
  mode, leave the configuration as it was. No other field changes, whether the
  constructor returns or raises: the configuration afterwards is the one before with
  at most these two fields updated.
\<close>

theorem Hvu_init_config_effect:
  "fst (Hvu_init fs cfg md n) =
     (if md \<in> set [''train'', ''val'']
      then cfg\<lparr>TEST_NUM_ENSEMBLE_VIEWS := 1, TEST_NUM_SPATIAL_CROPS := 1\<rparr> else cfg)"
proof (cases "md \<in> set [''train'', ''val'', ''test'']")
  case True
  then show ?thesis by (simp add: Hvu_init_unfold [OF True] init_cfg_def)
next
  case False
  then show ?thesis by (simp add: Hvu_init_bad_mode)
qed

theorem Hvu_init_config_effect_witness:
  "fst (Hvu_init (files_of ''/d/val.csv'' two_videos) cfg0 ''val'' 10) = cfg_single \<and>
   fst (Hvu_init (files_of ''/d/test.csv'' two_videos) cfg0 ''test'' 10) = cfg0"
  using Hvu_init_config_effect [of "files_of ''/d/val.csv'' two_videos" cfg0 "''val''" 10]
    Hvu_init_config_effect [of "files_of ''/d/test.csv'' two_videos" cfg0 "''test''" 10]
  by (simp add: cfg_single_def)

text \<open>
  C7, as amended. The constructor accepts exactly the modes train, val and test: any
  other mode fails with an assertion error whatever the files are. It returns only if
  the split file exists and yields at least one entry. It fails with an assertion error
  when the file is missing, and when every line parses and no entry results (no line, or
  a number of clips that is not positive). A line that does not parse makes it fail with
  the error of the first such line, which is a \<open>ValueError\<close>, an \<open>IndexError\<close> or a
  \<open>RuntimeError\<close> and no assertion error. In every other case it returns.
\<close>

theorem Hvu_init_outcomes:
  "(md \<notin> set [''train'', ''val'', ''test''] \<longrightarrow>
      (\<forall>fs'. Hvu_init fs' cfg md n = (cfg, Inl AssertionError))) \<and>
   (\<forall>self. snd (Hvu_init fs cfg md n) = Inr self \<longrightarrow>
      md \<in> set [''train'', ''val'', ''test''] \<and>
      (\<exists>ls. fs (split_file cfg md) = Some ls \<and> ls \<noteq> [] \<and> path_to_videos self \<noteq> [])) \<and>
   (md \<in> set [''train'', ''val'', ''test''] \<and> fs (split_file cfg md) = None \<longrightarrow>
      snd (Hvu_init fs cfg md n) = Inl AssertionError) \<and>
   (\<forall>ls rs. md \<in> set [''train'', ''val'', ''test''] \<and> fs (split_file cfg md) = Some ls \<and>
      parse_all cfg ls = Inr rs \<and> (ls = [] \<or> init_clips cfg md \<le> 0) \<longrightarrow>
      snd (Hvu_init fs cfg md n) = Inl AssertionError) \<and>
   (\<forall>ls e. md \<in> set [''train'', ''val'', ''test''] \<and> fs (split_file cfg md) = Some ls \<and>
      parse_all cfg ls = Inl e \<longrightarrow>
      snd (Hvu_init fs cfg md n) = Inl e \<and> e \<in> {ValueError, IndexError, RuntimeError}) \<and>
   (\<forall>ls rs. md \<in> set [''train'', ''val'', ''test''] \<and> fs (split_file cfg md) = Some ls \<and>
      parse_all cfg ls = Inr rs \<and> ls \<noteq> [] \<and> 0 < init_clips cfg md \<longrightarrow>
      (\<exists>self. snd (Hvu_init fs cfg md n) = Inr self))"
proof (intro conjI allI impI)
  fix fs' assume "md \<notin> set [''train'', ''val'', ''test'']"
  then show "Hvu_init fs' cfg md n = (cfg, Inl AssertionError)" by (rule Hvu_init_bad_mode)
next
  fix self assume a: "snd (Hvu_init fs cfg md n) = Inr self"
  have b: "Hvu_init fs cfg md n = (fst (Hvu_init fs cfg md n), Inr self)"
    using a by (cases "Hvu_init fs cfg md n") simp
  show "md \<in> set [''train'', ''val'', ''test'']"
    by (rule Hvu_init_Inr [OF b])
  show "\<exists>ls. fs (split_file cfg md) = Some ls \<and> ls \<noteq> [] \<and> path_to_videos self \<noteq> []"
  proof (rule Hvu_init_Inr [OF b])
    fix ls rs
    assume c: "fs (split_file cfg md) = Some ls" "rs \<noteq> []" "length rs = length ls"
      "0 < num_clips self"
      "path_to_videos self =
         concat (map (\<lambda>r. replicate (nat (num_clips self)) (path_join (DATA_PATH_PREFIX cfg) (fst r))) rs)"
    have "ls \<noteq> []" using c(2,3) by auto
    moreover have "path_to_videos self \<noteq> []"
      unfolding c(5) concat_replicate_empty using c(2,4) by simp
    ultimately show ?thesis using c(1) by simp
  qed
next
  assume a: "md \<in> set [''train'', ''val'', ''test''] \<and> fs (split_file cfg md) = None"
  show "snd (Hvu_init fs cfg md n) = Inl AssertionError"
    using a by (elim conjE) (rule Hvu_init_missing)
next
  fix ls rs
  assume a: "md \<in> set [''train'', ''val'', ''test''] \<and> fs (split_file cfg md) = Some ls \<and>
      parse_all cfg ls = Inr rs \<and> (ls = [] \<or> init_clips cfg md \<le> 0)"
  show "snd (Hvu_init fs cfg md n) = Inl AssertionError"
    using a by (elim conjE) (rule Hvu_init_no_entry)
next
  fix ls e
  assume a: "md \<in> set [''train'', ''val'', ''test''] \<and> fs (split_file cfg md) = Some ls \<and>
      parse_all cfg ls = Inl e"
  show "snd (Hvu_init fs cfg md n) = Inl e"
    using a by (elim conjE) (rule Hvu_init_parse_error)
  have "parse_all cfg ls = Inl e" using a by (elim conjE)
  then show "e \<in> {ValueError, IndexError, RuntimeError}"
    by (rule parse_all_error)
next
  fix ls rs
  assume a: "md \<in> set [''train'', ''val'', ''test''] \<and> fs (split_file cfg md) = Some ls \<and>
      parse_all cfg ls = Inr rs \<and> ls \<noteq> [] \<and> 0 < init_clips cfg md"
  show "\<exists>self. snd (Hvu_init fs cfg md n) = Inr self"
    using a by (elim conjE) (rule Hvu_init_entries)
qed

theorem Hvu_init_outcomes_witness:
  "Hvu_init (files_of ''/d/test.csv'' two_videos) cfg0 ''trai'' 10 = (cfg0, Inl AssertionError) \<and>
   snd (Hvu_init (files_of ''/d/test.csv'' two_videos) cfg_single ''test'' 10) = Inr hvu_two \<and>
   (\<exists>ls. files_of ''/d/test.csv'' two_videos (split_file cfg_single ''test'') = Some ls \<and> ls \<noteq> [] \<and>
      path_to_videos hvu_two \<noteq> []) \<and>
   files_of ''/d/test.csv'' two_videos (split_file cfg0 ''val'') = None \<and>
   snd (Hvu_init (files_of ''/d/test.csv'' two_videos) cfg0 ''val'' 10) = Inl AssertionError \<and>
   files_of ''/d/val.csv'' [] (split_file cfg0 ''val'') = Some [] \<and>
   parse_all cfg0 [] = Inr [] \<and>
   snd (Hvu_init (files_of ''/d/val.csv'' []) cfg0 ''val'' 10) = Inl AssertionError \<and>
   files_of ''/d/train.csv'' [''abc''] (split_file cfg0 ''train'') = Some [''abc''] \<and>
   parse_all cfg0 [''abc''] = Inl ValueError \<and>
   snd (Hvu_init (files_of ''/d/train.csv'' [''abc'']) cfg0 ''train'' 10) = Inl ValueError \<and>
   parse_all cfg0 two_videos =
     Inr [(''a.mp4'', [0, 2], [1, 0, 1, 0]), (''b.mp4'', [1], [0, 1, 0, 0])] \<and>
   0 < init_clips cfg0 ''test'' \<and>
   (\<exists>self. snd (Hvu_init (files_of ''/d/test.csv'' two_videos) cfg0 ''test'' 10) = Inr self)"
proof -
  have m: "''trai'' \<notin> set [''train'', ''val'', ''test'']" "''val'' \<in> set [''train'', ''val'', ''test'']"
    "''train'' \<in> set [''train'', ''val'', ''test'']" "''test'' \<in> set [''train'', ''val'', ''test'']"
    by simp_all
  have 1: "Hvu_init (files_of ''/d/test.csv'' two_videos) cfg0 ''trai'' 10 = (cfg0, Inl AssertionError)"
    using Hvu_init_outcomes [of "''trai''" cfg0 10 "files_of ''/d/test.csv'' two_videos"] m(1)
    by (elim conjE) simp
  have s: "snd (Hvu_init (files_of ''/d/test.csv'' two_videos) cfg_single ''test'' 10) = Inr hvu_two"
    by code_simp
  have 2: "\<exists>ls. files_of ''/d/test.csv'' two_videos (split_file cfg_single ''test'') = Some ls \<and> ls \<noteq> [] \<and>
      path_to_videos hvu_two \<noteq> []"
    using Hvu_init_outcomes [of "''test''" cfg_single 10 "files_of ''/d/test.csv'' two_videos"] s
    by (elim conjE) simp
  have f3: "files_of ''/d/test.csv'' two_videos (split_file cfg0 ''val'') = None"
    by code_simp
  have 3: "snd (Hvu_init (files_of ''/d/test.csv'' two_videos) cfg0 ''val'' 10) = Inl AssertionError"
    using Hvu_init_outcomes [of "''val''" cfg0 10 "files_of ''/d/test.csv'' two_videos"] m(2) f3
    by (elim conjE) simp
  have f4: "files_of ''/d/val.csv'' [] (split_file cfg0 ''val'') = Some []" "parse_all cfg0 [] = Inr []"
    by code_simp+
  have 4: "snd (Hvu_init (files_of ''/d/val.csv'' []) cfg0 ''val'' 10) = Inl AssertionError"
    using Hvu_init_outcomes [of "''val''" cfg0 10 "files_of ''/d/val.csv'' []"] m(2) f4
    by (elim conjE) simp
  have f5: "files_of ''/d/train.csv'' [''abc''] (split_file cfg0 ''train'') = Some [''abc'']"
    "parse_all cfg0 [''abc''] = Inl ValueError"
    by code_simp+
  have 5: "snd (Hvu_init (files_of ''/d/train.csv'' [''abc'']) cfg0 ''train'' 10) = Inl ValueError"
    using Hvu_init_outcomes [of "''train''" cfg0 10 "files_of ''/d/train.csv'' [''abc'']"] m(3) f5
    by (elim conjE) simp
  have f6: "files_of ''/d/test.csv'' two_videos (split_file cfg0 ''test'') = Some two_videos"
    "parse_all cfg0 two_videos =
       Inr [(''a.mp4'', [0, 2], [1, 0, 1, 0]), (''b.mp4'', [1], [0, 1, 0, 0])]"
    "two_videos \<noteq> []" "0 < init_clips cfg0 ''test''"
    by code_simp+
  have 6: "\<exists>self. snd (Hvu_init (files_of ''/d/test.csv'' two_videos) cfg0 ''test'' 10) = Inr self"
    using Hvu_init_outcomes [of "''test''" cfg0 10 "files_of ''/d/test.csv'' two_videos"] m(4) f6
    by (elim conjE) simp
  show ?thesis
    using 1 s 2 f3 3 f4 4 f5 5 f6(2,4) 6 by (intro conjI)
qed

text \<open>
  C7 as the spec states it does not hold: the split file exists and holds one line
  without a separator, so no entry results, and the constructor fails with a
  \<open>ValueError\<close> from unpacking the line, not with an assertion error.
\<close>

theorem Hvu_init_malformed_line_counterexample:
  "files_of ''/d/train.csv'' [''abc''] (split_file cfg0 ''train'') = Some [''abc''] \<and>
   snd (Hvu_init (files_of ''/d/train.csv'' [''abc'']) cfg0 ''train'' 10) = Inl ValueError \<and>
   snd (Hvu_init (files_of ''/d/train.csv'' [''abc'']) cfg0 ''train'' 10) \<noteq> Inl AssertionError"
  by code_simp

section \<open>Claims about the constructed object\<close>

text \<open>
  C9. After a construction that returns, \<open>_path_to_videos\<close>, \<open>_labels\<close> and
  \<open>_spatial_temporal_idx\<close> have the same length, the number of lines of the split file
  times \<open>_num_clips\<close>; \<open>__len__\<close> and \<open>num_videos\<close> return it; it is positive;
  entry \<open>i\<close> of \<open>_spatial_temporal_idx\<close> is \<open>i mod _num_clips\<close>; and no sequence of
  calls of \<open>__getitem__\<close>, whatever the libraries and the configuration do, changes
  any of the three lists.
\<close>

theorem Hvu_init_lengths:
  assumes "Hvu_init fs cfg md n = (cfg', Inr self)"
  shows "\<exists>ls. fs (split_file cfg md) = Some ls \<and>
     int (length (path_to_videos self)) = int (length ls) * num_clips self \<and>
     length (labels self) = length (path_to_videos self) \<and>
     length (spatial_temporal_idx self) = length (path_to_videos self) \<and>
     Hvu_len self = int (length (path_to_videos self)) \<and>
     num_videos self = int (length (path_to_videos self)) \<and>
     0 < Hvu_len self \<and>
     (\<forall>i < length (spatial_temporal_idx self).
        spatial_temporal_idx self ! i = int i mod num_clips self) \<and>
     (\<forall>(env :: ('a, 'c, 'f, 'i) env) calls.
        path_to_videos (getitems env calls self) = path_to_videos self \<and>
        labels (getitems env calls self) = labels self \<and>
        spatial_temporal_idx (getitems env calls self) = spatial_temporal_idx self \<and>
        Hvu_len (getitems env calls self) = Hvu_len self \<and>
        num_videos (getitems env calls self) = num_videos self)"
proof (rule Hvu_init_Inr [OF assms])
  fix ls rs
  assume f: "fs (split_file cfg md) = Some ls" "rs \<noteq> []" "length rs = length ls"
    "0 < num_clips self"
    and p: "path_to_videos self =
         concat (map (\<lambda>r. replicate (nat (num_clips self)) (path_join (DATA_PATH_PREFIX cfg) (fst r))) rs)"
    and l: "labels self = concat (map (\<lambda>r. replicate (nat (num_clips self)) (snd (snd r))) rs)"
    and s: "spatial_temporal_idx self = concat (map (\<lambda>r. map int [0..<nat (num_clips self)]) rs)"
  let ?n = "nat (num_clips self)"
  have n: "int ?n = num_clips self" "0 < ?n" using f(4) by simp_all
  have lp: "length (path_to_videos self) = length ls * ?n"
    by (simp add: p length_concat_replicate f(3))
  have ll: "length (labels self) = length ls * ?n"
    by (simp add: l length_concat_replicate f(3))
  have lst: "length (spatial_temporal_idx self) = length ls * ?n"
    by (simp add: s length_concat_const f(3))
  have 1: "int (length (path_to_videos self)) = int (length ls) * num_clips self"
    using lp n(1) by (metis of_nat_mult)
  have "ls \<noteq> []" using f(2,3) by auto
  then have pos: "0 < length (path_to_videos self)"
    using lp n(2) by simp
  have idx: "\<forall>i < length (spatial_temporal_idx self).
        spatial_temporal_idx self ! i = int i mod num_clips self"
  proof (intro allI impI)
    fix i assume i: "i < length (spatial_temporal_idx self)"
    then have "i < length rs * length (map int [0..<?n])" using lst f(3) by simp
    then have "concat (map (\<lambda>r. map int [0..<?n]) rs) ! i
                 = map int [0..<?n] ! (i mod length (map int [0..<?n]))"
      by (rule concat_const_nth)
    also have "\<dots> = int (i mod ?n)" using n(2) by simp
    also have "\<dots> = int i mod num_clips self" using n(1) by (simp add: zmod_int)
    finally show "spatial_temporal_idx self ! i = int i mod num_clips self"
      by (simp add: s)
  qed
  have fr: "\<forall>(env :: ('a, 'c, 'f, 'i) env) calls.
        path_to_videos (getitems env calls self) = path_to_videos self \<and>
        labels (getitems env calls self) = labels self \<and>
        spatial_temporal_idx (getitems env calls self) = spatial_temporal_idx self \<and>
        Hvu_len (getitems env calls self) = Hvu_len self \<and>
        num_videos (getitems env calls self) = num_videos self"
  proof (intro allI)
    fix env :: "('a, 'c, 'f, 'i) env" and calls
    have "same_dataset self (getitems env calls self)" by (rule getitems_same)
    then show "path_to_videos (getitems env calls self) = path_to_videos self \<and>
        labels (getitems env calls self) = labels self \<and>
        spatial_temporal_idx (getitems env calls self) = spatial_temporal_idx self \<and>
        Hvu_len (getitems env calls self) = Hvu_len self \<and>
        num_videos (getitems env calls self) = num_videos self"
      by (simp add: same_dataset_def Hvu_len_def num_videos_def)
  qed
  show ?thesis
    using f(1) 1 lp ll lst pos idx fr by (simp add: Hvu_len_def num_videos_def)
qed

theorem Hvu_init_lengths_witness:
  "Hvu_init files_test cfg0 ''test'' 10 = (cfg0, Inr hvu_grid) \<and>
   files_test (split_file cfg0 ''test'') = Some two_videos \<and>
   int (length (path_to_videos hvu_grid)) = int (length two_videos) * num_clips hvu_grid \<and>
   Hvu_len hvu_grid = int (length (path_to_videos hvu_grid)) \<and>
   0 < Hvu_len hvu_grid \<and>
   7 < length (spatial_temporal_idx hvu_grid) \<and>
   spatial_temporal_idx hvu_grid ! 7 = int 7 mod num_clips hvu_grid \<and>
   path_to_videos (getitems (env_from (\<lambda>i. True)) [(cfg0, Idx 3), (cfg_single, Idx 0)] hvu_grid)
     = path_to_videos hvu_grid"
proof -
  have f: "files_test (split_file cfg0 ''test'') = Some two_videos" by code_simp
  have i: "7 < length (spatial_temporal_idx hvu_grid)" by code_simp
  from Hvu_init_lengths [OF init_grid] obtain ls where
    ls: "files_test (split_file cfg0 ''test'') = Some ls"
    and a: "int (length (path_to_videos hvu_grid)) = int (length ls) * num_clips hvu_grid"
    and b: "Hvu_len hvu_grid = int (length (path_to_videos hvu_grid))" "0 < Hvu_len hvu_grid"
    and c: "\<forall>i < length (spatial_temporal_idx hvu_grid).
        spatial_temporal_idx hvu_grid ! i = int i mod num_clips hvu_grid"
    and d: "\<forall>(env :: (unit, string, string list, string list) env) calls.
        path_to_videos (getitems env calls hvu_grid) = path_to_videos hvu_grid \<and>
        labels (getitems env calls hvu_grid) = labels hvu_grid \<and>
        spatial_temporal_idx (getitems env calls hvu_grid) = spatial_temporal_idx hvu_grid \<and>
        Hvu_len (getitems env calls hvu_grid) = Hvu_len hvu_grid \<and>
        num_videos (getitems env calls hvu_grid) = num_videos hvu_grid"
    by (elim exE conjE) (rule that)
  have e: "ls = two_videos" using ls f by simp
  have g: "spatial_temporal_idx hvu_grid ! 7 = int 7 mod num_clips hvu_grid"
    using c i by (elim allE impE)
  have h: "path_to_videos (getitems (env_from (\<lambda>i. True)) [(cfg0, Idx 3), (cfg_single, Idx 0)] hvu_grid)
     = path_to_videos hvu_grid"
    using d by (elim allE conjE)
  show ?thesis
    using init_grid f a [unfolded e] b i g h by (intro conjI)
qed

section \<open>Claims about the sampling parameters\<close>

text \<open>
  C6. In mode train, with a configuration whose \<open>TRAIN_JITTER_SCALES\<close> and
  \<open>SHORT_CYCLE_FACTORS\<close> have their two entries: for a short-cycle index \<open>s\<close> of 0 or 1
  the crop size is \<open>round(SHORT_CYCLE_FACTORS[s] * DEFAULT_S)\<close>, for any other or no
  short-cycle index it is \<open>TRAIN_CROP_SIZE\<close>; whenever \<open>DEFAULT_S > 0\<close> the minimum
  scale is \<open>round(float(min_scale) * crop_size / DEFAULT_S)\<close> with that crop size, and
  otherwise it is \<open>TRAIN_JITTER_SCALES[0]\<close>; the maximum scale is always
  \<open>TRAIN_JITTER_SCALES[1]\<close>. So with no short-cycle index and \<open>DEFAULT_S \<le> 0\<close> the
  configured values are used unchanged. Products and quotients are those of floating
  point: the exact result rounded by \<open>fl\<close>.
\<close>

theorem short_cycle_scales:
  assumes "mode self = ''train''"
    and "2 \<le> length (DATA_TRAIN_JITTER_SCALES cfg)"
    and "2 \<le> length (MULTIGRID_SHORT_CYCLE_FACTORS cfg)"
  shows "\<exists>sc. sample_scales env cfg self index short_cycle_idx = Inr sc \<and>
     temporal_sample_index sc = - 1 \<and> spatial_sample_index sc = - 1 \<and>
     max_scale sc = DATA_TRAIN_JITTER_SCALES cfg ! 1 \<and>
     (\<forall>s \<in> {0, 1}. short_cycle_idx = Some s \<longrightarrow>
        crop_size sc =
          py_round (fl env (MULTIGRID_SHORT_CYCLE_FACTORS cfg ! nat s
                            * fl env (of_int (MULTIGRID_DEFAULT_S cfg))))) \<and>
     (short_cycle_idx \<notin> {Some 0, Some 1} \<longrightarrow> crop_size sc = DATA_TRAIN_CROP_SIZE cfg) \<and>
     (0 < MULTIGRID_DEFAULT_S cfg \<longrightarrow>
        min_scale sc =
          py_round (fl env (fl env (fl env (of_int (DATA_TRAIN_JITTER_SCALES cfg ! 0))
                                    * fl env (of_int (crop_size sc)))
                            / fl env (of_int (MULTIGRID_DEFAULT_S cfg))))) \<and>
     (MULTIGRID_DEFAULT_S cfg \<le> 0 \<longrightarrow> min_scale sc = DATA_TRAIN_JITTER_SCALES cfg ! 0) \<and>
     (short_cycle_idx = None \<and> MULTIGRID_DEFAULT_S cfg \<le> 0 \<longrightarrow>
        sc = \<lparr>temporal_sample_index = - 1, spatial_sample_index = - 1,
              min_scale = DATA_TRAIN_JITTER_SCALES cfg ! 0,
              max_scale = DATA_TRAIN_JITTER_SCALES cfg ! 1,
              crop_size = DATA_TRAIN_CROP_SIZE cfg\<rparr>)"
proof -
  have j0: "py_get (DATA_TRAIN_JITTER_SCALES cfg) 0 = Inr (DATA_TRAIN_JITTER_SCALES cfg ! 0)"
    using assms(2) by (auto simp: py_get_def py_index_def)
  have j1: "py_get (DATA_TRAIN_JITTER_SCALES cfg) 1 = Inr (DATA_TRAIN_JITTER_SCALES cfg ! 1)"
    using assms(2) by (auto simp: py_get_def py_index_def)
  have f0: "py_get (MULTIGRID_SHORT_CYCLE_FACTORS cfg) 0 = Inr (MULTIGRID_SHORT_CYCLE_FACTORS cfg ! 0)"
    using assms(3) by (auto simp: py_get_def py_index_def)
  have f1: "py_get (MULTIGRID_SHORT_CYCLE_FACTORS cfg) 1 = Inr (MULTIGRID_SHORT_CYCLE_FACTORS cfg ! 1)"
    using assms(3) by (auto simp: py_get_def py_index_def)
  consider "short_cycle_idx = Some 0" | "short_cycle_idx = Some 1"
    | "short_cycle_idx \<notin> {Some 0, Some 1}" by auto
  then show ?thesis
  proof cases
    case 1
    then show ?thesis
      by (simp add: sample_scales_def assms(1) j0 j1 f0 float_of_int_def fmul_def fdiv_def)
  next
    case 2
    then show ?thesis
      by (simp add: sample_scales_def assms(1) j0 j1 f1 float_of_int_def fmul_def fdiv_def)
  next
    case 3
    then show ?thesis
      by (simp add: sample_scales_def assms(1) j0 j1 float_of_int_def fmul_def fdiv_def)
  qed
qed

theorem short_cycle_scales_witness:
  "mode hvu_train = ''train'' \<and> 2 \<le> length (DATA_TRAIN_JITTER_SCALES cfg_multigrid) \<and>
   2 \<le> length (MULTIGRID_SHORT_CYCLE_FACTORS cfg_multigrid) \<and>
   0 < MULTIGRID_DEFAULT_S cfg_multigrid \<and>
   sample_scales (env_from (\<lambda>i. True)) cfg_multigrid hvu_train 0 (Some 0) =
     Inr \<lparr>temporal_sample_index = - 1, spatial_sample_index = - 1,
          min_scale = 128, max_scale = 320, crop_size = 112\<rparr> \<and>
   (\<exists>sc. sample_scales (env_from (\<lambda>i. True)) cfg_multigrid hvu_train 0 (Some 0) = Inr sc \<and>
      crop_size sc =
        py_round (fl (env_from (\<lambda>i. True)) (MULTIGRID_SHORT_CYCLE_FACTORS cfg_multigrid ! nat 0
                            * fl (env_from (\<lambda>i. True)) (of_int (MULTIGRID_DEFAULT_S cfg_multigrid)))) \<and>
      min_scale sc =
          py_round (fl (env_from (\<lambda>i. True))
            (fl (env_from (\<lambda>i. True)) (fl (env_from (\<lambda>i. True)) (of_int (DATA_TRAIN_JITTER_SCALES cfg_multigrid ! 0))
                                    * fl (env_from (\<lambda>i. True)) (of_int (crop_size sc)))
                            / fl (env_from (\<lambda>i. True)) (of_int (MULTIGRID_DEFAULT_S cfg_multigrid)))))"
proof -
  have h: "mode hvu_train = ''train''" "2 \<le> length (DATA_TRAIN_JITTER_SCALES cfg_multigrid)"
    "2 \<le> length (MULTIGRID_SHORT_CYCLE_FACTORS cfg_multigrid)"
    by (simp_all add: hvu_train_def cfg_multigrid_def cfg0_def)
  have p: "0 < MULTIGRID_DEFAULT_S cfg_multigrid" by (simp add: cfg_multigrid_def)
  have v: "sample_scales (env_from (\<lambda>i. True)) cfg_multigrid hvu_train 0 (Some 0) =
     Inr \<lparr>temporal_sample_index = - 1, spatial_sample_index = - 1,
          min_scale = 128, max_scale = 320, crop_size = 112\<rparr>"
    by code_simp
  from short_cycle_scales [OF h, of "env_from (\<lambda>i. True)" 0 "Some 0"] obtain sc where
    a: "sample_scales (env_from (\<lambda>i. True)) cfg_multigrid hvu_train 0 (Some 0) = Inr sc"
    and b: "\<forall>s \<in> {0, 1}. Some (0::int) = Some s \<longrightarrow>
        crop_size sc =
          py_round (fl (env_from (\<lambda>i. True)) (MULTIGRID_SHORT_CYCLE_FACTORS cfg_multigrid ! nat s
                            * fl (env_from (\<lambda>i. True)) (of_int (MULTIGRID_DEFAULT_S cfg_multigrid))))"
    and c: "0 < MULTIGRID_DEFAULT_S cfg_multigrid \<longrightarrow>
        min_scale sc =
          py_round (fl (env_from (\<lambda>i. True))
            (fl (env_from (\<lambda>i. True)) (fl (env_from (\<lambda>i. True)) (of_int (DATA_TRAIN_JITTER_SCALES cfg_multigrid ! 0))
                                    * fl (env_from (\<lambda>i. True)) (of_int (crop_size sc)))
                            / fl (env_from (\<lambda>i. True)) (of_int (MULTIGRID_DEFAULT_S cfg_multigrid))))"
    by (elim exE conjE) (rule that)
  have b': "crop_size sc =
        py_round (fl (env_from (\<lambda>i. True)) (MULTIGRID_SHORT_CYCLE_FACTORS cfg_multigrid ! nat 0
                            * fl (env_from (\<lambda>i. True)) (of_int (MULTIGRID_DEFAULT_S cfg_multigrid))))"
    using b by simp
  have c': "min_scale sc =
          py_round (fl (env_from (\<lambda>i. True))
            (fl (env_from (\<lambda>i. True)) (fl (env_from (\<lambda>i. True)) (of_int (DATA_TRAIN_JITTER_SCALES cfg_multigrid ! 0))
                                    * fl (env_from (\<lambda>i. True)) (of_int (crop_size sc)))
                            / fl (env_from (\<lambda>i. True)) (of_int (MULTIGRID_DEFAULT_S cfg_multigrid))))"
    using c p by (elim impE)
  have "\<exists>sc. sample_scales (env_from (\<lambda>i. True)) cfg_multigrid hvu_train 0 (Some 0) = Inr sc \<and>
      crop_size sc =
        py_round (fl (env_from (\<lambda>i. True)) (MULTIGRID_SHORT_CYCLE_FACTORS cfg_multigrid ! nat 0
                            * fl (env_from (\<lambda>i. True)) (of_int (MULTIGRID_DEFAULT_S cfg_multigrid)))) \<and>
      min_scale sc =
          py_round (fl (env_from (\<lambda>i. True))
            (fl (env_from (\<lambda>i. True)) (fl (env_from (\<lambda>i. True)) (of_int (DATA_TRAIN_JITTER_SCALES cfg_multigrid ! 0))
                                    * fl (env_from (\<lambda>i. True)) (of_int (crop_size sc)))
                            / fl (env_from (\<lambda>i. True)) (of_int (MULTIGRID_DEFAULT_S cfg_multigrid))))"
    using a b' c' by (intro exI conjI)
  then show ?thesis using h p v by (intro conjI)
qed

text \<open>
  C3. In mode test, with a positive number of spatial crops: the constructor leaves the
  configuration as it is and stores \<open>NUM_ENSEMBLE_VIEWS * NUM_SPATIAL_CROPS\<close> entries
  per line of the split file, one after the other. Called with the configuration as the
  constructor left it, \<open>__getitem__\<close> derives for every valid index \<open>i\<close> the temporal
  index \<open>_spatial_temporal_idx[i] // NUM_SPATIAL_CROPS\<close>, which lies in
  \<open>[0, NUM_ENSEMBLE_VIEWS)\<close>, and, for more than one crop, the spatial index
  \<open>_spatial_temporal_idx[i] % NUM_SPATIAL_CROPS\<close>. For more than one crop, every pair
  of a view \<open>t\<close> and a crop \<open>s\<close> is the pair of exactly one clip of each video.
\<close>

theorem test_mode_grid:
  assumes "Hvu_init fs cfg ''test'' n = (cfg', Inr self)"
    and "0 < TEST_NUM_SPATIAL_CROPS cfg"
  shows "cfg' = cfg \<and>
     num_clips self = TEST_NUM_ENSEMBLE_VIEWS cfg * TEST_NUM_SPATIAL_CROPS cfg \<and>
     (\<exists>ls rs. fs (split_file cfg ''test'') = Some ls \<and> parse_all cfg ls = Inr rs \<and>
        length rs = length ls \<and>
        path_to_videos self =
          concat (map (\<lambda>r. replicate (nat (TEST_NUM_ENSEMBLE_VIEWS cfg * TEST_NUM_SPATIAL_CROPS cfg))
                              (path_join (DATA_PATH_PREFIX cfg) (fst r))) rs) \<and>
        length (path_to_videos self) =
          length ls * nat (TEST_NUM_ENSEMBLE_VIEWS cfg * TEST_NUM_SPATIAL_CROPS cfg)) \<and>
     (\<forall>i < length (path_to_videos self).
        \<exists>sc. sample_scales env cfg' self (int i) short_cycle_idx = Inr sc \<and>
          temporal_sample_index sc = spatial_temporal_idx self ! i div TEST_NUM_SPATIAL_CROPS cfg \<and>
          0 \<le> temporal_sample_index sc \<and> temporal_sample_index sc < TEST_NUM_ENSEMBLE_VIEWS cfg \<and>
          (1 < TEST_NUM_SPATIAL_CROPS cfg \<longrightarrow>
             spatial_sample_index sc = spatial_temporal_idx self ! i mod TEST_NUM_SPATIAL_CROPS cfg)) \<and>
     (1 < TEST_NUM_SPATIAL_CROPS cfg \<longrightarrow>
        (\<forall>j t s. j * nat (num_clips self) < length (path_to_videos self) \<and>
           0 \<le> t \<and> t < TEST_NUM_ENSEMBLE_VIEWS cfg \<and> 0 \<le> s \<and> s < TEST_NUM_SPATIAL_CROPS cfg \<longrightarrow>
           (\<exists>!k. k < nat (num_clips self) \<and>
              (\<exists>sc. sample_scales env cfg' self (int (j * nat (num_clips self) + k)) short_cycle_idx = Inr sc \<and>
                 temporal_sample_index sc = t \<and> spatial_sample_index sc = s))))"
proof (rule Hvu_init_Inr [OF assms(1)])
  fix ls rs
  let ?V = "TEST_NUM_ENSEMBLE_VIEWS cfg" and ?S = "TEST_NUM_SPATIAL_CROPS cfg"
  let ?n = "nat (num_clips self)"
  assume c: "cfg' = init_cfg cfg ''test''"
    and f: "fs (split_file cfg ''test'') = Some ls" "parse_all cfg ls = Inr rs"
      "length rs = length ls"
    and m: "mode self = ''test''"
    and nc: "num_clips self = init_clips cfg ''test''" "0 < num_clips self"
    and p: "path_to_videos self =
         concat (map (\<lambda>r. replicate (nat (num_clips self)) (path_join (DATA_PATH_PREFIX cfg) (fst r))) rs)"
    and s: "spatial_temporal_idx self = concat (map (\<lambda>r. map int [0..<nat (num_clips self)]) rs)"
  have c': "cfg' = cfg" using c by (simp add: init_cfg_def)
  have N: "num_clips self = ?V * ?S" using nc(1) by (simp add: init_clips_def)
  have n: "int ?n = ?V * ?S" "0 < ?n" using nc(2) N by simp_all
  have S0: "?S \<noteq> 0" using assms(2) by simp
  have lp: "length (path_to_videos self) = length ls * ?n"
    by (simp add: p length_concat_replicate f(3))
  have lst: "length (spatial_temporal_idx self) = length ls * ?n"
    by (simp add: s length_concat_const f(3))
  have sti: "spatial_temporal_idx self ! i = int (i mod ?n)" if "i < length ls * ?n" for i
  proof -
    have "i < length rs * length (map int [0..<?n])" using that f(3) by simp
    then have "concat (map (\<lambda>r. map int [0..<?n]) rs) ! i
                 = map int [0..<?n] ! (i mod length (map int [0..<?n]))"
      by (rule concat_const_nth)
    also have "\<dots> = int (i mod ?n)" using n(2) by simp
    finally show ?thesis by (simp add: s)
  qed
  have rng: "0 \<le> int (i mod ?n)" "int (i mod ?n) < ?V * ?S" for i
  proof -
    show "0 \<le> int (i mod ?n)" by simp
    have "i mod ?n < ?n" using n(2) by simp
    then have "int (i mod ?n) < int ?n" by (simp only: of_nat_less_iff)
    then show "int (i mod ?n) < ?V * ?S" using n(1) by simp
  qed
  have sc: "sample_scales env cfg' self (int i) short_cycle_idx =
     Inr \<lparr>temporal_sample_index = int (i mod ?n) div ?S,
          spatial_sample_index = (if ?S > 1 then int (i mod ?n) mod ?S else 1),
          min_scale = DATA_TEST_CROP_SIZE cfg, max_scale = DATA_TEST_CROP_SIZE cfg,
          crop_size = DATA_TEST_CROP_SIZE cfg\<rparr>" if "i < length ls * ?n" for i
    using sample_scales_test [OF m, of i cfg env short_cycle_idx] that lst S0 sti [OF that]
    by (simp add: c')
  have A: "\<exists>ls rs. fs (split_file cfg ''test'') = Some ls \<and> parse_all cfg ls = Inr rs \<and>
        length rs = length ls \<and>
        path_to_videos self =
          concat (map (\<lambda>r. replicate (nat (?V * ?S)) (path_join (DATA_PATH_PREFIX cfg) (fst r))) rs) \<and>
        length (path_to_videos self) = length ls * nat (?V * ?S)"
    using f p lp by (auto simp: N)
  have B: "\<forall>i < length (path_to_videos self).
        \<exists>sc. sample_scales env cfg' self (int i) short_cycle_idx = Inr sc \<and>
          temporal_sample_index sc = spatial_temporal_idx self ! i div ?S \<and>
          0 \<le> temporal_sample_index sc \<and> temporal_sample_index sc < ?V \<and>
          (1 < ?S \<longrightarrow> spatial_sample_index sc = spatial_temporal_idx self ! i mod ?S)"
  proof (intro allI impI)
    fix i assume "i < length (path_to_videos self)"
    then have i: "i < length ls * ?n" using lp by simp
    have "0 \<le> int (i mod ?n) div ?S"
      by (rule int_div_nonneg [OF assms(2) rng(1)])
    moreover have "int (i mod ?n) div ?S < ?V"
      by (rule int_div_less [OF assms(2) rng(2)])
    ultimately show "\<exists>sc. sample_scales env cfg' self (int i) short_cycle_idx = Inr sc \<and>
          temporal_sample_index sc = spatial_temporal_idx self ! i div ?S \<and>
          0 \<le> temporal_sample_index sc \<and> temporal_sample_index sc < ?V \<and>
          (1 < ?S \<longrightarrow> spatial_sample_index sc = spatial_temporal_idx self ! i mod ?S)"
      by (simp add: sc [OF i] sti [OF i])
  qed
  have C: "1 < ?S \<longrightarrow>
        (\<forall>j t s. j * ?n < length (path_to_videos self) \<and>
           0 \<le> t \<and> t < ?V \<and> 0 \<le> s \<and> s < ?S \<longrightarrow>
           (\<exists>!k. k < ?n \<and>
              (\<exists>sc. sample_scales env cfg' self (int (j * ?n + k)) short_cycle_idx = Inr sc \<and>
                 temporal_sample_index sc = t \<and> spatial_sample_index sc = s)))"
  proof (intro allI impI)
    fix j t s
    assume S1: "1 < ?S"
      and h: "j * ?n < length (path_to_videos self) \<and> 0 \<le> t \<and> t < ?V \<and> 0 \<le> s \<and> s < ?S"
    then have j: "j < length ls" using lp n(2) by simp
    have t: "0 \<le> t" "t < ?V" and s': "0 \<le> s" "s < ?S" using h by simp_all
    have idx: "j * ?n + k < length ls * ?n" if "k < ?n" for k
    proof -
      have "j * ?n + k < j * ?n + ?n" using that by simp
      also have "\<dots> = Suc j * ?n" by simp
      also have "\<dots> \<le> length ls * ?n" using j by (simp only: mult_le_mono1 Suc_leI)
      finally show ?thesis .
    qed
    have md: "(j * ?n + k) mod ?n = k" if "k < ?n" for k using that by simp
    have val: "sample_scales env cfg' self (int (j * ?n + k)) short_cycle_idx =
       Inr \<lparr>temporal_sample_index = int k div ?S, spatial_sample_index = int k mod ?S,
            min_scale = DATA_TEST_CROP_SIZE cfg, max_scale = DATA_TEST_CROP_SIZE cfg,
            crop_size = DATA_TEST_CROP_SIZE cfg\<rparr>" if "k < ?n" for k
      using sc [OF idx [OF that]] md [OF that] S1 by simp
    let ?k = "nat (t * ?S + s)"
    have nn: "0 \<le> t * ?S + s" using t(1) s'(1) assms(2) by simp
    have "t * ?S + s < (t + 1) * ?S" using s'(2) by (simp add: algebra_simps)
    also have "\<dots> \<le> ?V * ?S" using t(2) assms(2) by (simp add: mult_right_mono)
    finally have lt: "t * ?S + s < ?V * ?S" .
    have k: "?k < ?n" using lt nn N by simp
    have ik: "int ?k = t * ?S + s" using nn by simp
    have dm: "int ?k div ?S = t" "int ?k mod ?S = s"
      unfolding ik using int_divmod_unique [OF assms(2) s'] by simp_all
    show "\<exists>!k. k < ?n \<and>
              (\<exists>sc. sample_scales env cfg' self (int (j * ?n + k)) short_cycle_idx = Inr sc \<and>
                 temporal_sample_index sc = t \<and> spatial_sample_index sc = s)"
    proof (rule ex1I [of _ ?k])
      show "?k < ?n \<and> (\<exists>sc. sample_scales env cfg' self (int (j * ?n + ?k)) short_cycle_idx = Inr sc \<and>
                 temporal_sample_index sc = t \<and> spatial_sample_index sc = s)"
        using k val [OF k] dm by simp
    next
      fix k
      assume a: "k < ?n \<and> (\<exists>sc. sample_scales env cfg' self (int (j * ?n + k)) short_cycle_idx = Inr sc \<and>
                 temporal_sample_index sc = t \<and> spatial_sample_index sc = s)"
      then have k': "k < ?n" by simp
      from a val [OF k'] have "int k div ?S = t" "int k mod ?S = s" by auto
      then have "int k = t * ?S + s" by (metis div_mult_mod_eq)
      then show "k = ?k" by simp
    qed
  qed
  show ?thesis using c' N A B C by (intro conjI)
qed

theorem test_mode_grid_witness:
  "Hvu_init files_test cfg0 ''test'' 10 = (cfg0, Inr hvu_grid) \<and>
   0 < TEST_NUM_SPATIAL_CROPS cfg0 \<and> 1 < TEST_NUM_SPATIAL_CROPS cfg0 \<and>
   7 < length (path_to_videos hvu_grid) \<and>
   (\<exists>sc. sample_scales (env_from (\<lambda>i. True)) cfg0 hvu_grid (int 7) None = Inr sc \<and>
      temporal_sample_index sc = spatial_temporal_idx hvu_grid ! 7 div TEST_NUM_SPATIAL_CROPS cfg0 \<and>
      0 \<le> temporal_sample_index sc \<and> temporal_sample_index sc < TEST_NUM_ENSEMBLE_VIEWS cfg0 \<and>
      spatial_sample_index sc = spatial_temporal_idx hvu_grid ! 7 mod TEST_NUM_SPATIAL_CROPS cfg0) \<and>
   (1 * nat (num_clips hvu_grid) < length (path_to_videos hvu_grid) \<and>
      (0::int) \<le> 1 \<and> 1 < TEST_NUM_ENSEMBLE_VIEWS cfg0 \<and> (0::int) \<le> 2 \<and> 2 < TEST_NUM_SPATIAL_CROPS cfg0) \<and>
   (\<exists>!k. k < nat (num_clips hvu_grid) \<and>
      (\<exists>sc. sample_scales (env_from (\<lambda>i. True)) cfg0 hvu_grid
               (int (1 * nat (num_clips hvu_grid) + k)) None = Inr sc \<and>
         temporal_sample_index sc = 1 \<and> spatial_sample_index sc = 2))"
proof -
  have p: "0 < TEST_NUM_SPATIAL_CROPS cfg0" "1 < TEST_NUM_SPATIAL_CROPS cfg0"
    by (simp_all add: cfg0_def)
  have i: "7 < length (path_to_videos hvu_grid)" by (simp add: hvu_grid_def)
  have g: "1 * nat (num_clips hvu_grid) < length (path_to_videos hvu_grid) \<and>
      (0::int) \<le> 1 \<and> 1 < TEST_NUM_ENSEMBLE_VIEWS cfg0 \<and> (0::int) \<le> 2 \<and> 2 < TEST_NUM_SPATIAL_CROPS cfg0"
    by (simp add: hvu_grid_def cfg0_def)
  note t = test_mode_grid [OF init_grid p(1), of "env_from (\<lambda>i. True)" None]
  have b: "\<forall>i < length (path_to_videos hvu_grid).
        \<exists>sc. sample_scales (env_from (\<lambda>i. True)) cfg0 hvu_grid (int i) None = Inr sc \<and>
          temporal_sample_index sc = spatial_temporal_idx hvu_grid ! i div TEST_NUM_SPATIAL_CROPS cfg0 \<and>
          0 \<le> temporal_sample_index sc \<and> temporal_sample_index sc < TEST_NUM_ENSEMBLE_VIEWS cfg0 \<and>
          (1 < TEST_NUM_SPATIAL_CROPS cfg0 \<longrightarrow>
             spatial_sample_index sc = spatial_temporal_idx hvu_grid ! i mod TEST_NUM_SPATIAL_CROPS cfg0)"
    using t by (elim conjE)
  have c: "1 < TEST_NUM_SPATIAL_CROPS cfg0 \<longrightarrow>
        (\<forall>j t s. j * nat (num_clips hvu_grid) < length (path_to_videos hvu_grid) \<and>
           0 \<le> t \<and> t < TEST_NUM_ENSEMBLE_VIEWS cfg0 \<and> 0 \<le> s \<and> s < TEST_NUM_SPATIAL_CROPS cfg0 \<longrightarrow>
           (\<exists>!k. k < nat (num_clips hvu_grid) \<and>
              (\<exists>sc. sample_scales (env_from (\<lambda>i. True)) cfg0 hvu_grid
                       (int (j * nat (num_clips hvu_grid) + k)) None = Inr sc \<and>
                 temporal_sample_index sc = t \<and> spatial_sample_index sc = s)))"
    using t by (elim conjE)
  from b [rule_format, OF i] obtain sc where
    s: "sample_scales (env_from (\<lambda>i. True)) cfg0 hvu_grid (int 7) None = Inr sc"
      "temporal_sample_index sc = spatial_temporal_idx hvu_grid ! 7 div TEST_NUM_SPATIAL_CROPS cfg0"
      "0 \<le> temporal_sample_index sc" "temporal_sample_index sc < TEST_NUM_ENSEMBLE_VIEWS cfg0"
      "1 < TEST_NUM_SPATIAL_CROPS cfg0 \<longrightarrow>
         spatial_sample_index sc = spatial_temporal_idx hvu_grid ! 7 mod TEST_NUM_SPATIAL_CROPS cfg0"
    by (elim exE conjE) (rule that)
  have B: "\<exists>sc. sample_scales (env_from (\<lambda>i. True)) cfg0 hvu_grid (int 7) None = Inr sc \<and>
      temporal_sample_index sc = spatial_temporal_idx hvu_grid ! 7 div TEST_NUM_SPATIAL_CROPS cfg0 \<and>
      0 \<le> temporal_sample_index sc \<and> temporal_sample_index sc < TEST_NUM_ENSEMBLE_VIEWS cfg0 \<and>
      spatial_sample_index sc = spatial_temporal_idx hvu_grid ! 7 mod TEST_NUM_SPATIAL_CROPS cfg0"
    using s p(2) by (intro exI [of _ sc] conjI) simp_all
  have C: "\<exists>!k. k < nat (num_clips hvu_grid) \<and>
      (\<exists>sc. sample_scales (env_from (\<lambda>i. True)) cfg0 hvu_grid
               (int (1 * nat (num_clips hvu_grid) + k)) None = Inr sc \<and>
         temporal_sample_index sc = 1 \<and> spatial_sample_index sc = 2)"
    using c [rule_format, OF p(2) g] .
  have g': "1 * nat (num_clips hvu_grid) < length (path_to_videos hvu_grid)"
    "(0::int) \<le> 1" "1 < TEST_NUM_ENSEMBLE_VIEWS cfg0" "(0::int) \<le> 2" "2 < TEST_NUM_SPATIAL_CROPS cfg0"
    using g by simp_all
  show ?thesis using init_grid p i B g' C by (intro conjI)
qed

section \<open>Claims about labels and returned values\<close>

lemma set_labels_one_hot:
  assumes "set_labels v L = Inr v'" and "\<forall>l \<in> set L. 0 \<le> l \<and> l < int (length v)"
  shows "length v' = length v \<and> (\<forall>q < length v. v' ! q = (if int q \<in> set L then 1 else v ! q))"
  using assms
proof (induction L arbitrary: v)
  case Nil
  then show ?case by simp
next
  case (Cons l L)
  have l: "0 \<le> l" "l < int (length v)" using Cons.prems(2) by simp_all
  then have i: "py_index (length v) l = Inr (nat l)" by (simp add: py_index_def)
  let ?v = "v[nat l := 1]"
  have s: "set_labels ?v L = Inr v'" using Cons.prems(1) i by simp
  have "\<forall>l \<in> set L. 0 \<le> l \<and> l < int (length ?v)" using Cons.prems(2) by simp
  from Cons.IH [OF s this]
  have len: "length v' = length v"
    and ih: "\<forall>q < length v. v' ! q = (if int q \<in> set L then 1 else ?v ! q)" by simp_all
  have "v' ! q = (if int q \<in> set (l # L) then 1 else v ! q)" if q: "q < length v" for q
  proof (cases "int q = l")
    case True
    then have "nat l = q" by simp
    then show ?thesis using ih q True by simp
  next
    case False
    then have "nat l \<noteq> q" using l(1) by auto
    then show ?thesis using ih q False by simp
  qed
  then show ?case using len by simp
qed

lemma parse_line_Inr:
  assumes "parse_line cfg l = Inr (p, L, oh)"
  shows "0 \<le> MODEL_NUM_CLASSES cfg \<and>
     set_labels (replicate (nat (MODEL_NUM_CLASSES cfg)) 0) L = Inr oh"
  using assms
  by (auto simp: parse_line_def torch_zeros_def split: sum.splits list.splits if_splits)

text \<open>
  C1. Let line \<open>j\<close> of the split file parse to the label list \<open>L\<close> and the label vector
  \<open>oh\<close>, every label of \<open>L\<close> being at least 0 and less than \<open>NUM_CLASSES\<close>. Then the
  vector stored for each clip \<open>k\<close> of that video is \<open>oh\<close>, it has length
  \<open>NUM_CLASSES\<close>, and its entry at \<open>q\<close> is 1 if \<open>q\<close> is in \<open>L\<close> and 0 otherwise.
  Calls of \<open>__getitem__\<close> change the object in the metadata dicts only. On every
  object \<open>s\<close> that differs from the constructed one in the contents of these dicts
  only: the vector stored for the clip is \<open>oh\<close>; whenever \<open>__getitem__\<close> returns a
  value for that clip, the label vector in it is \<open>oh\<close>; and it does return such a
  value when some attempt \<open>t\<close> opens the container of the clip and decodes frames,
  the earlier attempts having opened no container and none of them being later than
  half of the retries.
\<close>

theorem one_hot_labels:
  assumes "Hvu_init fs cfg md n = (cfg', Inr self)"
    and "fs (split_file cfg md) = Some ls" and "j < length ls"
    and "parse_line cfg (ls ! j) = Inr (p, L, oh)"
    and "\<forall>l \<in> set L. 0 \<le> l \<and> l < MODEL_NUM_CLASSES cfg"
    and "k < nat (num_clips self)"
  shows "labels self ! (j * nat (num_clips self) + k) = oh \<and>
     length oh = nat (MODEL_NUM_CLASSES cfg) \<and>
     (\<forall>q < nat (MODEL_NUM_CLASSES cfg). oh ! q = (if int q \<in> set L then 1 else 0)) \<and>
     (\<forall>(env :: ('a, 'c, 'f, 'i) env) calls. same_dataset self (getitems env calls self)) \<and>
     (\<forall>s. same_dataset self s \<longrightarrow>
        labels s ! (j * nat (num_clips self) + k) = oh \<and>
        j * nat (num_clips self) + k < length (path_to_videos s) \<and>
        (\<exists>m. map_of (video_meta s) (int (j * nat (num_clips self) + k)) = Some m) \<and>
        (\<forall>(env :: ('a, 'c, 'f, 'i) env) cfg2 arg sc fr lbl s'.
           getitem env cfg2 s arg =
             (Inr (returned env cfg2 s sc fr (int (j * nat (num_clips self) + k)) lbl), s') \<longrightarrow>
           lbl = oh) \<and>
        (\<forall>(env :: ('a, 'c, 'f, 'i) env) cfg2 arg t sc vc fr m m'.
           arg_index arg = int (j * nat (num_clips self) + k) \<and> t < nat (num_retries s) \<and>
           (\<forall>u < t. get_video_container env u cfg2 (path_to_videos s ! (j * nat (num_clips self) + k)) = None
                    \<and> int u \<le> num_retries s div 2) \<and>
           sample_scales env cfg2 s (int (j * nat (num_clips self) + k)) (arg_cycle arg) = Inr sc \<and>
           get_video_container env t cfg2 (path_to_videos s ! (j * nat (num_clips self) + k)) = Some vc \<and>
           map_of (video_meta s) (int (j * nat (num_clips self) + k)) = Some m \<and>
           decode env t cfg2 vc (get_random_sampling_rate env cfg2)
             (temporal_sample_index sc) (min_scale sc) m = (Some fr, m') \<longrightarrow>
           getitem env cfg2 s arg =
             (Inr (returned env cfg2 s sc fr (int (j * nat (num_clips self) + k)) oh),
              s\<lparr>video_meta := od_set (video_meta s) (int (j * nat (num_clips self) + k)) m'\<rparr>)))"
proof -
  let ?n = "nat (num_clips self)"
  let ?i = "j * ?n + k"
  have stored: "labels self ! ?i = oh" and valid: "?i < length (path_to_videos self)"
  proof (atomize (full), rule Hvu_init_Inr [OF assms(1)])
    fix ls' rs
    assume f: "fs (split_file cfg md) = Some ls'" "parse_all cfg ls' = Inr rs"
      "length rs = length ls'"
      and p: "path_to_videos self =
         concat (map (\<lambda>r. replicate (nat (num_clips self)) (path_join (DATA_PATH_PREFIX cfg) (fst r))) rs)"
      and l: "labels self = concat (map (\<lambda>r. replicate (nat (num_clips self)) (snd (snd r))) rs)"
    have e: "ls' = ls" using f(1) assms(2) by simp
    have j: "j < length rs" using assms(3) f(3) e by simp
    have "parse_line cfg (ls ! j) = Inr (rs ! j)"
      using parse_all_nth [OF f(2)] assms(3) e by simp
    then have r: "rs ! j = (p, L, oh)" using assms(4) by simp
    have "labels self ! ?i = snd (snd (rs ! j))"
      unfolding l by (rule concat_replicate_nth [OF j assms(6)])
    then have 1: "labels self ! ?i = oh" using r by simp
    have "?i < j * ?n + ?n" using assms(6) by simp
    also have "\<dots> = Suc j * ?n" by simp
    also have "\<dots> \<le> length rs * ?n" using j by (simp only: mult_le_mono1 Suc_leI)
    finally have 2: "?i < length (path_to_videos self)"
      by (simp add: p length_concat_replicate)
    show "labels self ! ?i = oh \<and> ?i < length (path_to_videos self)"
      using 1 2 by (intro conjI)
  qed
  from parse_line_Inr [OF assms(4)] have N: "0 \<le> MODEL_NUM_CLASSES cfg"
    and sl: "set_labels (replicate (nat (MODEL_NUM_CLASSES cfg)) 0) L = Inr oh" by simp_all
  have "\<forall>l \<in> set L. 0 \<le> l \<and> l < int (length (replicate (nat (MODEL_NUM_CLASSES cfg)) (0::real)))"
    using assms(5) N by simp
  from set_labels_one_hot [OF sl this]
  have len: "length oh = nat (MODEL_NUM_CLASSES cfg)"
    and ent: "\<forall>q < nat (MODEL_NUM_CLASSES cfg). oh ! q = (if int q \<in> set L then 1 else 0)"
    by simp_all
  have reach: "\<forall>(env :: ('a, 'c, 'f, 'i) env) calls. same_dataset self (getitems env calls self)"
    by (intro allI) (rule getitems_same)
  have used: "\<forall>s. same_dataset self s \<longrightarrow>
        labels s ! ?i = oh \<and> ?i < length (path_to_videos s) \<and>
        (\<exists>m. map_of (video_meta s) (int ?i) = Some m) \<and>
        (\<forall>(env :: ('a, 'c, 'f, 'i) env) cfg2 arg sc fr lbl s'.
           getitem env cfg2 s arg = (Inr (returned env cfg2 s sc fr (int ?i) lbl), s') \<longrightarrow>
           lbl = oh) \<and>
        (\<forall>(env :: ('a, 'c, 'f, 'i) env) cfg2 arg t sc vc fr m m'.
           arg_index arg = int ?i \<and> t < nat (num_retries s) \<and>
           (\<forall>u < t. get_video_container env u cfg2 (path_to_videos s ! ?i) = None
                    \<and> int u \<le> num_retries s div 2) \<and>
           sample_scales env cfg2 s (int ?i) (arg_cycle arg) = Inr sc \<and>
           get_video_container env t cfg2 (path_to_videos s ! ?i) = Some vc \<and>
           map_of (video_meta s) (int ?i) = Some m \<and>
           decode env t cfg2 vc (get_random_sampling_rate env cfg2)
             (temporal_sample_index sc) (min_scale sc) m = (Some fr, m') \<longrightarrow>
           getitem env cfg2 s arg =
             (Inr (returned env cfg2 s sc fr (int ?i) oh),
              s\<lparr>video_meta := od_set (video_meta s) (int ?i) m'\<rparr>))"
  proof (intro allI impI)
    fix s
    assume sd: "same_dataset self s"
    have e: "labels s = labels self" "path_to_videos s = path_to_videos self"
      using sd by (simp_all add: same_dataset_def)
    have st: "labels s ! ?i = oh" using stored e by simp
    have va: "?i < length (path_to_videos s)" using valid e by simp
    have ex: "\<exists>m. map_of (video_meta s) (int ?i) = Some m"
      by (rule used_samples(3) [OF assms(1) sd va])
    have ret: "\<forall>(env :: ('a, 'c, 'f, 'i) env) cfg2 arg sc fr lbl s'.
        getitem env cfg2 s arg = (Inr (returned env cfg2 s sc fr (int ?i) lbl), s') \<longrightarrow>
        lbl = oh"
    proof (intro allI impI)
      fix env :: "('a, 'c, 'f, 'i) env" and cfg2 arg sc fr lbl s'
      assume g: "getitem env cfg2 s arg = (Inr (returned env cfg2 s sc fr (int ?i) lbl), s')"
      from assms(1) sd g show "lbl = oh"
      proof (rule getitem_Inr)
        fix sc' idx fr'
        assume "returned env cfg2 s sc fr (int ?i) lbl
                  = returned env cfg2 s sc' fr' (int idx) (labels s ! idx)"
        note ri = returned_inject [OF this]
        have "j * nat (num_clips self) + k = idx"
          using ri [THEN conjunct1] by (simp only: of_nat_eq_iff)
        then show "lbl = oh" using ri [THEN conjunct2] st by simp
      qed
    qed
    have tot: "\<forall>(env :: ('a, 'c, 'f, 'i) env) cfg2 arg t sc vc fr m m'.
           arg_index arg = int ?i \<and> t < nat (num_retries s) \<and>
           (\<forall>u < t. get_video_container env u cfg2 (path_to_videos s ! ?i) = None
                    \<and> int u \<le> num_retries s div 2) \<and>
           sample_scales env cfg2 s (int ?i) (arg_cycle arg) = Inr sc \<and>
           get_video_container env t cfg2 (path_to_videos s ! ?i) = Some vc \<and>
           map_of (video_meta s) (int ?i) = Some m \<and>
           decode env t cfg2 vc (get_random_sampling_rate env cfg2)
             (temporal_sample_index sc) (min_scale sc) m = (Some fr, m') \<longrightarrow>
           getitem env cfg2 s arg =
             (Inr (returned env cfg2 s sc fr (int ?i) oh),
              s\<lparr>video_meta := od_set (video_meta s) (int ?i) m'\<rparr>)"
    proof (intro allI impI, elim conjE)
      fix env :: "('a, 'c, 'f, 'i) env" and cfg2 arg t sc vc fr m m'
      assume a: "arg_index arg = int ?i" "t < nat (num_retries s)"
        "\<forall>u < t. get_video_container env u cfg2 (path_to_videos s ! ?i) = None
                    \<and> int u \<le> num_retries s div 2"
        "sample_scales env cfg2 s (int ?i) (arg_cycle arg) = Inr sc"
        "get_video_container env t cfg2 (path_to_videos s ! ?i) = Some vc"
        "map_of (video_meta s) (int ?i) = Some m"
        "decode env t cfg2 vc (get_random_sampling_rate env cfg2)
             (temporal_sample_index sc) (min_scale sc) m = (Some fr, m')"
      show "getitem env cfg2 s arg =
             (Inr (returned env cfg2 s sc fr (int ?i) oh),
              s\<lparr>video_meta := od_set (video_meta s) (int ?i) m'\<rparr>)"
        using getitem_attempt [OF assms(1) sd a(1) va a(2) a(3) a(4) a(5) a(6) a(7)] st
        by simp
    qed
    show "labels s ! ?i = oh \<and> ?i < length (path_to_videos s) \<and>
        (\<exists>m. map_of (video_meta s) (int ?i) = Some m) \<and>
        (\<forall>(env :: ('a, 'c, 'f, 'i) env) cfg2 arg sc fr lbl s'.
           getitem env cfg2 s arg = (Inr (returned env cfg2 s sc fr (int ?i) lbl), s') \<longrightarrow>
           lbl = oh) \<and>
        (\<forall>(env :: ('a, 'c, 'f, 'i) env) cfg2 arg t sc vc fr m m'.
           arg_index arg = int ?i \<and> t < nat (num_retries s) \<and>
           (\<forall>u < t. get_video_container env u cfg2 (path_to_videos s ! ?i) = None
                    \<and> int u \<le> num_retries s div 2) \<and>
           sample_scales env cfg2 s (int ?i) (arg_cycle arg) = Inr sc \<and>
           get_video_container env t cfg2 (path_to_videos s ! ?i) = Some vc \<and>
           map_of (video_meta s) (int ?i) = Some m \<and>
           decode env t cfg2 vc (get_random_sampling_rate env cfg2)
             (temporal_sample_index sc) (min_scale sc) m = (Some fr, m') \<longrightarrow>
           getitem env cfg2 s arg =
             (Inr (returned env cfg2 s sc fr (int ?i) oh),
              s\<lparr>video_meta := od_set (video_meta s) (int ?i) m'\<rparr>))"
      by (rule conjI [OF st conjI [OF va conjI [OF ex conjI [OF ret tot]]]])
  qed
  show ?thesis
    by (rule conjI [OF stored conjI [OF len conjI [OF ent conjI [OF reach used]]]])
qed

theorem one_hot_labels_witness:
  "Hvu_init files_test cfg0 ''test'' 10 = (cfg0, Inr hvu_grid) \<and>
   files_test (split_file cfg0 ''test'') = Some two_videos \<and> 1 < length two_videos \<and>
   parse_line cfg0 (two_videos ! 1) = Inr (''b.mp4'', [1], [0, 1, 0, 0]) \<and>
   (0::int) \<le> 1 \<and> 1 < MODEL_NUM_CLASSES cfg0 \<and>
   2 < nat (num_clips hvu_grid) \<and>
   labels hvu_grid ! (1 * nat (num_clips hvu_grid) + 2) = [0, 1, 0, 0] \<and>
   length [0, 1, 0, 0 :: real] = nat (MODEL_NUM_CLASSES cfg0) \<and>
   hvu_grid_used = getitems env_trace [(cfg0, Idx 8)] hvu_grid \<and>
   same_dataset hvu_grid hvu_grid_used \<and>
   labels hvu_grid_used ! (1 * nat (num_clips hvu_grid) + 2) = [0, 1, 0, 0] \<and>
   arg_index (Idx 8) = int (1 * nat (num_clips hvu_grid) + 2) \<and>
   2 < nat (num_retries hvu_grid_used) \<and>
   get_video_container env_trace 0 cfg0
     (path_to_videos hvu_grid_used ! (1 * nat (num_clips hvu_grid) + 2)) = None \<and>
   get_video_container env_trace 1 cfg0
     (path_to_videos hvu_grid_used ! (1 * nat (num_clips hvu_grid) + 2)) = None \<and>
   1 \<le> num_retries hvu_grid_used div 2 \<and>
   sample_scales env_trace cfg0 hvu_grid_used (int (1 * nat (num_clips hvu_grid) + 2))
     (arg_cycle (Idx 8)) = Inr scales8 \<and>
   get_video_container env_trace 2 cfg0
     (path_to_videos hvu_grid_used ! (1 * nat (num_clips hvu_grid) + 2)) = Some ''/v/b.mp4'' \<and>
   map_of (video_meta hvu_grid_used) (int (1 * nat (num_clips hvu_grid) + 2))
     = Some [(''fps'', 30)] \<and>
   decode env_trace 2 cfg0 ''/v/b.mp4'' (get_random_sampling_rate env_trace cfg0)
     (temporal_sample_index scales8) (min_scale scales8) [(''fps'', 30)]
       = (Some [Decoded ''/v/b.mp4''], [(''fps'', 30)]) \<and>
   getitem env_trace cfg0 hvu_grid_used (Idx 8) =
     (Inr (returned env_trace cfg0 hvu_grid_used scales8 [Decoded ''/v/b.mp4'']
             (int (1 * nat (num_clips hvu_grid) + 2)) [0, 1, 0, 0]),
      hvu_grid_used\<lparr>video_meta :=
        od_set (video_meta hvu_grid_used) (int (1 * nat (num_clips hvu_grid) + 2))
          [(''fps'', 30)]\<rparr>) \<and>
   getitem env_trace cfg0 hvu_grid_used (Idx 8) =
     (Inr [PyTensors [[Decoded ''/v/b.mp4'', Normalized, Permuted [3, 0, 1, 2],
                       Sampled 0 2 224 224 224 None None False]],
           PyLabels [0, 1, 0, 0], PyInt 8, PyEmptyDict],
      hvu_grid_used)"
proof -
  have f: "files_test (split_file cfg0 ''test'') = Some two_videos" by code_simp
  have j: "1 < length two_videos" by code_simp
  have p: "parse_line cfg0 (two_videos ! 1) = Inr (''b.mp4'', [1], [0, 1, 0, 0])" by code_simp
  have r: "\<forall>l \<in> set [1]. 0 \<le> l \<and> l < MODEL_NUM_CLASSES cfg0" by (simp add: cfg0_def)
  have k: "2 < nat (num_clips hvu_grid)" by (simp add: hvu_grid_def)
  note t = one_hot_labels [OF init_grid f j p r k]
  have a: "labels hvu_grid ! (1 * nat (num_clips hvu_grid) + 2) = [0, 1, 0, 0]"
    using t by (elim conjE)
  have b: "length [0, 1, 0, 0 :: real] = nat (MODEL_NUM_CLASSES cfg0)"
    using t by (elim conjE)
  have R: "\<forall>(env :: (unit, string, trace list, trace list) env) calls.
      same_dataset hvu_grid (getitems env calls hvu_grid)"
    using t by (elim conjE)
  have u: "hvu_grid_used = getitems env_trace [(cfg0, Idx 8)] hvu_grid" by code_simp
  have sd: "same_dataset hvu_grid hvu_grid_used"
    unfolding u by (rule R [THEN spec, THEN spec])
  have U: "\<forall>s. same_dataset hvu_grid s \<longrightarrow>
        labels s ! (1 * nat (num_clips hvu_grid) + 2) = [0, 1, 0, 0] \<and>
        1 * nat (num_clips hvu_grid) + 2 < length (path_to_videos s) \<and>
        (\<exists>m. map_of (video_meta s) (int (1 * nat (num_clips hvu_grid) + 2)) = Some m) \<and>
        (\<forall>(env :: (unit, string, trace list, trace list) env) (cfg2 :: cfg) arg sc fr lbl s'.
           getitem env cfg2 s arg =
             (Inr (returned env cfg2 s sc fr (int (1 * nat (num_clips hvu_grid) + 2)) lbl), s') \<longrightarrow>
           lbl = [0, 1, 0, 0]) \<and>
        (\<forall>(env :: (unit, string, trace list, trace list) env) (cfg2 :: cfg) arg t sc vc fr m m'.
           arg_index arg = int (1 * nat (num_clips hvu_grid) + 2) \<and> t < nat (num_retries s) \<and>
           (\<forall>u < t. get_video_container env u cfg2 (path_to_videos s ! (1 * nat (num_clips hvu_grid) + 2)) = None
                    \<and> int u \<le> num_retries s div 2) \<and>
           sample_scales env cfg2 s (int (1 * nat (num_clips hvu_grid) + 2)) (arg_cycle arg) = Inr sc \<and>
           get_video_container env t cfg2 (path_to_videos s ! (1 * nat (num_clips hvu_grid) + 2)) = Some vc \<and>
           map_of (video_meta s) (int (1 * nat (num_clips hvu_grid) + 2)) = Some m \<and>
           decode env t cfg2 vc (get_random_sampling_rate env cfg2)
             (temporal_sample_index sc) (min_scale sc) m = (Some fr, m') \<longrightarrow>
           getitem env cfg2 s arg =
             (Inr (returned env cfg2 s sc fr (int (1 * nat (num_clips hvu_grid) + 2)) [0, 1, 0, 0]),
              s\<lparr>video_meta := od_set (video_meta s) (int (1 * nat (num_clips hvu_grid) + 2)) m'\<rparr>))"
    using t by (elim conjE)
  note us = U [THEN spec, THEN mp, OF sd]
  have a': "labels hvu_grid_used ! (1 * nat (num_clips hvu_grid) + 2) = [0, 1, 0, 0]"
    using us by (elim conjE)
  have T: "\<forall>(env :: (unit, string, trace list, trace list) env) (cfg2 :: cfg) arg t sc vc fr m m'.
           arg_index arg = int (1 * nat (num_clips hvu_grid) + 2) \<and> t < nat (num_retries hvu_grid_used) \<and>
           (\<forall>u < t. get_video_container env u cfg2 (path_to_videos hvu_grid_used ! (1 * nat (num_clips hvu_grid) + 2)) = None
                    \<and> int u \<le> num_retries hvu_grid_used div 2) \<and>
           sample_scales env cfg2 hvu_grid_used (int (1 * nat (num_clips hvu_grid) + 2)) (arg_cycle arg) = Inr sc \<and>
           get_video_container env t cfg2 (path_to_videos hvu_grid_used ! (1 * nat (num_clips hvu_grid) + 2)) = Some vc \<and>
           map_of (video_meta hvu_grid_used) (int (1 * nat (num_clips hvu_grid) + 2)) = Some m \<and>
           decode env t cfg2 vc (get_random_sampling_rate env cfg2)
             (temporal_sample_index sc) (min_scale sc) m = (Some fr, m') \<longrightarrow>
           getitem env cfg2 hvu_grid_used arg =
             (Inr (returned env cfg2 hvu_grid_used sc fr (int (1 * nat (num_clips hvu_grid) + 2)) [0, 1, 0, 0]),
              hvu_grid_used\<lparr>video_meta := od_set (video_meta hvu_grid_used) (int (1 * nat (num_clips hvu_grid) + 2)) m'\<rparr>)"
    using us by (elim conjE)
  have h1: "arg_index (Idx 8) = int (1 * nat (num_clips hvu_grid) + 2)"
    by (simp add: arg_index_def hvu_grid_def)
  have h2: "2 < nat (num_retries hvu_grid_used)" by (simp add: hvu_grid_used_def hvu_grid_def)
  have c0: "get_video_container env_trace 0 cfg0
     (path_to_videos hvu_grid_used ! (1 * nat (num_clips hvu_grid) + 2)) = None"
    by (simp add: env_trace_def)
  have c1: "get_video_container env_trace 1 cfg0
     (path_to_videos hvu_grid_used ! (1 * nat (num_clips hvu_grid) + 2)) = None"
    by (simp add: env_trace_def)
  have hf: "1 \<le> num_retries hvu_grid_used div 2" by (simp add: hvu_grid_used_def hvu_grid_def)
  have pre: "\<forall>u < 2. get_video_container env_trace u cfg0
      (path_to_videos hvu_grid_used ! (1 * nat (num_clips hvu_grid) + 2)) = None
        \<and> int u \<le> num_retries hvu_grid_used div 2"
  proof (intro allI impI)
    fix u :: nat
    assume "u < 2"
    then have "u = 0 \<or> u = 1" by arith
    then show "get_video_container env_trace u cfg0
      (path_to_videos hvu_grid_used ! (1 * nat (num_clips hvu_grid) + 2)) = None
        \<and> int u \<le> num_retries hvu_grid_used div 2"
    proof
      assume "u = 0"
      then show ?thesis using c0 hf by simp
    next
      assume "u = 1"
      then show ?thesis using c1 hf by simp
    qed
  qed
  have h3: "sample_scales env_trace cfg0 hvu_grid_used (int (1 * nat (num_clips hvu_grid) + 2))
     (arg_cycle (Idx 8)) = Inr scales8" by code_simp
  have h4: "get_video_container env_trace 2 cfg0
     (path_to_videos hvu_grid_used ! (1 * nat (num_clips hvu_grid) + 2)) = Some ''/v/b.mp4''"
    by code_simp
  have h5: "map_of (video_meta hvu_grid_used) (int (1 * nat (num_clips hvu_grid) + 2))
     = Some [(''fps'', 30)]" by code_simp
  have h6: "decode env_trace 2 cfg0 ''/v/b.mp4'' (get_random_sampling_rate env_trace cfg0)
     (temporal_sample_index scales8) (min_scale scales8) [(''fps'', 30)]
       = (Some [Decoded ''/v/b.mp4''], [(''fps'', 30)])"
    by code_simp
  have H: "arg_index (Idx 8) = int (1 * nat (num_clips hvu_grid) + 2) \<and> 2 < nat (num_retries hvu_grid_used) \<and>
           (\<forall>u < 2. get_video_container env_trace u cfg0 (path_to_videos hvu_grid_used ! (1 * nat (num_clips hvu_grid) + 2)) = None
                    \<and> int u \<le> num_retries hvu_grid_used div 2) \<and>
           sample_scales env_trace cfg0 hvu_grid_used (int (1 * nat (num_clips hvu_grid) + 2)) (arg_cycle (Idx 8)) = Inr scales8 \<and>
           get_video_container env_trace 2 cfg0 (path_to_videos hvu_grid_used ! (1 * nat (num_clips hvu_grid) + 2)) = Some ''/v/b.mp4'' \<and>
           map_of (video_meta hvu_grid_used) (int (1 * nat (num_clips hvu_grid) + 2)) = Some [(''fps'', 30)] \<and>
           decode env_trace 2 cfg0 ''/v/b.mp4'' (get_random_sampling_rate env_trace cfg0)
             (temporal_sample_index scales8) (min_scale scales8) [(''fps'', 30)]
               = (Some [Decoded ''/v/b.mp4''], [(''fps'', 30)])"
    by (rule conjI [OF h1 conjI [OF h2 conjI [OF pre conjI [OF h3 conjI [OF h4 conjI [OF h5 h6]]]]]])
  have g: "getitem env_trace cfg0 hvu_grid_used (Idx 8) =
     (Inr (returned env_trace cfg0 hvu_grid_used scales8 [Decoded ''/v/b.mp4'']
             (int (1 * nat (num_clips hvu_grid) + 2)) [0, 1, 0, 0]),
      hvu_grid_used\<lparr>video_meta :=
        od_set (video_meta hvu_grid_used) (int (1 * nat (num_clips hvu_grid) + 2))
          [(''fps'', 30)]\<rparr>)"
    using H by (rule T [rule_format])
  have v: "getitem env_trace cfg0 hvu_grid_used (Idx 8) =
     (Inr [PyTensors [[Decoded ''/v/b.mp4'', Normalized, Permuted [3, 0, 1, 2],
                       Sampled 0 2 224 224 224 None None False]],
           PyLabels [0, 1, 0, 0], PyInt 8, PyEmptyDict],
      hvu_grid_used)"
    by code_simp
  have r': "(0::int) \<le> 1" "1 < MODEL_NUM_CLASSES cfg0" using r by simp_all
  show ?thesis
    using init_grid f j p r' k a b u sd a' h1 h2 c0 c1 hf h3 h4 h5 h6 g v by (intro conjI)
qed

text \<open>
  C5, as amended. Calls of \<open>__getitem__\<close> change the constructed object in the metadata
  dicts only. On every object \<open>s\<close> that differs from the constructed one in the contents
  of these dicts only, every value that \<open>__getitem__\<close> returns is a tuple of four
  components built from frames \<open>fr\<close> that some attempt decoded from the container of a
  sample \<open>idx\<close> of the object: the processed frames after pathway packing, the label
  vector of sample \<open>idx\<close>, the index \<open>idx\<close>, and an empty dict; and when the object
  augments and \<open>AUG.NUM_SAMPLE > 1\<close>, the first three components are lists with one
  entry per sample. The processed frames of sample number \<open>k\<close> are, on an augmenting
  object: the frames permuted by \<open>[0, 3, 1, 2]\<close>, taken apart into images, augmented,
  put together again, permuted by \<open>[0, 2, 3, 1]\<close>, normalised, permuted by
  \<open>[3, 0, 1, 2]\<close>, sampled spatially with the relative aspect and scales and the motion
  shift of the configuration, and, when the object erases, erased between two
  permutations by \<open>[1, 0, 2, 3]\<close>; on any other object: the frames normalised, permuted
  by \<open>[3, 0, 1, 2]\<close> and sampled spatially. The object augments only in mode train with
  \<open>AUG.ENABLE\<close>, and erases only if moreover \<open>AUG.RE_PROB > 0\<close>. Every valid index has
  a metadata dict; and when some attempt \<open>t\<close> on a valid index opens the container and
  decodes frames, the earlier attempts having opened no container and none of them
  being later than half of the retries, such a value is returned for that index, and
  the metadata dict of the index becomes the one the decoder returned.
\<close>

theorem getitem_value:
  assumes "Hvu_init fs icfg md n = (icfg', Inr self)" and "same_dataset self s"
  shows "(\<forall>calls. same_dataset self (getitems env calls self)) \<and>
     aug s = (md = ''train'' \<and> AUG_ENABLE icfg) \<and>
     rand_erase s = (md = ''train'' \<and> AUG_ENABLE icfg \<and> 0 < AUG_RE_PROB icfg) \<and>
     (\<forall>i < length (path_to_videos s). \<exists>m. map_of (video_meta s) (int i) = Some m) \<and>
     (\<forall>r s'. getitem env cfg s arg = (Inr r, s') \<longrightarrow>
       (\<exists>sc i_try idx vc m m' fr.
          sample_scales env cfg s (arg_index arg) (arg_cycle arg) = Inr sc \<and>
          i_try < nat (num_retries s) \<and> idx < length (path_to_videos s) \<and>
          get_video_container env i_try cfg (path_to_videos s ! idx) = Some vc \<and>
          decode env i_try cfg vc (get_random_sampling_rate env cfg)
            (temporal_sample_index sc) (min_scale sc) m = (Some fr, m') \<and>
          r = returned env cfg s sc fr (int idx) (labels s ! idx))) \<and>
     (\<forall>i t sc vc fr m m'.
        arg_index arg = int i \<and> i < length (path_to_videos s) \<and> t < nat (num_retries s) \<and>
        (\<forall>u < t. get_video_container env u cfg (path_to_videos s ! i) = None
                 \<and> int u \<le> num_retries s div 2) \<and>
        sample_scales env cfg s (int i) (arg_cycle arg) = Inr sc \<and>
        get_video_container env t cfg (path_to_videos s ! i) = Some vc \<and>
        map_of (video_meta s) (int i) = Some m \<and>
        decode env t cfg vc (get_random_sampling_rate env cfg)
          (temporal_sample_index sc) (min_scale sc) m = (Some fr, m') \<longrightarrow>
        getitem env cfg s arg =
          (Inr (returned env cfg s sc fr (int i) (labels s ! i)),
           s\<lparr>video_meta := od_set (video_meta s) (int i) m'\<rparr>)) \<and>
     (\<forall>sc fr idx lbl.
        length (returned env cfg s sc fr idx lbl) = 4 \<and>
        returned env cfg s sc fr idx lbl ! 3 = PyEmptyDict \<and>
        returned env cfg s sc fr idx lbl =
          (if aug s \<and> 1 < AUG_NUM_SAMPLE cfg then
             [PyList (map (\<lambda>k. PyTensors (pack_pathway_output env cfg (processed env cfg s sc k fr)))
                        [0..<nat (AUG_NUM_SAMPLE cfg)]),
              PyList (replicate (nat (AUG_NUM_SAMPLE cfg)) (PyLabels lbl)),
              PyList (replicate (nat (AUG_NUM_SAMPLE cfg)) (PyInt idx)),
              PyEmptyDict]
           else
             [PyTensors (pack_pathway_output env cfg (processed env cfg s sc 0 fr)),
              PyLabels lbl, PyInt idx, PyEmptyDict])) \<and>
     (\<forall>sc k fr.
        processed env cfg s sc k fr =
        (if aug s then
           (let imgs = create_random_augment env k cfg fr
                         (map (to_pil_image env) (unbind env (permute env [0, 3, 1, 2] fr)));
                normalized =
                  permute env [3, 0, 1, 2]
                    (tensor_normalize env cfg
                       (permute env [0, 2, 3, 1] (stack env (map (to_tensor env) imgs))));
                sampled =
                  spatial_sampling env k cfg (spatial_sample_index sc)
                    (min_scale sc) (max_scale sc) (crop_size sc)
                    (if length (DATA_TRAIN_JITTER_ASPECT_RELATIVE cfg) = 0 then None
                     else Some (DATA_TRAIN_JITTER_ASPECT_RELATIVE cfg))
                    (if length (DATA_TRAIN_JITTER_SCALES_RELATIVE cfg) = 0 then None
                     else Some (DATA_TRAIN_JITTER_SCALES_RELATIVE cfg))
                    (DATA_TRAIN_JITTER_MOTION_SHIFT cfg) normalized
            in if rand_erase s
               then permute env [1, 0, 2, 3]
                      (random_erasing env k cfg (permute env [1, 0, 2, 3] sampled))
               else sampled)
         else
           spatial_sampling env 0 cfg (spatial_sample_index sc)
             (min_scale sc) (max_scale sc) (crop_size sc) None None False
             (permute env [3, 0, 1, 2] (tensor_normalize env cfg fr))))"
proof -
  have R: "\<forall>calls. same_dataset self (getitems env calls self)"
    by (intro allI) (rule getitems_same)
  have D1: "aug s = (md = ''train'' \<and> AUG_ENABLE icfg)"
    by (rule used_samples(5) [OF assms])
  have D2: "rand_erase s = (md = ''train'' \<and> AUG_ENABLE icfg \<and> 0 < AUG_RE_PROB icfg)"
    by (rule used_samples(6) [OF assms])
  have m: "mode s = md" by (rule used_samples(4) [OF assms])
  have E: "\<forall>i < length (path_to_videos s). \<exists>m. map_of (video_meta s) (int i) = Some m"
    by (intro allI impI) (rule used_samples(3) [OF assms])
  have A: "\<forall>r s'. getitem env cfg s arg = (Inr r, s') \<longrightarrow>
       (\<exists>sc i_try idx vc m m' fr.
          sample_scales env cfg s (arg_index arg) (arg_cycle arg) = Inr sc \<and>
          i_try < nat (num_retries s) \<and> idx < length (path_to_videos s) \<and>
          get_video_container env i_try cfg (path_to_videos s ! idx) = Some vc \<and>
          decode env i_try cfg vc (get_random_sampling_rate env cfg)
            (temporal_sample_index sc) (min_scale sc) m = (Some fr, m') \<and>
          r = returned env cfg s sc fr (int idx) (labels s ! idx))"
  proof (intro allI impI)
    fix r s'
    assume g: "getitem env cfg s arg = (Inr r, s')"
    from assms g show "\<exists>sc i_try idx vc m m' fr.
          sample_scales env cfg s (arg_index arg) (arg_cycle arg) = Inr sc \<and>
          i_try < nat (num_retries s) \<and> idx < length (path_to_videos s) \<and>
          get_video_container env i_try cfg (path_to_videos s ! idx) = Some vc \<and>
          decode env i_try cfg vc (get_random_sampling_rate env cfg)
            (temporal_sample_index sc) (min_scale sc) m = (Some fr, m') \<and>
          r = returned env cfg s sc fr (int idx) (labels s ! idx)"
    proof (rule getitem_Inr)
      fix sc i_try idx vc m m' fr
      assume "sample_scales env cfg s (arg_index arg) (arg_cycle arg) = Inr sc"
        "i_try < nat (num_retries s)" "idx < length (path_to_videos s)"
        "get_video_container env i_try cfg (path_to_videos s ! idx) = Some vc"
        "decode env i_try cfg vc (get_random_sampling_rate env cfg)
            (temporal_sample_index sc) (min_scale sc) m = (Some fr, m')"
        "r = returned env cfg s sc fr (int idx) (labels s ! idx)"
      then show ?thesis by (intro exI conjI)
    qed
  qed
  have B: "\<forall>i t sc vc fr m m'.
        arg_index arg = int i \<and> i < length (path_to_videos s) \<and> t < nat (num_retries s) \<and>
        (\<forall>u < t. get_video_container env u cfg (path_to_videos s ! i) = None
                 \<and> int u \<le> num_retries s div 2) \<and>
        sample_scales env cfg s (int i) (arg_cycle arg) = Inr sc \<and>
        get_video_container env t cfg (path_to_videos s ! i) = Some vc \<and>
        map_of (video_meta s) (int i) = Some m \<and>
        decode env t cfg vc (get_random_sampling_rate env cfg)
          (temporal_sample_index sc) (min_scale sc) m = (Some fr, m') \<longrightarrow>
        getitem env cfg s arg =
          (Inr (returned env cfg s sc fr (int i) (labels s ! i)),
           s\<lparr>video_meta := od_set (video_meta s) (int i) m'\<rparr>)"
  proof (intro allI impI, elim conjE)
    fix i t sc vc fr m m'
    assume a: "arg_index arg = int i" "i < length (path_to_videos s)" "t < nat (num_retries s)"
      "\<forall>u < t. get_video_container env u cfg (path_to_videos s ! i) = None
                 \<and> int u \<le> num_retries s div 2"
      "sample_scales env cfg s (int i) (arg_cycle arg) = Inr sc"
      "get_video_container env t cfg (path_to_videos s ! i) = Some vc"
      "map_of (video_meta s) (int i) = Some m"
      "decode env t cfg vc (get_random_sampling_rate env cfg)
          (temporal_sample_index sc) (min_scale sc) m = (Some fr, m')"
    show "getitem env cfg s arg =
          (Inr (returned env cfg s sc fr (int i) (labels s ! i)),
           s\<lparr>video_meta := od_set (video_meta s) (int i) m'\<rparr>)"
      by (rule getitem_attempt [OF assms a])
  qed
  have C: "\<forall>sc fr idx lbl.
        length (returned env cfg s sc fr idx lbl) = 4 \<and>
        returned env cfg s sc fr idx lbl ! 3 = PyEmptyDict \<and>
        returned env cfg s sc fr idx lbl =
          (if aug s \<and> 1 < AUG_NUM_SAMPLE cfg then
             [PyList (map (\<lambda>k. PyTensors (pack_pathway_output env cfg (processed env cfg s sc k fr)))
                        [0..<nat (AUG_NUM_SAMPLE cfg)]),
              PyList (replicate (nat (AUG_NUM_SAMPLE cfg)) (PyLabels lbl)),
              PyList (replicate (nat (AUG_NUM_SAMPLE cfg)) (PyInt idx)),
              PyEmptyDict]
           else
             [PyTensors (pack_pathway_output env cfg (processed env cfg s sc 0 fr)),
              PyLabels lbl, PyInt idx, PyEmptyDict])"
    by (simp add: returned_def)
  have "aug s \<longrightarrow> mode s = ''train''" using D1 m by simp
  then have P: "\<forall>sc k fr.
        processed env cfg s sc k fr =
        (if aug s then
           (let imgs = create_random_augment env k cfg fr
                         (map (to_pil_image env) (unbind env (permute env [0, 3, 1, 2] fr)));
                normalized =
                  permute env [3, 0, 1, 2]
                    (tensor_normalize env cfg
                       (permute env [0, 2, 3, 1] (stack env (map (to_tensor env) imgs))));
                sampled =
                  spatial_sampling env k cfg (spatial_sample_index sc)
                    (min_scale sc) (max_scale sc) (crop_size sc)
                    (if length (DATA_TRAIN_JITTER_ASPECT_RELATIVE cfg) = 0 then None
                     else Some (DATA_TRAIN_JITTER_ASPECT_RELATIVE cfg))
                    (if length (DATA_TRAIN_JITTER_SCALES_RELATIVE cfg) = 0 then None
                     else Some (DATA_TRAIN_JITTER_SCALES_RELATIVE cfg))
                    (DATA_TRAIN_JITTER_MOTION_SHIFT cfg) normalized
            in if rand_erase s
               then permute env [1, 0, 2, 3]
                      (random_erasing env k cfg (permute env [1, 0, 2, 3] sampled))
               else sampled)
         else
           spatial_sampling env 0 cfg (spatial_sample_index sc)
             (min_scale sc) (max_scale sc) (crop_size sc) None None False
             (permute env [3, 0, 1, 2] (tensor_normalize env cfg fr)))"
    by (intro allI) (rule processed_chain)
  show ?thesis
    by (rule conjI [OF R conjI [OF D1 conjI [OF D2 conjI [OF E conjI [OF A conjI [OF B
          conjI [OF C P]]]]]]])
qed

theorem getitem_value_witness:
  "Hvu_init files_train cfg_aug ''train'' 10 = (cfg_aug, Inr hvu_aug) \<and>
   hvu_aug_used = getitems env_trace [(cfg_aug, Idx 1)] hvu_aug \<and>
   same_dataset hvu_aug hvu_aug_used \<and>
   aug hvu_aug_used \<and> rand_erase hvu_aug_used \<and> 1 < AUG_NUM_SAMPLE cfg_aug \<and>
   arg_index (Idx 1) = int 1 \<and> 1 < length (path_to_videos hvu_aug_used) \<and>
   (\<exists>m. map_of (video_meta hvu_aug_used) (int 1) = Some m) \<and>
   2 < nat (num_retries hvu_aug_used) \<and>
   get_video_container env_trace 0 cfg_aug (path_to_videos hvu_aug_used ! 1) = None \<and>
   get_video_container env_trace 1 cfg_aug (path_to_videos hvu_aug_used ! 1) = None \<and>
   1 \<le> num_retries hvu_aug_used div 2 \<and>
   sample_scales env_trace cfg_aug hvu_aug_used (int 1) (arg_cycle (Idx 1)) = Inr scales_train \<and>
   get_video_container env_trace 2 cfg_aug (path_to_videos hvu_aug_used ! 1) = Some ''/v/b.mp4'' \<and>
   map_of (video_meta hvu_aug_used) (int 1) = Some [(''fps'', 30)] \<and>
   decode env_trace 2 cfg_aug ''/v/b.mp4'' (get_random_sampling_rate env_trace cfg_aug)
     (temporal_sample_index scales_train) (min_scale scales_train) [(''fps'', 30)]
       = (Some [Decoded ''/v/b.mp4''], [(''fps'', 30)]) \<and>
   getitem env_trace cfg_aug hvu_aug_used (Idx 1) =
     (Inr (returned env_trace cfg_aug hvu_aug_used scales_train [Decoded ''/v/b.mp4''] (int 1)
             (labels hvu_aug_used ! 1)),
      hvu_aug_used\<lparr>video_meta := od_set (video_meta hvu_aug_used) (int 1) [(''fps'', 30)]\<rparr>) \<and>
   (\<exists>sc i_try idx vc m m' fr.
      sample_scales env_trace cfg_aug hvu_aug_used (arg_index (Idx 1)) (arg_cycle (Idx 1)) = Inr sc \<and>
      i_try < nat (num_retries hvu_aug_used) \<and> idx < length (path_to_videos hvu_aug_used) \<and>
      get_video_container env_trace i_try cfg_aug (path_to_videos hvu_aug_used ! idx) = Some vc \<and>
      decode env_trace i_try cfg_aug vc (get_random_sampling_rate env_trace cfg_aug)
        (temporal_sample_index sc) (min_scale sc) m = (Some fr, m') \<and>
      returned env_trace cfg_aug hvu_aug_used scales_train [Decoded ''/v/b.mp4''] (int 1)
          (labels hvu_aug_used ! 1)
        = returned env_trace cfg_aug hvu_aug_used sc fr (int idx) (labels hvu_aug_used ! idx)) \<and>
   returned env_trace cfg_aug hvu_aug_used scales_train [Decoded ''/v/b.mp4''] 1 [0, 1, 0, 0] =
     [PyList (map (\<lambda>k. PyTensors (pack_pathway_output env_trace cfg_aug
                 (processed env_trace cfg_aug hvu_aug_used scales_train k [Decoded ''/v/b.mp4''])))
                [0..<nat (AUG_NUM_SAMPLE cfg_aug)]),
      PyList (replicate (nat (AUG_NUM_SAMPLE cfg_aug)) (PyLabels [0, 1, 0, 0])),
      PyList (replicate (nat (AUG_NUM_SAMPLE cfg_aug)) (PyInt 1)),
      PyEmptyDict] \<and>
   processed env_trace cfg_aug hvu_aug_used scales_train 0 [Decoded ''/v/b.mp4''] = aug_trace 0 \<and>
   processed env_trace cfg_aug hvu_aug_used scales_train 1 [Decoded ''/v/b.mp4''] = aug_trace 1 \<and>
   getitem env_trace cfg_aug hvu_aug_used (Idx 1) =
     (Inr [PyList [PyTensors [aug_trace 0], PyTensors [aug_trace 1]],
           PyList [PyLabels [0, 1, 0, 0], PyLabels [0, 1, 0, 0]],
           PyList [PyInt 1, PyInt 1], PyEmptyDict],
      hvu_aug_used) \<and>
   Hvu_init files_test cfg_single ''test'' 10 = (cfg_single, Inr hvu_two) \<and>
   same_dataset hvu_two hvu_two \<and> \<not> aug hvu_two \<and>
   returned env_trace cfg_single hvu_two scales_single [Decoded ''/v/b.mp4''] 1 [0, 1, 0, 0] =
     [PyTensors (pack_pathway_output env_trace cfg_single
        (processed env_trace cfg_single hvu_two scales_single 0 [Decoded ''/v/b.mp4''])),
      PyLabels [0, 1, 0, 0], PyInt 1, PyEmptyDict] \<and>
   processed env_trace cfg_single hvu_two scales_single 0 [Decoded ''/v/b.mp4''] =
     [Decoded ''/v/b.mp4'', Normalized, Permuted [3, 0, 1, 2],
      Sampled 0 1 224 224 224 None None False] \<and>
   getitem env_trace cfg_single hvu_two (Idx 1) =
     (Inr [PyTensors [[Decoded ''/v/b.mp4'', Normalized, Permuted [3, 0, 1, 2],
                       Sampled 0 1 224 224 224 None None False]],
           PyLabels [0, 1, 0, 0], PyInt 1, PyEmptyDict],
      hvu_two\<lparr>video_meta := [(0, []), (1, [(''fps'', 30)])]\<rparr>)"
proof -
  have R: "\<forall>calls. same_dataset hvu_aug (getitems env_trace calls hvu_aug)"
    using getitem_value [OF init_aug same_dataset_refl, of env_trace cfg_aug "Idx 1"]
    by (elim conjE)
  have u: "hvu_aug_used = getitems env_trace [(cfg_aug, Idx 1)] hvu_aug" by code_simp
  have sd: "same_dataset hvu_aug hvu_aug_used"
    unfolding u by (rule R [THEN spec])
  note t = getitem_value [OF init_aug sd, of env_trace cfg_aug "Idx 1"]
  have D1: "aug hvu_aug_used = (''train'' = ''train'' \<and> AUG_ENABLE cfg_aug)"
    using t by (elim conjE)
  have D2: "rand_erase hvu_aug_used = (''train'' = ''train'' \<and> AUG_ENABLE cfg_aug \<and> 0 < AUG_RE_PROB cfg_aug)"
    using t by (elim conjE)
  have y1: "aug hvu_aug_used" unfolding D1 by (simp add: cfg_aug_def)
  have y2: "rand_erase hvu_aug_used" unfolding D2 by (simp add: cfg_aug_def)
  have y3: "1 < AUG_NUM_SAMPLE cfg_aug" by (simp add: cfg_aug_def)
  have E: "\<forall>i < length (path_to_videos hvu_aug_used). \<exists>m. map_of (video_meta hvu_aug_used) (int i) = Some m"
    using t by (elim conjE)
  have h1: "arg_index (Idx 1) = int 1" by (simp add: arg_index_def)
  have h2: "1 < length (path_to_videos hvu_aug_used)" by code_simp
  have e: "\<exists>m. map_of (video_meta hvu_aug_used) (int 1) = Some m"
    by (rule E [rule_format, OF h2])
  have h3: "2 < nat (num_retries hvu_aug_used)" by code_simp
  have c0: "get_video_container env_trace 0 cfg_aug (path_to_videos hvu_aug_used ! 1) = None"
    by (simp add: env_trace_def)
  have c1: "get_video_container env_trace 1 cfg_aug (path_to_videos hvu_aug_used ! 1) = None"
    by (simp add: env_trace_def)
  have hf: "1 \<le> num_retries hvu_aug_used div 2" by code_simp
  have pre: "\<forall>u < 2. get_video_container env_trace u cfg_aug (path_to_videos hvu_aug_used ! 1) = None
                 \<and> int u \<le> num_retries hvu_aug_used div 2"
  proof (intro allI impI)
    fix u :: nat
    assume "u < 2"
    then have "u = 0 \<or> u = 1" by arith
    then show "get_video_container env_trace u cfg_aug (path_to_videos hvu_aug_used ! 1) = None
                 \<and> int u \<le> num_retries hvu_aug_used div 2"
    proof
      assume "u = 0"
      then show ?thesis using c0 hf by simp
    next
      assume "u = 1"
      then show ?thesis using c1 hf by simp
    qed
  qed
  have h4: "sample_scales env_trace cfg_aug hvu_aug_used (int 1) (arg_cycle (Idx 1)) = Inr scales_train"
    by code_simp
  have h5: "get_video_container env_trace 2 cfg_aug (path_to_videos hvu_aug_used ! 1) = Some ''/v/b.mp4''"
    by code_simp
  have h6: "map_of (video_meta hvu_aug_used) (int 1) = Some [(''fps'', 30)]" by code_simp
  have h7: "decode env_trace 2 cfg_aug ''/v/b.mp4'' (get_random_sampling_rate env_trace cfg_aug)
     (temporal_sample_index scales_train) (min_scale scales_train) [(''fps'', 30)]
       = (Some [Decoded ''/v/b.mp4''], [(''fps'', 30)])" by code_simp
  have H: "arg_index (Idx 1) = int 1 \<and> 1 < length (path_to_videos hvu_aug_used) \<and>
        2 < nat (num_retries hvu_aug_used) \<and>
        (\<forall>u < 2. get_video_container env_trace u cfg_aug (path_to_videos hvu_aug_used ! 1) = None
                 \<and> int u \<le> num_retries hvu_aug_used div 2) \<and>
        sample_scales env_trace cfg_aug hvu_aug_used (int 1) (arg_cycle (Idx 1)) = Inr scales_train \<and>
        get_video_container env_trace 2 cfg_aug (path_to_videos hvu_aug_used ! 1) = Some ''/v/b.mp4'' \<and>
        map_of (video_meta hvu_aug_used) (int 1) = Some [(''fps'', 30)] \<and>
        decode env_trace 2 cfg_aug ''/v/b.mp4'' (get_random_sampling_rate env_trace cfg_aug)
          (temporal_sample_index scales_train) (min_scale scales_train) [(''fps'', 30)]
            = (Some [Decoded ''/v/b.mp4''], [(''fps'', 30)])"
    by (rule conjI [OF h1 conjI [OF h2 conjI [OF h3 conjI [OF pre conjI [OF h4 conjI [OF h5
          conjI [OF h6 h7]]]]]]])
  have B: "\<forall>i t sc vc fr m m'.
        arg_index (Idx 1) = int i \<and> i < length (path_to_videos hvu_aug_used) \<and> t < nat (num_retries hvu_aug_used) \<and>
        (\<forall>u < t. get_video_container env_trace u cfg_aug (path_to_videos hvu_aug_used ! i) = None
                 \<and> int u \<le> num_retries hvu_aug_used div 2) \<and>
        sample_scales env_trace cfg_aug hvu_aug_used (int i) (arg_cycle (Idx 1)) = Inr sc \<and>
        get_video_container env_trace t cfg_aug (path_to_videos hvu_aug_used ! i) = Some vc \<and>
        map_of (video_meta hvu_aug_used) (int i) = Some m \<and>
        decode env_trace t cfg_aug vc (get_random_sampling_rate env_trace cfg_aug)
          (temporal_sample_index sc) (min_scale sc) m = (Some fr, m') \<longrightarrow>
        getitem env_trace cfg_aug hvu_aug_used (Idx 1) =
          (Inr (returned env_trace cfg_aug hvu_aug_used sc fr (int i) (labels hvu_aug_used ! i)),
           hvu_aug_used\<lparr>video_meta := od_set (video_meta hvu_aug_used) (int i) m'\<rparr>)"
    using t by (elim conjE)
  have g: "getitem env_trace cfg_aug hvu_aug_used (Idx 1) =
     (Inr (returned env_trace cfg_aug hvu_aug_used scales_train [Decoded ''/v/b.mp4''] (int 1)
             (labels hvu_aug_used ! 1)),
      hvu_aug_used\<lparr>video_meta := od_set (video_meta hvu_aug_used) (int 1) [(''fps'', 30)]\<rparr>)"
    using H by (rule B [rule_format])
  have A: "\<forall>r s'. getitem env_trace cfg_aug hvu_aug_used (Idx 1) = (Inr r, s') \<longrightarrow>
       (\<exists>sc i_try idx vc m m' fr.
          sample_scales env_trace cfg_aug hvu_aug_used (arg_index (Idx 1)) (arg_cycle (Idx 1)) = Inr sc \<and>
          i_try < nat (num_retries hvu_aug_used) \<and> idx < length (path_to_videos hvu_aug_used) \<and>
          get_video_container env_trace i_try cfg_aug (path_to_videos hvu_aug_used ! idx) = Some vc \<and>
          decode env_trace i_try cfg_aug vc (get_random_sampling_rate env_trace cfg_aug)
            (temporal_sample_index sc) (min_scale sc) m = (Some fr, m') \<and>
          r = returned env_trace cfg_aug hvu_aug_used sc fr (int idx) (labels hvu_aug_used ! idx))"
    using t by (elim conjE)
  note a = A [rule_format, OF g]
  have C: "\<forall>sc fr idx lbl.
        length (returned env_trace cfg_aug hvu_aug_used sc fr idx lbl) = 4 \<and>
        returned env_trace cfg_aug hvu_aug_used sc fr idx lbl ! 3 = PyEmptyDict \<and>
        returned env_trace cfg_aug hvu_aug_used sc fr idx lbl =
          (if aug hvu_aug_used \<and> 1 < AUG_NUM_SAMPLE cfg_aug then
             [PyList (map (\<lambda>k. PyTensors (pack_pathway_output env_trace cfg_aug (processed env_trace cfg_aug hvu_aug_used sc k fr)))
                        [0..<nat (AUG_NUM_SAMPLE cfg_aug)]),
              PyList (replicate (nat (AUG_NUM_SAMPLE cfg_aug)) (PyLabels lbl)),
              PyList (replicate (nat (AUG_NUM_SAMPLE cfg_aug)) (PyInt idx)),
              PyEmptyDict]
           else
             [PyTensors (pack_pathway_output env_trace cfg_aug (processed env_trace cfg_aug hvu_aug_used sc 0 fr)),
              PyLabels lbl, PyInt idx, PyEmptyDict])"
    using t by (elim conjE)
  have y: "aug hvu_aug_used \<and> 1 < AUG_NUM_SAMPLE cfg_aug" using y1 y3 by (rule conjI)
  have c: "returned env_trace cfg_aug hvu_aug_used scales_train [Decoded ''/v/b.mp4''] 1 [0, 1, 0, 0] =
     [PyList (map (\<lambda>k. PyTensors (pack_pathway_output env_trace cfg_aug
                 (processed env_trace cfg_aug hvu_aug_used scales_train k [Decoded ''/v/b.mp4''])))
                [0..<nat (AUG_NUM_SAMPLE cfg_aug)]),
      PyList (replicate (nat (AUG_NUM_SAMPLE cfg_aug)) (PyLabels [0, 1, 0, 0])),
      PyList (replicate (nat (AUG_NUM_SAMPLE cfg_aug)) (PyInt 1)),
      PyEmptyDict]"
    using C [rule_format, of scales_train "[Decoded ''/v/b.mp4'']" 1 "[0, 1, 0, 0]",
          THEN conjunct2, THEN conjunct2]
    unfolding if_P [OF y] .
  have P: "\<forall>sc k fr.
        processed env_trace cfg_aug hvu_aug_used sc k fr =
        (if aug hvu_aug_used then
           (let imgs = create_random_augment env_trace k cfg_aug fr
                         (map (to_pil_image env_trace) (unbind env_trace (permute env_trace [0, 3, 1, 2] fr)));
                normalized =
                  permute env_trace [3, 0, 1, 2]
                    (tensor_normalize env_trace cfg_aug
                       (permute env_trace [0, 2, 3, 1] (stack env_trace (map (to_tensor env_trace) imgs))));
                sampled =
                  spatial_sampling env_trace k cfg_aug (spatial_sample_index sc)
                    (min_scale sc) (max_scale sc) (crop_size sc)
                    (if length (DATA_TRAIN_JITTER_ASPECT_RELATIVE cfg_aug) = 0 then None
                     else Some (DATA_TRAIN_JITTER_ASPECT_RELATIVE cfg_aug))
                    (if length (DATA_TRAIN_JITTER_SCALES_RELATIVE cfg_aug) = 0 then None
                     else Some (DATA_TRAIN_JITTER_SCALES_RELATIVE cfg_aug))
                    (DATA_TRAIN_JITTER_MOTION_SHIFT cfg_aug) normalized
            in if rand_erase hvu_aug_used
               then permute env_trace [1, 0, 2, 3]
                      (random_erasing env_trace k cfg_aug (permute env_trace [1, 0, 2, 3] sampled))
               else sampled)
         else
           spatial_sampling env_trace 0 cfg_aug (spatial_sample_index sc)
             (min_scale sc) (max_scale sc) (crop_size sc) None None False
             (permute env_trace [3, 0, 1, 2] (tensor_normalize env_trace cfg_aug fr)))"
    using t by (elim conjE)
  have p0: "processed env_trace cfg_aug hvu_aug_used scales_train 0 [Decoded ''/v/b.mp4''] = aug_trace 0"
    unfolding P [rule_format] by code_simp
  have p1: "processed env_trace cfg_aug hvu_aug_used scales_train 1 [Decoded ''/v/b.mp4''] = aug_trace 1"
    unfolding P [rule_format] by code_simp
  have v: "getitem env_trace cfg_aug hvu_aug_used (Idx 1) =
     (Inr [PyList [PyTensors [aug_trace 0], PyTensors [aug_trace 1]],
           PyList [PyLabels [0, 1, 0, 0], PyLabels [0, 1, 0, 0]],
           PyList [PyInt 1, PyInt 1], PyEmptyDict],
      hvu_aug_used)"
    by code_simp
  have sd2: "same_dataset hvu_two hvu_two" by (rule same_dataset_refl)
  note t2 = getitem_value [OF init_two sd2, of env_trace cfg_single "Idx 1"]
  have n: "\<not> aug hvu_two" by (simp add: hvu_two_def)
  then have n': "\<not> (aug hvu_two \<and> 1 < AUG_NUM_SAMPLE cfg_single)" by simp
  have C2: "\<forall>sc fr idx lbl.
        length (returned env_trace cfg_single hvu_two sc fr idx lbl) = 4 \<and>
        returned env_trace cfg_single hvu_two sc fr idx lbl ! 3 = PyEmptyDict \<and>
        returned env_trace cfg_single hvu_two sc fr idx lbl =
          (if aug hvu_two \<and> 1 < AUG_NUM_SAMPLE cfg_single then
             [PyList (map (\<lambda>k. PyTensors (pack_pathway_output env_trace cfg_single (processed env_trace cfg_single hvu_two sc k fr)))
                        [0..<nat (AUG_NUM_SAMPLE cfg_single)]),
              PyList (replicate (nat (AUG_NUM_SAMPLE cfg_single)) (PyLabels lbl)),
              PyList (replicate (nat (AUG_NUM_SAMPLE cfg_single)) (PyInt idx)),
              PyEmptyDict]
           else
             [PyTensors (pack_pathway_output env_trace cfg_single (processed env_trace cfg_single hvu_two sc 0 fr)),
              PyLabels lbl, PyInt idx, PyEmptyDict])"
    using t2 by (elim conjE)
  have c2: "returned env_trace cfg_single hvu_two scales_single [Decoded ''/v/b.mp4''] 1 [0, 1, 0, 0] =
     [PyTensors (pack_pathway_output env_trace cfg_single
        (processed env_trace cfg_single hvu_two scales_single 0 [Decoded ''/v/b.mp4''])),
      PyLabels [0, 1, 0, 0], PyInt 1, PyEmptyDict]"
    using C2 [rule_format, of scales_single "[Decoded ''/v/b.mp4'']" 1 "[0, 1, 0, 0]",
          THEN conjunct2, THEN conjunct2]
    unfolding if_not_P [OF n'] .
  have P2: "\<forall>sc k fr.
        processed env_trace cfg_single hvu_two sc k fr =
        (if aug hvu_two then
           (let imgs = create_random_augment env_trace k cfg_single fr
                         (map (to_pil_image env_trace) (unbind env_trace (permute env_trace [0, 3, 1, 2] fr)));
                normalized =
                  permute env_trace [3, 0, 1, 2]
                    (tensor_normalize env_trace cfg_single
                       (permute env_trace [0, 2, 3, 1] (stack env_trace (map (to_tensor env_trace) imgs))));
                sampled =
                  spatial_sampling env_trace k cfg_single (spatial_sample_index sc)
                    (min_scale sc) (max_scale sc) (crop_size sc)
                    (if length (DATA_TRAIN_JITTER_ASPECT_RELATIVE cfg_single) = 0 then None
                     else Some (DATA_TRAIN_JITTER_ASPECT_RELATIVE cfg_single))
                    (if length (DATA_TRAIN_JITTER_SCALES_RELATIVE cfg_single) = 0 then None
                     else Some (DATA_TRAIN_JITTER_SCALES_RELATIVE cfg_single))
                    (DATA_TRAIN_JITTER_MOTION_SHIFT cfg_single) normalized
            in if rand_erase hvu_two
               then permute env_trace [1, 0, 2, 3]
                      (random_erasing env_trace k cfg_single (permute env_trace [1, 0, 2, 3] sampled))
               else sampled)
         else
           spatial_sampling env_trace 0 cfg_single (spatial_sample_index sc)
             (min_scale sc) (max_scale sc) (crop_size sc) None None False
             (permute env_trace [3, 0, 1, 2] (tensor_normalize env_trace cfg_single fr)))"
    using t2 by (elim conjE)
  have p2: "processed env_trace cfg_single hvu_two scales_single 0 [Decoded ''/v/b.mp4''] =
     [Decoded ''/v/b.mp4'', Normalized, Permuted [3, 0, 1, 2],
      Sampled 0 1 224 224 224 None None False]"
    unfolding P2 [rule_format] by code_simp
  have v2: "getitem env_trace cfg_single hvu_two (Idx 1) =
     (Inr [PyTensors [[Decoded ''/v/b.mp4'', Normalized, Permuted [3, 0, 1, 2],
                       Sampled 0 1 224 224 224 None None False]],
           PyLabels [0, 1, 0, 0], PyInt 1, PyEmptyDict],
      hvu_two\<lparr>video_meta := [(0, []), (1, [(''fps'', 30)])]\<rparr>)"
    by code_simp
  show ?thesis
    using init_aug u sd y1 y2 y3 h1 h2 e h3 c0 c1 hf h4 h5 h6 h7 g a c p0 p1 v
      init_two sd2 n c2 p2 v2
    by (intro conjI)
qed

text \<open>
  C5 as the spec states it does not hold: the first attempt opens the container and
  decodes frames, and the value returned has four components, the last an empty dict;
  its frames are the decoded ones after normalisation, permutation and spatial sampling.
  It is not the triple of the decoded frames, the label vector and the index.
\<close>

theorem getitem_four_components_counterexample:
  "get_video_container env_ok 0 cfg_single (path_to_videos hvu_two ! 0) = Some ''/v/a.mp4'' \<and>
   decode env_ok 0 cfg_single ''/v/a.mp4'' (get_random_sampling_rate env_ok cfg_single)
     (temporal_sample_index scales_single) (min_scale scales_single) []
       = (Some [''decoded /v/a.mp4''], []) \<and>
   fst (getitem env_ok cfg_single hvu_two (Idx 0)) =
     Inr [PyTensors [[''decoded /v/a.mp4'', ''normalize'', ''permute'', ''spatial_sampling'']],
          PyLabels [1, 0, 1, 0], PyInt 0, PyEmptyDict] \<and>
   fst (getitem env_ok cfg_single hvu_two (Idx 0)) \<noteq>
     Inr [PyTensors [[''decoded /v/a.mp4'']], PyLabels [1, 0, 1, 0], PyInt 0]"
  by code_simp

section \<open>Where the fallback of mode test leaves the samples\<close>

text \<open>
  C4 says that \<open>__getitem__\<close> raises \<open>RuntimeError\<close> when every attempt fails. Here the
  object is built in mode test from a split file of one line, and no attempt opens the
  container. From attempt 6 on the index goes down by one per attempt: 0, then -1,
  which still names the only sample, then -2, which is out of range for
  \<open>self._path_to_videos\<close>. Line 126 raises \<open>IndexError\<close>, line 129 catches it, and
  line 130 raises it again, out of the function.
\<close>

theorem getitem_all_fail_IndexError:
  "Hvu_init (files_of ''/d/test.csv'' one_video) cfg_single ''test'' 10 = (cfg_single, Inr hvu_one) \<and>
   get_video_container env_never 0 cfg_single ''/v/a.mp4'' = None \<and>
   get_video_container env_never 9 cfg_single ''/v/a.mp4'' = None \<and>
   fst (getitem env_never cfg_single hvu_one (Idx 0)) = Inl IndexError \<and>
   fst (getitem env_never cfg_single hvu_one (Idx 0)) \<noteq> Inl RuntimeError"
  by code_simp

text \<open>
  C10 says that the fallback to \<open>index - 1\<close> selects the last sample when it reaches
  -1, without an out-of-range error. Here the object is built in mode test from a split
  file of two lines, the requested index is 0, and the container opens from attempt 7
  on. At attempt 7 the index is -1: \<open>self._path_to_videos[-1]\<close> is the path of the
  last sample and its container opens, but \<open>self._video_meta\<close> is a dict with the
  keys 0 and 1, and \<open>self._video_meta[-1]\<close> raises \<open>KeyError\<close>.
\<close>

theorem getitem_fallback_KeyError:
  "Hvu_init files_test cfg_single ''test'' 10 = (cfg_single, Inr hvu_two) \<and>
   py_get (path_to_videos hvu_two) (- 1) = Inr ''/v/b.mp4'' \<and>
   get_video_container env_late 7 cfg_single ''/v/b.mp4'' = Some ''/v/b.mp4'' \<and>
   map_of (video_meta hvu_two) (- 1) = None \<and>
   fst (getitem env_late cfg_single hvu_two (Idx 0)) = Inl KeyError"
  by code_simp


end
